theory Spec2Isabelle
  imports Complex_Main "HOL-Library.Sublist"
begin

text \<open>The errors the functions of the sources throw.\<close>

datatype error = TypeError | SyntaxError | RangeError | EmptyKMLError | OutOfBoundsError | UnsupportedContent

section \<open>Elevation profile statistics (src/api/profile.api.js)\<close>

subsection \<open>Numbers\<close>

text \<open>
  A JavaScript Number is an IEEE-754 binary64 value: it is kept as the real it denotes
  when it is finite, and is otherwise one of the two infinities or NaN. An arithmetic
  operation on finite Numbers gives the double nearest to the exact result, a tie going
  to the even significand, and an infinity when that double would be \<open>2 ^ 1024\<close> or more
  in magnitude. The two zeros are one value: they compare equal, and the functions of the
  profile never divide by a zero (the one division by a variable stands behind
  \<open>!distanceDelta\<close>), so no result below depends on the sign of a zero. Array indices and
  lengths are naturals; where the source subtracts from a length the subtraction is done
  on integers.
\<close>

datatype double = Double real | PlusInfinity | MinusInfinity | NotANumber

text \<open>Two to an integer power.\<close>

definition pow2 :: "int \<Rightarrow> real" where
  "pow2 e = (if 0 \<le> e then 2 ^ nat e else 1 / 2 ^ nat (- e))"

text \<open>The binary exponent of a real, the greatest \<open>e\<close> with \<open>2 ^ e \<le> \<bar>x\<bar>\<close>: counted
  upwards by halving from 1 on, downwards by doubling below 1. The count stops at 1024
  and at -1022: beyond, the rounding needs no more of it (the result is an infinity
  above, and the spacing is that of the subnormal doubles below).\<close>

primrec exponent_up :: "nat \<Rightarrow> real \<Rightarrow> int" where
  "exponent_up 0 x = 0"
| "exponent_up (Suc n) x = (if x < 2 then 0 else 1 + exponent_up n (x / 2))"

primrec exponent_down :: "nat \<Rightarrow> real \<Rightarrow> int" where
  "exponent_down 0 x = 0"
| "exponent_down (Suc n) x = (if 1 \<le> x then 0 else exponent_down n (2 * x) - 1)"

definition exponent :: "real \<Rightarrow> int" where
  "exponent x = (if 1 \<le> \<bar>x\<bar> then exponent_up 1024 \<bar>x\<bar> else exponent_down 1022 \<bar>x\<bar>)"

text \<open>The spacing of the doubles around a real: 53 significant bits, and \<open>2 ^ -1074\<close>
  from the smallest normal double down.\<close>

definition quantum :: "real \<Rightarrow> int" where
  "quantum x = max (exponent x - 52) (- 1074)"

text \<open>The nearest integer, a tie going to the even one.\<close>

definition round_half_even :: "real \<Rightarrow> int" where
  "round_half_even x =
     (let n = \<lfloor>x\<rfloor>; r = x - of_int n
      in if r < 1 / 2 then n else if 1 / 2 < r then n + 1 else if even n then n else n + 1)"

text \<open>The double nearest to a real: the Number a decimal literal denotes, and the result
  of an operation whose exact value is the real. A magnitude of \<open>2 ^ 1024\<close> or more after
  rounding is an infinity.\<close>

definition to_double :: "real \<Rightarrow> double" where
  "to_double x =
     (let q = quantum x;
          y = of_int (round_half_even (x / pow2 q)) * pow2 q
      in if exponent y < 1024 then Double y
         else if 0 < y then PlusInfinity
         else MinusInfinity)"

text \<open>Negation, \<open>+\<close>, \<open>-\<close>, \<open>*\<close>, \<open>/\<close> and \<open><\<close> on Numbers. NaN gives NaN (and false); the
  infinities follow the rules of the standard. A finite Number over zero is an infinity of
  the sign of the dividend (the zero counting as \<open>+0\<close>), zero over zero is NaN.\<close>

fun double_neg :: "double \<Rightarrow> double" where
  "double_neg (Double x) = Double (- x)"
| "double_neg PlusInfinity = MinusInfinity"
| "double_neg MinusInfinity = PlusInfinity"
| "double_neg NotANumber = NotANumber"

fun double_add :: "double \<Rightarrow> double \<Rightarrow> double" where
  "double_add (Double x) (Double y) = to_double (x + y)"
| "double_add NotANumber b = NotANumber"
| "double_add a NotANumber = NotANumber"
| "double_add PlusInfinity MinusInfinity = NotANumber"
| "double_add MinusInfinity PlusInfinity = NotANumber"
| "double_add PlusInfinity b = PlusInfinity"
| "double_add a PlusInfinity = PlusInfinity"
| "double_add MinusInfinity b = MinusInfinity"
| "double_add a MinusInfinity = MinusInfinity"

definition double_sub :: "double \<Rightarrow> double \<Rightarrow> double" where
  "double_sub a b = double_add a (double_neg b)"

fun double_mul :: "double \<Rightarrow> double \<Rightarrow> double" where
  "double_mul (Double x) (Double y) = to_double (x * y)"
| "double_mul NotANumber b = NotANumber"
| "double_mul a NotANumber = NotANumber"
| "double_mul (Double x) b = (if x = 0 then NotANumber else if 0 < x then b else double_neg b)"
| "double_mul a (Double y) = (if y = 0 then NotANumber else if 0 < y then a else double_neg a)"
| "double_mul PlusInfinity b = b"
| "double_mul MinusInfinity b = double_neg b"

fun double_div :: "double \<Rightarrow> double \<Rightarrow> double" where
  "double_div (Double x) (Double y) =
     (if y \<noteq> 0 then to_double (x / y)
      else if x = 0 then NotANumber
      else if 0 < x then PlusInfinity
      else MinusInfinity)"
| "double_div NotANumber b = NotANumber"
| "double_div a NotANumber = NotANumber"
| "double_div (Double x) b = Double 0"
| "double_div a (Double y) = (if 0 \<le> y then a else double_neg a)"
| "double_div a b = NotANumber"

fun double_less :: "double \<Rightarrow> double \<Rightarrow> bool" where
  "double_less (Double x) (Double y) = (x < y)"
| "double_less NotANumber b = False"
| "double_less a NotANumber = False"
| "double_less a MinusInfinity = False"
| "double_less PlusInfinity b = False"
| "double_less a b = True"


text \<open>The values a Number can take: a real that the rounding leaves as it is, an infinity
  or NaN.\<close>

definition is_double :: "double \<Rightarrow> bool" where
  "is_double a = (case a of Double x \<Rightarrow> to_double x = Double x | _ \<Rightarrow> True)"

text \<open>\<open>Math.max\<close> and \<open>Math.min\<close> of two Numbers: NaN when one of them is NaN.\<close>

definition Math_max :: "double \<Rightarrow> double \<Rightarrow> double" where
  "Math_max a b =
     (if a = NotANumber \<or> b = NotANumber then NotANumber
      else if double_less a b then b else a)"

definition Math_min :: "double \<Rightarrow> double \<Rightarrow> double" where
  "Math_min a b =
     (if a = NotANumber \<or> b = NotANumber then NotANumber
      else if double_less b a then b else a)"

fun Math_abs :: "double \<Rightarrow> double" where
  "Math_abs (Double x) = Double \<bar>x\<bar>"
| "Math_abs PlusInfinity = PlusInfinity"
| "Math_abs MinusInfinity = PlusInfinity"
| "Math_abs NotANumber = NotANumber"

text \<open>\<open>Math.round\<close>: the nearest integer, a tie going up; an integer of that size is a
  double, so nothing is rounded a second time.\<close>

fun Math_round :: "double \<Rightarrow> double" where
  "Math_round (Double x) = Double (of_int \<lfloor>x + 1 / 2\<rfloor>)"
| "Math_round PlusInfinity = PlusInfinity"
| "Math_round MinusInfinity = MinusInfinity"
| "Math_round NotANumber = NotANumber"

text \<open>\<open>!x\<close> for a Number: true for zero and for NaN.\<close>

definition falsy :: "double \<Rightarrow> bool" where
  "falsy a = (a = Double 0 \<or> a = NotANumber)"

subsection \<open>The profile\<close>

record ProfilePoint =
  dist :: double
  coordinate :: "double \<times> double"
  elevation :: double

text \<open>\<open>Array.prototype.reduce(callback, initialValue)\<close>: the callback receives the
  accumulator, the current element, its index and the array.\<close>

definition reduce_init :: "('b \<Rightarrow> 'a \<Rightarrow> nat \<Rightarrow> 'a list \<Rightarrow> 'b) \<Rightarrow> 'b \<Rightarrow> 'a list \<Rightarrow> 'b" where
  "reduce_init callback initialValue arr =
     foldl (\<lambda>acc i. callback acc (arr ! i) i arr) initialValue [0..<length arr]"

text \<open>\<open>Array.prototype.reduce(callback)\<close> with no initial value: a TypeError on an empty
  array, otherwise the first element starts the accumulation.\<close>

definition reduce_noinit :: "('a \<Rightarrow> 'a \<Rightarrow> 'a) \<Rightarrow> 'a list \<Rightarrow> error + 'a" where
  "reduce_noinit callback arr =
     (case arr of [] \<Rightarrow> Inl TypeError | a # rest \<Rightarrow> Inr (foldl callback a rest))"

text \<open>\<open>Array.prototype.map(callback)\<close>, the callback receiving element, index and array.\<close>

definition map_indexed :: "('a \<Rightarrow> nat \<Rightarrow> 'a list \<Rightarrow> 'b) \<Rightarrow> 'a list \<Rightarrow> 'b list" where
  "map_indexed callback arr = map (\<lambda>i. callback (arr ! i) i arr) [0..<length arr]"

definition hasData :: "ProfilePoint list \<Rightarrow> bool" where
  "hasData points = (length points \<ge> 2)"

definition elevationDifference :: "ProfilePoint list \<Rightarrow> double" where
  "elevationDifference points =
     (if \<not> hasData points then Double 0
      else double_sub (elevation (points ! (length points - 1))) (elevation (points ! 0)))"

definition totalAscent :: "ProfilePoint list \<Rightarrow> double" where
  "totalAscent points =
     reduce_init (\<lambda>totalAscent currentPoint currentIndex points.
        if currentIndex = 0 then totalAscent
        else double_add totalAscent
               (Math_max (double_sub (elevation currentPoint)
                            (elevation (points ! (currentIndex - 1))))
                  (Double 0)))
       (Double 0) points"

definition totalDescent :: "ProfilePoint list \<Rightarrow> double" where
  "totalDescent points =
     Math_abs
       (reduce_init (\<lambda>totalDescent currentPoint currentIndex points.
          if currentIndex = 0 then totalDescent
          else double_sub totalDescent
                 (Math_min (double_sub (elevation currentPoint)
                              (elevation (points ! (currentIndex - 1))))
                    (Double 0)))
         (Double 0) points)"

text \<open>The coefficient table as it is written, and the Numbers its decimals denote.\<close>

definition arrConstants_decimal :: "real list" where
  "arrConstants_decimal =
     [14.271, 3.6991, 2.5922, -1.4384, 0.32105, 0.81542, -0.090261, -0.20757, 0.010192,
      0.028588, -0.00057466, -0.0021842, 1.5176 / 10 ^ 5, 8.6894 / 10 ^ 5,
      -1.3584 / 10 ^ 7, -1.4026 / 10 ^ 6]"

definition arrConstants :: "double list" where
  "arrConstants = map to_double arrConstants_decimal"

text \<open>The body of the \<open>map\<close> callback of \<open>hikingTime\<close>, from the computation of the slope on.
  \<open>arrConstants.forEach((constants, i) => ...)\<close> accumulates into \<open>minutesPerKilometer\<close>,
  which starts at 0. \<open>Math.pow\<close> is a parameter: the language leaves its result to the
  implementation (an approximation of the power), so nothing is fixed about it here.\<close>

definition minutesPerKilometer :: "(double \<Rightarrow> nat \<Rightarrow> double) \<Rightarrow> double \<Rightarrow> double" where
  "minutesPerKilometer Math_pow slope =
     (if double_less (Double (- 4)) slope \<and> double_less slope (Double 4) then
        foldl (\<lambda>minutesPerKilometer (constants, i).
                 double_add minutesPerKilometer (double_mul constants (Math_pow slope i)))
          (Double 0) (zip arrConstants [0..<length arrConstants])
      else if double_less (Double 0) slope then double_mul (Double 17) slope
      else double_mul (Double (- 9)) slope)"

definition hikingTime_callback ::
  "(double \<Rightarrow> nat \<Rightarrow> double) \<Rightarrow> ProfilePoint \<Rightarrow> nat \<Rightarrow> ProfilePoint list \<Rightarrow> double" where
  "hikingTime_callback Math_pow currentPoint index points =
     (if int index < int (length points) - 2 then
        let nextPoint = points ! (index + 1);
            distanceDelta = double_sub (dist nextPoint) (dist currentPoint)
        in if falsy distanceDelta then Double 0
           else
             let elevationDelta = double_sub (elevation nextPoint) (elevation currentPoint);
                 slope = double_div (double_mul elevationDelta (Double 10)) distanceDelta
             in double_div (double_mul distanceDelta (minutesPerKilometer Math_pow slope))
                  (Double 1000)
      else Double 0)"

definition hikingTime :: "(double \<Rightarrow> nat \<Rightarrow> double) \<Rightarrow> ProfilePoint list \<Rightarrow> error + double" where
  "hikingTime Math_pow points =
     (if \<not> hasData points then Inr (Double 0)
      else case reduce_noinit double_add (map_indexed (hikingTime_callback Math_pow) points) of
             Inl e \<Rightarrow> Inl e
           | Inr minutes \<Rightarrow> Inr (Math_round minutes))"

subsection \<open>The hiking time as the specification words it\<close>

text \<open>Read in the arithmetic of the code: every operation gives a double, the terms of
  the polynomial are added from the constant term on, and the segments from the first
  on.\<close>

definition segment_minutes_spec ::
  "(double \<Rightarrow> nat \<Rightarrow> double) \<Rightarrow> ProfilePoint \<Rightarrow> ProfilePoint \<Rightarrow> double" where
  "segment_minutes_spec Math_pow current nxt =
     (let distanceDelta = double_sub (dist nxt) (dist current);
          elevationDelta = double_sub (elevation nxt) (elevation current);
          slope = double_div (double_mul (Double 10) elevationDelta) distanceDelta
      in if distanceDelta = Double 0 \<or> distanceDelta = NotANumber then Double 0
         else double_div
                (double_mul distanceDelta
                   (if double_less (Double (- 4)) slope \<and> double_less slope (Double 4)
                    then foldl (\<lambda>s i. double_add s (double_mul (arrConstants ! i) (Math_pow slope i)))
                           (Double 0) [0..<16]
                    else if double_less (Double 0) slope then double_mul (Double 17) slope
                    else double_mul (Double (- 9)) slope))
                (Double 1000))"

text \<open>The consecutive pairs of a sequence, in order.\<close>

definition consecutive_pairs :: "'a list \<Rightarrow> ('a \<times> 'a) list" where
  "consecutive_pairs xs = zip xs (tl xs)"

definition hikingTime_spec :: "(double \<Rightarrow> nat \<Rightarrow> double) \<Rightarrow> ProfilePoint list \<Rightarrow> double" where
  "hikingTime_spec Math_pow points =
     Math_round
       (foldl double_add (Double 0)
          (map (\<lambda>(current, nxt). segment_minutes_spec Math_pow current nxt)
             (butlast (consecutive_pairs points))))"

text \<open>Read in exact arithmetic, on the distances and elevations as reals (a point is a
  pair of a distance and an elevation).\<close>

definition segment_minutes_exact :: "real \<times> real \<Rightarrow> real \<times> real \<Rightarrow> real" where
  "segment_minutes_exact current nxt =
     (let distanceDelta = fst nxt - fst current;
          elevationDelta = snd nxt - snd current;
          slope = 10 * elevationDelta / distanceDelta
      in if distanceDelta = 0 then 0
         else distanceDelta *
                (if - 4 < slope \<and> slope < 4 then (\<Sum>i<16. arrConstants_decimal ! i * slope ^ i)
                 else if 0 < slope then 17 * slope
                 else - 9 * slope) / 1000)"

definition hikingTime_exact :: "(real \<times> real) list \<Rightarrow> int" where
  "hikingTime_exact points =
     round (\<Sum>(current, nxt)\<leftarrow>butlast (consecutive_pairs points). segment_minutes_exact current nxt)"

text \<open>The profile of the points at the given distances and elevations, each the Number
  its decimal denotes.\<close>

definition profile_of :: "(real \<times> real) list \<Rightarrow> ProfilePoint list" where
  "profile_of points =
     map (\<lambda>(d, e). \<lparr>dist = to_double d, coordinate = (Double 0, to_double d),
                    elevation = to_double e\<rparr>) points"

text \<open>Ascent and descent as the specification words them, for elevations that are whole
  metres: sums of integers over the consecutive pairs.\<close>

definition metres :: "ProfilePoint \<Rightarrow> int" where
  "metres p = (case elevation p of Double x \<Rightarrow> \<lfloor>x\<rfloor> | _ \<Rightarrow> 0)"

definition whole_metres :: "int \<Rightarrow> ProfilePoint \<Rightarrow> bool" where
  "whole_metres bound p =
     (case elevation p of Double x \<Rightarrow> x = of_int \<lfloor>x\<rfloor> \<and> \<bar>\<lfloor>x\<rfloor>\<bar> \<le> bound | _ \<Rightarrow> False)"

definition totalAscent_spec :: "ProfilePoint list \<Rightarrow> int" where
  "totalAscent_spec points =
     (\<Sum>i = 1..<length points. max (metres (points ! i) - metres (points ! (i - 1))) 0)"

definition totalDescent_spec :: "ProfilePoint list \<Rightarrow> int" where
  "totalDescent_spec points =
     \<bar>\<Sum>i = 1..<length points. min (metres (points ! i) - metres (points ! (i - 1))) 0\<bar>"

text \<open>Three profiles used to run the definitions: 1000 m at +5 %, then 500 m at -6 %; a
  climb of 50 m over 115 m followed by one flat metre; and a climb of 0.2 m, then of
  0.7 m.\<close>

definition example_profile :: "ProfilePoint list" where
  "example_profile = profile_of [(0, 100), (1000, 150), (1500, 120)]"

definition steep_points :: "(real \<times> real) list" where
  "steep_points = [(0, 0), (115, 50), (116, 50)]"

definition steep_climb :: "ProfilePoint list" where
  "steep_climb = profile_of [(0, 0), (1000, 500), (2000, 500)]"

definition gentle_climb :: "ProfilePoint list" where
  "gentle_climb = profile_of [(0, 0), (1, 0.2), (2, 0.9)]"

text \<open>A power function to run \<open>hikingTime\<close> with: the power by repeated multiplication.\<close>

definition product_pow :: "double \<Rightarrow> nat \<Rightarrow> double" where
  "product_pow x i = foldl double_mul (Double 1) (replicate i x)"

subsection \<open>The profile request\<close>

text \<open>
  \<open>profile\<close> returns a promise whose executor runs at once. The model follows the
  executor up to the point where it hands the request to \<open>axios\<close>: the state holds how the
  promise is settled so far, the messages given to \<open>log.error\<close> and the HTTP requests
  issued. \<open>reject\<close> settles a pending promise and changes nothing on a settled one; it
  does not leave the executor. The answer of the backend arrives later and is not part of
  the model.
\<close>

datatype promise_state = Pending | Rejected string

record http_request =
  request_url :: string
  request_method :: string
  request_params :: "(string \<times> string) list"
  request_coordinates :: "(real \<times> real) list option"

record executor_state =
  settled :: promise_state
  error_log :: "string list"
  requests :: "http_request list"

definition reject :: "string \<Rightarrow> executor_state \<Rightarrow> executor_state" where
  "reject reason st = (case settled st of Pending \<Rightarrow> st\<lparr>settled := Rejected reason\<rparr> | _ \<Rightarrow> st)"

definition log_error :: "string \<Rightarrow> executor_state \<Rightarrow> executor_state" where
  "log_error msg st = st\<lparr>error_log := error_log st @ [msg]\<rparr>"

definition axios :: "http_request \<Rightarrow> executor_state \<Rightarrow> executor_state" where
  "axios req st = st\<lparr>requests := requests st @ [req]\<rparr>"

text \<open>The base URL of the service and the EPSG number of LV95 come from the configuration,
  which is not among the sources: they are parameters. An absent argument is \<open>None\<close>; the
  file extension then takes its default \<open>.json\<close>.\<close>

definition profile ::
  "string \<Rightarrow> string \<Rightarrow> (real \<times> real) list option \<Rightarrow> string option \<Rightarrow> executor_state" where
  "profile API_SERVICE_ALTI_BASE_URL epsgNumber coordinates fileExtensionArg =
     (let fileExtension = (case fileExtensionArg of None \<Rightarrow> ''.json'' | Some ext \<Rightarrow> ext);
          st0 = \<lparr>settled = Pending, error_log = [], requests = []\<rparr>;
          st1 = (if fileExtension \<noteq> ''.json'' \<and> fileExtension \<noteq> ''.csv''
                 then reject ''Not supported file extension''
                        (log_error ''Not supported file extension'' st0)
                 else st0);
          st2 = (if (case coordinates of None \<Rightarrow> True | Some cs \<Rightarrow> length cs = 0)
                 then reject ''Coordinates not provided''
                        (log_error ''Coordinates not provided'' st1)
                 else st1)
      in axios
           \<lparr>request_url = API_SERVICE_ALTI_BASE_URL @ ''rest/services/profile'' @ fileExtension,
            request_method = ''POST'',
            request_params =
              [(''offset'', ''0''), (''sr'', epsgNumber), (''distinct_points'', ''true'')],
            request_coordinates = coordinates\<rparr>
           st2)"

section \<open>Regular expressions of the source\<close>

text \<open>
  Strings (URLs, file contents) are lists of 8-bit characters. The regular expressions of
  the source use literals, the classes \<open>\d\<close>, \<open>\w\<close>, \<open>\s\<close>, \<open>[^/]\<close> and \<open>.\<close> under
  \<open>+\<close>, \<open>+?\<close> and \<open>*\<close>, an optional group, named groups and \<open>$\<close>. The matcher is the
  backtracking matcher of JavaScript written as a list of successes: \<open>run re (groups, s)\<close>
  lists every way \<open>re\<close> matches a prefix of \<open>s\<close>, as the groups captured and the rest of the
  input, in the order in which a backtracking engine tries them (a greedy quantifier the
  longest repetition first, a lazy one the shortest first). \<open>exec\<close> tries the start
  positions from left to right and returns the groups of the first success, as
  \<open>RegExp.prototype.exec\<close> does for a pattern without flags.
\<close>

datatype char_class = Digit | Word | Space | NotSlash | AnyChar

fun in_class :: "char_class \<Rightarrow> char \<Rightarrow> bool" where
  "in_class Digit c = (48 \<le> (of_char c :: nat) \<and> (of_char c :: nat) \<le> 57)"
| "in_class Word c =
     ((48 \<le> (of_char c :: nat) \<and> (of_char c :: nat) \<le> 57)
      \<or> (65 \<le> (of_char c :: nat) \<and> (of_char c :: nat) \<le> 90)
      \<or> (97 \<le> (of_char c :: nat) \<and> (of_char c :: nat) \<le> 122)
      \<or> (of_char c :: nat) = 95)"
| "in_class Space c = ((of_char c :: nat) \<in> {9, 10, 11, 12, 13, 32, 160})"
| "in_class NotSlash c = (c \<noteq> CHR ''/'')"
| "in_class AnyChar c = ((of_char c :: nat) \<noteq> 10 \<and> (of_char c :: nat) \<noteq> 13)"

datatype regex =
    Lit string
  | Plus char_class
  | PlusLazy char_class
  | Star char_class
  | Opt regex
  | Group string regex
  | Eol
  | Cat "regex list"

type_synonym groups = "string \<Rightarrow> string option"
type_synonym match_state = "groups \<times> string"

text \<open>How many characters of the class a quantifier can take at most.\<close>

definition class_run :: "char_class \<Rightarrow> string \<Rightarrow> nat" where
  "class_run k s = length (takeWhile (in_class k) s)"

fun run :: "regex \<Rightarrow> match_state \<Rightarrow> match_state list"
  and run_seq :: "regex list \<Rightarrow> match_state \<Rightarrow> match_state list" where
  "run (Lit l) (c, s) = (if take (length l) s = l then [(c, drop (length l) s)] else [])"
| "run (Plus k) (c, s) = map (\<lambda>n. (c, drop n s)) (rev [1..<Suc (class_run k s)])"
| "run (PlusLazy k) (c, s) = map (\<lambda>n. (c, drop n s)) [1..<Suc (class_run k s)]"
| "run (Star k) (c, s) = map (\<lambda>n. (c, drop n s)) (rev [0..<Suc (class_run k s)])"
| "run (Opt re) st = run re st @ [st]"
| "run (Group name re) (c, s) =
     map (\<lambda>(c', s'). (c'(name \<mapsto> take (length s - length s') s), s')) (run re (c, s))"
| "run Eol (c, s) = (if s = [] then [(c, s)] else [])"
| "run (Cat res) st = run_seq res st"
| "run_seq [] st = [st]"
| "run_seq (re # res) st = concat (map (run_seq res) (run re st))"

definition match_at :: "regex \<Rightarrow> string \<Rightarrow> groups option" where
  "match_at re s = (case run re (Map.empty, s) of [] \<Rightarrow> None | (c, rest) # others \<Rightarrow> Some c)"

fun exec :: "regex \<Rightarrow> string \<Rightarrow> groups option" where
  "exec re [] = match_at re []"
| "exec re (x # xs) = (case match_at re (x # xs) of Some m \<Rightarrow> Some m | None \<Rightarrow> exec re xs)"

definition test :: "regex \<Rightarrow> string \<Rightarrow> bool" where
  "test re s = (exec re s \<noteq> None)"


section \<open>The objects of the map library\<close>

text \<open>
  The source reads features, geometries and styles through the accessors of the map
  library (OpenLayers). Each object is a record of what its accessors return; an accessor
  that may return \<open>null\<close> or \<open>undefined\<close> is an \<open>option\<close>. Calling a method on \<open>null\<close> or
  \<open>undefined\<close> throws a TypeError, written out wherever the source calls one unguarded.
\<close>

subsection \<open>Extents\<close>

text \<open>An ordinate of an extent is a finite number or one of the two infinities of the empty
  extent.\<close>

datatype bound = NegInf | Fin real | PosInf

instantiation bound :: linorder
begin

fun less_eq_bound :: "bound \<Rightarrow> bound \<Rightarrow> bool" where
  "less_eq_bound NegInf y = True"
| "less_eq_bound (Fin a) NegInf = False"
| "less_eq_bound (Fin a) (Fin b) = (a \<le> b)"
| "less_eq_bound (Fin a) PosInf = True"
| "less_eq_bound PosInf NegInf = False"
| "less_eq_bound PosInf (Fin b) = False"
| "less_eq_bound PosInf PosInf = True"

definition less_bound :: "bound \<Rightarrow> bound \<Rightarrow> bool" where
  "less_bound x y = (x \<le> y \<and> \<not> y \<le> x)"

instance
proof
  fix x y z :: bound
  show "(x < y) = (x \<le> y \<and> \<not> y \<le> x)" by (simp add: less_bound_def)
  show "x \<le> x" by (cases x) simp_all
  show "x \<le> y \<Longrightarrow> y \<le> z \<Longrightarrow> x \<le> z" by (cases x; cases y; cases z) simp_all
  show "x \<le> y \<Longrightarrow> y \<le> x \<Longrightarrow> x = y" by (cases x; cases y) simp_all
  show "x \<le> y \<or> y \<le> x" by (cases x; cases y) auto
qed

end

text \<open>An extent is the array \<open>[minX, minY, maxX, maxY]\<close>. The three functions are those of
  \<open>ol/extent\<close>: \<open>createEmpty\<close>, \<open>extend\<close> (which updates its first argument, here returned)
  and \<open>isEmpty\<close>.\<close>

record extent =
  minX :: bound
  minY :: bound
  maxX :: bound
  maxY :: bound

definition emptyExtent :: extent where
  "emptyExtent = \<lparr>minX = PosInf, minY = PosInf, maxX = NegInf, maxY = NegInf\<rparr>"

definition extendExtent :: "extent \<Rightarrow> extent \<Rightarrow> extent" where
  "extendExtent extent1 extent2 =
     (let e1 = (if minX extent2 < minX extent1 then extent1\<lparr>minX := minX extent2\<rparr> else extent1);
          e2 = (if maxX extent2 > maxX e1 then e1\<lparr>maxX := maxX extent2\<rparr> else e1);
          e3 = (if minY extent2 < minY e2 then e2\<lparr>minY := minY extent2\<rparr> else e2);
          e4 = (if maxY extent2 > maxY e3 then e3\<lparr>maxY := maxY extent2\<rparr> else e3)
      in e4)"

definition isExtentEmpty :: "extent \<Rightarrow> bool" where
  "isExtentEmpty e = (maxX e < minX e \<or> maxY e < minY e)"

text \<open>The union of a list of extents as the specification means it: the smallest extent
  that holds them all, the empty extent for no extent at all.\<close>

definition extent_union :: "extent list \<Rightarrow> extent" where
  "extent_union es =
     \<lparr>minX = Min (set (PosInf # map minX es)), minY = Min (set (PosInf # map minY es)),
      maxX = Max (set (NegInf # map maxX es)), maxY = Max (set (NegInf # map maxY es))\<rparr>"

subsection \<open>Geometries, styles and features\<close>

text \<open>The nested array that \<open>getCoordinates\<close> returns: a point is an array of ordinates, a
  line an array of points, a polygon an array of rings. A geometry collection (a KML
  \<open>MultiGeometry\<close> of mixed kinds) has an extent and no \<open>getCoordinates\<close>: its
  \<open>geom_coordinates\<close> is \<open>None\<close>, and calling the method throws a TypeError.\<close>

datatype coords = Ordinate real | Arr "coords list"

record Geometry =
  geom_type :: string
  geom_coordinates :: "coords option"
  geom_extent :: extent

text \<open>A colour as a style holds it: an array of channel values, a CSS string, or none.\<close>

datatype ol_color = ColorArray "real list" | ColorString string | NoColor

text \<open>\<open>ol/style/Icon\<close>: \<open>getSrc\<close> may be undefined; \<open>getSize\<close> and \<open>getAnchor\<close> are null as
  long as the image is not loaded.\<close>

record IconStyle =
  icon_src :: "string option"
  icon_scale :: real
  icon_size :: "(real \<times> real) option"
  icon_anchor :: "(real \<times> real) option"

text \<open>The image of a style is an icon or another image (a circle, a shape), which has a
  scale too.\<close>

datatype image_style = Icon IconStyle | OtherImage real

definition image_scale :: "image_style \<Rightarrow> real" where
  "image_scale img = (case img of Icon i \<Rightarrow> icon_scale i | OtherImage sc \<Rightarrow> sc)"

record TextStyle =
  text_scale :: "real option"
  text_fill :: "ol_color option"

record Style =
  style_text :: "TextStyle option"
  style_image :: "image_style option"
  style_stroke :: "ol_color option"
  style_fill :: "ol_color option"

text \<open>A feature as the KML reader builds it. A placemark without geometry gives a feature
  whose \<open>getGeometry\<close> returns nothing (\<open>feature_geometry = None\<close>).

  Modelled from the spec: \<open>getStyle\<close> of \<open>@/utils/featureStyleUtils\<close> is not among the
  sources; it resolves the style of the feature, or null when there is none
  (\<open>feature_style\<close>).\<close>

record Feature =
  feature_id :: "string option"
  feature_type_property :: "string option"
  feature_name :: "string option"
  feature_description :: "string option"
  feature_geometry :: "Geometry option"
  feature_style :: "Style option"

definition getStyle :: "Feature \<Rightarrow> Style option" where
  "getStyle olFeature = feature_style olFeature"

text \<open>What a caller may pass where a feature is expected: \<open>null\<close>, \<open>undefined\<close>, an object
  that offers the accessors of a feature without being an instance of \<open>ol/Feature\<close> (a
  render feature, say), or a feature.\<close>

datatype kml_input = JsNull | JsUndefined | FeatureLike Feature | OlFeature Feature

section \<open>File sniffing and import (addPrimitiveLayer-mixins.js, second part)\<close>

definition isKml :: "string \<Rightarrow> bool" where
  "isKml fileContent =
     (test (Lit ''<kml'') fileContent \<and> test (Cat [Lit ''</kml'', Star Space, Lit ''>'']) fileContent)"

definition isGpx :: "string \<Rightarrow> bool" where
  "isGpx fileContent =
     (test (Lit ''<gpx'') fileContent \<and> test (Cat [Lit ''</gpx'', Star Space, Lit ''>'']) fileContent)"

text \<open>Modelled from the spec: the classes \<open>KMLLayer\<close> and \<open>GPXLayer\<close> are not among the
  sources; a layer holds the arguments of its constructor (source, visibility, opacity,
  the admin id of a KML, the content, the metadata of a GPX).\<close>

datatype Layer =
    KMLLayer string bool real "string option" string
  | GPXLayer string bool real string string

datatype store_action = ZoomToExtent "extent option" | AddLayer Layer

text \<open>What \<open>handleFileContent\<close> and \<open>getKmlExtent\<close> take from outside the sources: the KML
  reader, the projection of an extent into the bounds of the current projection (null when
  it lies outside), and the GPX reader with the bounding box of its tracks.\<close>

record import_env =
  kml_readFeatures :: "string \<Rightarrow> Feature list"
  getExtentForProjection :: "extent \<Rightarrow> extent option"
  gpx_readMetadata :: "string \<Rightarrow> string"
  gpx_bbox :: "string \<Rightarrow> extent"

text \<open>\<open>features.forEach((feature) => extendExtent(extent, feature.getGeometry().getExtent()))\<close>:
  the loop stops with a TypeError at the first feature without geometry.\<close>

fun extend_all :: "extent \<Rightarrow> Feature list \<Rightarrow> error + extent" where
  "extend_all extent [] = Inr extent"
| "extend_all extent (feature # features) =
     (case feature_geometry feature of
        None \<Rightarrow> Inl TypeError
      | Some geometry \<Rightarrow> extend_all (extendExtent extent (geom_extent geometry)) features)"

definition getKmlExtent :: "import_env \<Rightarrow> string \<Rightarrow> error + extent option" where
  "getKmlExtent env content =
     (let features = kml_readFeatures env content
      in case extend_all emptyExtent features of
           Inl e \<Rightarrow> Inl e
         | Inr extent \<Rightarrow> if isExtentEmpty extent then Inr None else Inr (Some extent))"

text \<open>The result of \<open>handleFileContent\<close>: the layer returned or the error thrown, and the
  actions dispatched to the store until then.\<close>

definition handleFileContent ::
  "import_env \<Rightarrow> string \<Rightarrow> string \<Rightarrow> (error + Layer) \<times> store_action list" where
  "handleFileContent env content source =
     (if isKml content then
        let layer = KMLLayer source True 1 None content
        in case getKmlExtent env content of
             Inl e \<Rightarrow> (Inl e, [])
           | Inr None \<Rightarrow> (Inl EmptyKMLError, [])
           | Inr (Some extent) \<Rightarrow>
               (case getExtentForProjection env extent of
                  None \<Rightarrow> (Inl OutOfBoundsError, [])
                | Some projectedExtent \<Rightarrow>
                    (Inr layer, [ZoomToExtent (Some projectedExtent), AddLayer layer]))
      else if isGpx content then
        let metadata = gpx_readMetadata env content;
            layer = GPXLayer source True 1 content metadata;
            extent = getExtentForProjection env (gpx_bbox env content)
        in (Inr layer, [ZoomToExtent extent, AddLayer layer])
      else (Inl UnsupportedContent, []))"


section \<open>KML features (src/utils/kmlUtils.js)\<close>

datatype log_entry = LogError string | LogWarn string

subsection \<open>What the functions take from outside the sources\<close>

text \<open>Modelled from the spec: the classes \<open>FeatureStyleSize\<close>, \<open>FeatureStyleColor\<close>,
  \<open>DrawingIcon\<close> and \<open>DrawingIconSet\<close> are not among the sources. A size preset has a
  label, a text scale and an icon scale; a colour a name and a fill; a catalog icon a name,
  its two rendering URLs, the name of its set and an anchor; a set a name and its icons.\<close>

record FeatureStyleSize =
  size_label :: string
  size_textScale :: real
  size_iconScale :: real

record FeatureStyleColor =
  color_name :: string
  color_fill :: string

text \<open>The quotient of two finite Numbers: a division by zero throws nothing, it gives an
  infinity or NaN. (Negative zero is left out: a zero divisor counts as \<open>+0\<close>.)\<close>

datatype number = Finite real | PosInfinity | NegInfinity | NaN

definition js_divide :: "real \<Rightarrow> real \<Rightarrow> number" where
  "js_divide x y =
     (if y \<noteq> 0 then Finite (x / y)
      else if x > 0 then PosInfinity
      else if x < 0 then NegInfinity
      else NaN)"

record DrawingIcon =
  drawing_name :: string
  imageURL :: string
  imageTemplateURL :: string
  iconSetName :: string
  anchor :: "number \<times> number"

record DrawingIconSet =
  iconset_name :: string
  iconset_icons :: "DrawingIcon list"

text \<open>Modelled from the spec: \<open>EditableFeatureTypes\<close> is not among the sources; its values
  are the four feature types.\<close>

definition MARKER :: string where "MARKER = ''MARKER''"
definition ANNOTATION :: string where "ANNOTATION = ''ANNOTATION''"
definition LINEPOLYGON :: string where "LINEPOLYGON = ''LINEPOLYGON''"
definition MEASURE :: string where "MEASURE = ''MEASURE''"

definition EditableFeatureTypes_values :: "string list" where
  "EditableFeatureTypes_values = [MARKER, ANNOTATION, LINEPOLYGON, MEASURE]"

text \<open>The rest is taken as parameters: the two defaults of the KML reader's default style
  (its text scale and the URL of its pin), the table of size presets with \<open>SMALL\<close>, the
  colour \<open>RED\<close>, and the helpers of \<open>@/utils/featureStyleUtils\<close> that resolve a colour, the
  text colour of a style and the text size of a scale (each returns a preset or its
  default, never null, as the specification has it). \<open>RegExp_test\<close> is the regular
  expression engine on a pattern built at run time: \<open>None\<close> when the pattern does not
  compile (a SyntaxError), else the test of a string against it.\<close>

record kml_env =
  defaultTextScale :: "real option"
  defaultImageSrc :: "string option"
  allStylingSizes :: "FeatureStyleSize list"
  SMALL :: FeatureStyleSize
  RED :: FeatureStyleColor
  getFeatureStyleColor :: "ol_color \<Rightarrow> FeatureStyleColor"
  getTextColor :: "Style \<Rightarrow> FeatureStyleColor"
  getTextSize :: "real option \<Rightarrow> FeatureStyleSize"
  RegExp_test :: "string \<Rightarrow> (string \<Rightarrow> bool) option"

definition LEGACY_ICON_XML_SCALE_FACTOR :: real where
  "LEGACY_ICON_XML_SCALE_FACTOR = 1.5"

subsection \<open>getFeatureType\<close>

text \<open>\<open>String.prototype.toUpperCase\<close> on the letters a to z.\<close>

definition toUpperCase :: "string \<Rightarrow> string" where
  "toUpperCase s =
     map (\<lambda>c. if 97 \<le> (of_char c :: nat) \<and> (of_char c :: nat) \<le> 122
               then char_of ((of_char c :: nat) - 32) else c) s"

text \<open>The object behind a value, for a method call on it: calling a method on \<open>null\<close> or
  \<open>undefined\<close> throws a TypeError.\<close>

definition receiver :: "kml_input \<Rightarrow> error + Feature" where
  "receiver v =
     (case v of JsNull \<Rightarrow> Inl TypeError | JsUndefined \<Rightarrow> Inl TypeError
      | FeatureLike f \<Rightarrow> Inr f | OlFeature f \<Rightarrow> Inr f)"

definition instanceof_Feature :: "kml_input \<Rightarrow> bool" where
  "instanceof_Feature v = (case v of OlFeature f \<Rightarrow> True | _ \<Rightarrow> False)"

text \<open>\<open>Array.prototype.includes\<close> on an array of strings, for a value that may be
  undefined.\<close>

definition array_includes :: "string list \<Rightarrow> string option \<Rightarrow> bool" where
  "array_includes arr v = (case v of None \<Rightarrow> False | Some x \<Rightarrow> x \<in> set arr)"

definition getFeatureType :: "kml_input \<Rightarrow> (error + string option) \<times> log_entry list" where
  "getFeatureType kmlFeature =
     (case receiver kmlFeature of
        Inl e \<Rightarrow> (Inl e, [])
      | Inr f \<Rightarrow>
          let featureType = map_option toUpperCase (feature_type_property f)
          in if \<not> array_includes EditableFeatureTypes_values featureType then
               let log1 = [LogError ''Type of feature in kml not recognized, guessing it from geometry''];
                   style = getStyle f
               in case feature_geometry f of
                    None \<Rightarrow> (Inl TypeError, log1)
                  | Some geometry \<Rightarrow>
                      if geom_type geometry = ''Point'' then
                        (if (case style of
                               None \<Rightarrow> False
                             | Some st \<Rightarrow>
                                 (case style_image st of
                                    None \<Rightarrow> False
                                  | Some img \<Rightarrow> image_scale img > 0))
                         then (Inr (Some MARKER), log1)
                         else (Inr (Some ANNOTATION), log1))
                      else if geom_type geometry = ''LineString'' then (Inr (Some LINEPOLYGON), log1)
                      else if geom_type geometry = ''Polygon'' then (Inr (Some LINEPOLYGON), log1)
                      else (Inr (Some MARKER),
                            log1 @ [LogError ''Could not guess the feature type, fallback to marker''])
             else (Inr featureType, []))"

subsection \<open>Text scale and icon style\<close>

text \<open>\<open>textScale\<close> is a number or null, the default of the reader a number or undefined:
  the two are strictly equal only when both are numbers.\<close>

definition getTextScale :: "kml_env \<Rightarrow> Style \<Rightarrow> real option" where
  "getTextScale env style =
     (let textScale = (case style_text style of None \<Rightarrow> None | Some t \<Rightarrow> text_scale t)
      in if textScale \<noteq> None \<and> textScale = defaultTextScale env then Some 1 else textScale)"

text \<open>The argument is the style \<open>getStyle\<close> resolved, an instance of \<open>Style\<close>. An undefined
  source is strictly equal to an undefined default source.\<close>

definition getIconStyle :: "kml_env \<Rightarrow> Style \<Rightarrow> IconStyle option" where
  "getIconStyle env style =
     (case style_image style of
        None \<Rightarrow> None
      | Some (OtherImage sc) \<Rightarrow> None
      | Some (Icon icon) \<Rightarrow>
          if (case icon_src icon of None \<Rightarrow> False | Some src \<Rightarrow> test (Lit ''google'') src)
             \<or> icon_src icon = defaultImageSrc env
          then None
          else Some icon)"

subsection \<open>parseIconUrl\<close>

record IconColorArg =
  channel_r :: nat
  channel_g :: nat
  channel_b :: nat

record IconArgs =
  args_set :: string
  args_name :: string
  args_color :: IconColorArg
  isLegacy :: bool

definition legacyDefaultRegex :: regex where
  "legacyDefaultRegex =
     Cat [Lit ''color/'', Group ''r'' (Plus Digit), Lit '','', Group ''g'' (Plus Digit), Lit '','',
          Group ''b'' (Plus Digit), Lit ''/'', Group ''name'' (Plus NotSlash), Lit ''-'',
          Group ''size'' (Plus Digit), Lit ''@'', Group ''scale'' (Plus Digit), Lit ''x.png'', Eol]"

definition legacySetRegex :: regex where
  "legacySetRegex =
     Cat [Lit ''images/'', Group ''set'' (Plus Word), Lit ''/'', Group ''name'' (Plus NotSlash),
          Lit ''.png'', Eol]"

text \<open>The group around scale and colour has no name and no \<open>?\<close>: it is a plain sequence.\<close>

definition setRegex :: regex where
  "setRegex =
     Cat [Lit ''api/icons/sets/'', Group ''set'' (Plus Word), Lit ''/icons/'',
          Group ''name'' (PlusLazy AnyChar),
          Cat [Lit ''@'', Group ''scale'' (Cat [Plus Digit, Opt (Cat [Lit ''.'', Plus Digit])]),
               Lit ''x-'', Group ''r'' (Plus Digit), Lit '','', Group ''g'' (Plus Digit), Lit '','',
               Group ''b'' (Plus Digit)],
          Lit ''.png'']"

text \<open>The value of a string of decimal digits.\<close>

definition digits_value :: "string \<Rightarrow> nat" where
  "digits_value ds = foldl (\<lambda>n c. 10 * n + ((of_char c :: nat) - 48)) 0 ds"

text \<open>Modelled from the spec: \<open>parseRGBColor\<close> of \<open>@/utils/utils\<close> is not among the
  sources. A colour channel is parsed as an integer in [0, 255]; a value that is out of
  range or not a number is a failure of the channel, not clamped. The argument is the text
  of a group or, where the group is absent, the default the caller gives as a Number.\<close>

datatype channel_value = GroupText string | DefaultNumber nat

definition parseRGBColor :: "channel_value \<Rightarrow> string \<Rightarrow> error + nat" where
  "parseRGBColor v channel =
     (case v of
        DefaultNumber n \<Rightarrow> if n \<le> 255 then Inr n else Inl RangeError
      | GroupText ds \<Rightarrow>
          if ds \<noteq> [] \<and> list_all (in_class Digit) ds \<and> digits_value ds \<le> 255
          then Inr (digits_value ds) else Inl RangeError)"

definition nullish :: "'a option \<Rightarrow> 'a option \<Rightarrow> 'a option" where
  "nullish a b = (case a of Some x \<Rightarrow> Some x | None \<Rightarrow> b)"

definition channel_of :: "string option \<Rightarrow> nat \<Rightarrow> channel_value" where
  "channel_of g dflt = (case g of Some ds \<Rightarrow> GroupText ds | None \<Rightarrow> DefaultNumber dflt)"

text \<open>An undefined URL reaches \<open>exec\<close> as the string \<open>undefined\<close>.\<close>

definition parseIconUrl :: "string option \<Rightarrow> (error + IconArgs option) \<times> log_entry list" where
  "parseIconUrl url =
     (let u = (case url of None \<Rightarrow> ''undefined'' | Some str \<Rightarrow> str);
          legacyDefaultMatch = exec legacyDefaultRegex u;
          legacySetMatch = exec legacySetRegex u;
          setMatch = exec setRegex u;
          match = nullish legacyDefaultMatch (nullish legacySetMatch setMatch)
      in case match of
           None \<Rightarrow> (Inr None, [LogWarn ''Could not retrieve icon infos from URL''])
         | Some groups \<Rightarrow>
             let setName = (case groups ''set'' of Some str \<Rightarrow> str | None \<Rightarrow> ''default'');
                 name = (case groups ''name'' of Some str \<Rightarrow> str | None \<Rightarrow> ''unknown'');
                 isLegacy = (legacyDefaultMatch \<noteq> None \<or> legacySetMatch \<noteq> None)
             in case parseRGBColor (channel_of (groups ''r'') 255) ''R'' of
                  Inl e \<Rightarrow> (Inl e, [])
                | Inr r \<Rightarrow>
                    (case parseRGBColor (channel_of (groups ''g'') 0) ''B'' of
                       Inl e \<Rightarrow> (Inl e, [])
                     | Inr g \<Rightarrow>
                         (case parseRGBColor (channel_of (groups ''b'') 0) ''G'' of
                            Inl e \<Rightarrow> (Inl e, [])
                          | Inr b \<Rightarrow>
                              (Inr (Some \<lparr>args_set = setName, args_name = name,
                                          args_color = \<lparr>channel_r = r, channel_g = g, channel_b = b\<rparr>,
                                          isLegacy = isLegacy\<rparr>), []))))"

subsection \<open>Icons\<close>

text \<open>A string is truthy when it is defined and not empty.\<close>

definition truthy_string :: "string option \<Rightarrow> bool" where
  "truthy_string v = (case v of None \<Rightarrow> False | Some str \<Rightarrow> str \<noteq> [])"

text \<open>
  \<open>anchor[0] /= size[0]; anchor[1] /= size[1]\<close> inside \<open>try\<close>: reading an index of \<open>null\<close>
  throws the TypeError that the \<open>catch\<close> turns into the anchor \<open>[0, 0]\<close> and a logged
  error; a division throws nothing. (\<open>setDisplacement\<close> changes the displacement only,
  which nothing here reads, and the division updates the array of the icon style in
  place: both effects on the icon style are left out.)
\<close>

definition generateIconFromStyle ::
  "IconStyle option \<Rightarrow> IconArgs option \<Rightarrow> DrawingIcon option \<times> log_entry list" where
  "generateIconFromStyle iconStyle iconArgs =
     (case iconStyle of
        None \<Rightarrow> (None, [])
      | Some ist \<Rightarrow>
          (case iconArgs of
             None \<Rightarrow> (None, [])
           | Some args \<Rightarrow>
               let url = icon_src ist;
                   iconSize = icon_size ist;
                   anchor0 = icon_anchor ist;
                   (anchor1, logged) =
                     (case anchor0 of
                        None \<Rightarrow> ((Finite 0, Finite 0), [LogError ''Failed to compute icon anchor''])
                      | Some a \<Rightarrow>
                          (case iconSize of
                             None \<Rightarrow> ((Finite 0, Finite 0), [LogError ''Failed to compute icon anchor''])
                           | Some sz \<Rightarrow>
                               ((js_divide (fst a) (fst sz), js_divide (snd a) (snd sz)), [])))
               in (if truthy_string url
                   then Some \<lparr>drawing_name = args_name args, imageURL = the url,
                              imageTemplateURL = the url, iconSetName = args_set args,
                              anchor = anchor1\<rparr>
                   else None,
                   logged)))"

text \<open>The pattern \<open>(\d+-)?\<close> that \<open>getIcon\<close> puts before the name of a legacy icon; the
  backslash is character 92.\<close>

definition legacy_name_prefix :: string where
  "legacy_name_prefix = ''('' @ [char_of (92 :: nat)] @ ''d+-)?''"

definition getIcon ::
  "kml_env \<Rightarrow> IconArgs option \<Rightarrow> IconStyle option \<Rightarrow> DrawingIconSet list option
     \<Rightarrow> (error + DrawingIcon option) \<times> log_entry list" where
  "getIcon env iconArgs iconStyle availableIconSets =
     (case iconArgs of
        None \<Rightarrow> (Inr None, [])
      | Some args \<Rightarrow>
          (case availableIconSets of
             None \<Rightarrow>
               (let (icon, logged) = generateIconFromStyle iconStyle iconArgs
                in (Inr icon, LogError ''Iconset not yet available fallback to default icon'' # logged))
           | Some sets \<Rightarrow>
               (case find (\<lambda>drawingIconSet. iconset_name drawingIconSet = args_set args) sets of
                  None \<Rightarrow>
                    (let (icon, logged) = generateIconFromStyle iconStyle iconArgs
                     in (Inr icon, LogError ''Iconset not found, fallback to default icon'' # logged))
                | Some iconSet \<Rightarrow>
                    let namePrefix = (if isLegacy args then legacy_name_prefix else [])
                    in case RegExp_test env (''^'' @ namePrefix @ args_name args @ ''$'') of
                         None \<Rightarrow> (Inl SyntaxError, [])
                       | Some nameRegex_test \<Rightarrow>
                           (case find (\<lambda>drawingIcon. nameRegex_test (drawing_name drawingIcon))
                                   (iconset_icons iconSet) of
                              None \<Rightarrow>
                                (let (icon, logged) = generateIconFromStyle iconStyle iconArgs
                                 in (Inr icon,
                                     LogError ''Can not find icon in set, fallback to default icon'' # logged))
                            | Some icon \<Rightarrow> (Inr (Some icon), [])))))"

definition getIconSize :: "kml_env \<Rightarrow> IconStyle \<Rightarrow> FeatureStyleSize" where
  "getIconSize env iconStyle =
     (let iconScale = icon_scale iconStyle
      in if iconScale \<noteq> 0 then
           (case find (\<lambda>preset. size_iconScale preset = iconScale) (allStylingSizes env) of
              Some preset \<Rightarrow> preset
            | None \<Rightarrow> SMALL env)
         else SMALL env)"

subsection \<open>Fill colour and coordinates\<close>

definition getFillColor :: "kml_env \<Rightarrow> Style \<Rightarrow> string \<Rightarrow> IconArgs option \<Rightarrow> FeatureStyleColor" where
  "getFillColor env style geometryType iconArgs =
     (if geometryType = ''Point'' \<and> iconArgs \<noteq> None then
        getFeatureStyleColor env
          (ColorArray [real (channel_r (args_color (the iconArgs))),
                       real (channel_g (args_color (the iconArgs))),
                       real (channel_b (args_color (the iconArgs)))])
      else if geometryType \<in> set [''LineString'', ''Point''] \<and> style_stroke style \<noteq> None then
        getFeatureStyleColor env (the (style_stroke style))
      else if geometryType = ''Polygon'' \<and> style_fill style \<noteq> None then
        getFeatureStyleColor env (the (style_fill style))
      else RED env)"

text \<open>\<open>coordinates[0]\<close>: the first element of an array, undefined when the array is empty
  (and when the value is a number).\<close>

definition first_element :: "coords \<Rightarrow> coords option" where
  "first_element c = (case c of Arr (x # xs) \<Rightarrow> Some x | _ \<Rightarrow> None)"

definition getKmlFeatureCoordinates :: "Feature \<Rightarrow> error + coords option" where
  "getKmlFeatureCoordinates feature =
     (case feature_geometry feature of
        None \<Rightarrow> Inl TypeError
      | Some geometry \<Rightarrow>
          (case geom_coordinates geometry of
             None \<Rightarrow> Inl TypeError
           | Some coordinates \<Rightarrow>
               if geom_type geometry = ''Polygon''
               then Inr (first_element coordinates)
               else Inr (Some coordinates)))"

subsection \<open>getEditableFeatureFromKmlFeature and parseKml\<close>

text \<open>Modelled from the spec: the class \<open>EditableFeature\<close> is not among the sources;
  \<open>EditableFeature.newFeature\<close> builds the record of the fields it is given. A field that
  may be null is an \<open>option\<close>; the fields carry the prefix \<open>ef_\<close>. The geometry kept beside the coordinates is the type and the
  coordinate tree of the geometry, as the GeoJSON writer gives them.\<close>

record EditableFeature =
  ef_id :: "string option"
  ef_featureType :: "string option"
  ef_title :: string
  ef_description :: string
  ef_coordinates :: "coords option"
  ef_geometry :: "string \<times> coords option"
  ef_textColor :: "FeatureStyleColor option"
  ef_textSize :: "FeatureStyleSize option"
  ef_fillColor :: "FeatureStyleColor option"
  ef_icon :: "DrawingIcon option"
  ef_iconSize :: "FeatureStyleSize option"

definition writeGeometryObject :: "Geometry \<Rightarrow> string \<times> coords option" where
  "writeGeometryObject g = (geom_type g, geom_coordinates g)"

definition getEditableFeatureFromKmlFeature ::
  "kml_env \<Rightarrow> kml_input \<Rightarrow> DrawingIconSet list option
     \<Rightarrow> (error + EditableFeature option) \<times> log_entry list" where
  "getEditableFeatureFromKmlFeature env kmlFeature availableIconSets =
     (case getFeatureType kmlFeature of
        (Inl e, log1) \<Rightarrow> (Inl e, log1)
      | (Inr featureType, log1) \<Rightarrow>
          (case kmlFeature of
             OlFeature f \<Rightarrow>
               (case getStyle f of
                  None \<Rightarrow>
                    (Inr None,
                     log1 @ [LogError ''Parsing error: Could not get the style from the ol Feature''])
                | Some style \<Rightarrow>
                    let featureId = feature_id f;
                        title = (case feature_name f of Some str \<Rightarrow> str | None \<Rightarrow> []);
                        textScale = getTextScale env style;
                        textSize = getTextSize env textScale;
                        textColor = getTextColor env style;
                        description = (case feature_description f of Some str \<Rightarrow> str | None \<Rightarrow> []);
                        iconStyle0 = getIconStyle env style
                    in case (case iconStyle0 of
                               Some ist \<Rightarrow> parseIconUrl (icon_src ist)
                             | None \<Rightarrow> (Inr None, [])) of
                         (Inl e, log2) \<Rightarrow> (Inl e, log1 @ log2)
                       | (Inr iconArgs, log2) \<Rightarrow>
                           let iconStyle =
                                 (if iconArgs \<noteq> None \<and> isLegacy (the iconArgs)
                                  then map_option
                                         (\<lambda>ist. ist\<lparr>icon_scale :=
                                                   icon_scale ist * LEGACY_ICON_XML_SCALE_FACTOR\<rparr>)
                                         iconStyle0
                                  else iconStyle0)
                           in case (if iconArgs \<noteq> None
                                    then getIcon env iconArgs iconStyle availableIconSets
                                    else (Inr None, [])) of
                                (Inl e, log3) \<Rightarrow> (Inl e, log1 @ log2 @ log3)
                              | (Inr icon, log3) \<Rightarrow>
                                  let iconSize = map_option (getIconSize env) iconStyle
                                  in case feature_geometry f of
                                       None \<Rightarrow> (Inl TypeError, log1 @ log2 @ log3)
                                     | Some geom \<Rightarrow>
                                         let fillColor = getFillColor env style (geom_type geom) iconArgs;
                                             geometry = writeGeometryObject geom
                                         in case getKmlFeatureCoordinates f of
                                              Inl e \<Rightarrow> (Inl e, log1 @ log2 @ log3)
                                            | Inr coordinates \<Rightarrow>
                                                (Inr (Some
                                                   \<lparr>ef_id = featureId,
                                                    ef_featureType = featureType,
                                                    ef_title = title,
                                                    ef_description = description,
                                                    ef_coordinates = coordinates,
                                                    ef_geometry = geometry,
                                                    ef_textColor = Some textColor,
                                                    ef_textSize = Some textSize,
                                                    ef_fillColor = Some fillColor,
                                                    ef_icon = icon,
                                                    ef_iconSize = iconSize\<rparr>),
                                                 log1 @ log2 @ log3))
           | _ \<Rightarrow>
               (Inr None, log1 @ [LogError ''Cannot generate EditableFeature from KML feature''])))"



subsection \<open>Example icons and features\<close>


text \<open>An icon whose image is loaded (48 by 48 pixels, anchored at the middle of its lower
  edge), one whose image is not loaded yet, and one whose image has no width.\<close>

definition loaded_icon :: IconStyle where
  "loaded_icon =
     \<lparr>icon_src = Some ''https://example.com/pin.png'', icon_scale = 1,
      icon_size = Some (48, 48), icon_anchor = Some (24, 48)\<rparr>"



text \<open>The number of elements of a coordinate array.\<close>

definition array_length :: "coords \<Rightarrow> nat" where
  "array_length c = (case c of Arr xs \<Rightarrow> length xs | Ordinate x \<Rightarrow> 0)"

definition point_coords :: "real \<Rightarrow> real \<Rightarrow> coords" where
  "point_coords x y = Arr [Ordinate x, Ordinate y]"

definition box :: "real \<Rightarrow> real \<Rightarrow> real \<Rightarrow> real \<Rightarrow> extent" where
  "box x0 y0 x1 y1 = \<lparr>minX = Fin x0, minY = Fin y0, maxX = Fin x1, maxY = Fin y1\<rparr>"

text \<open>A square with a square hole, a line and a point.\<close>

definition example_polygon :: Geometry where
  "example_polygon =
     \<lparr>geom_type = ''Polygon'',
      geom_coordinates =
        Some (Arr [Arr [point_coords 0 0, point_coords 4 0, point_coords 4 4, point_coords 0 4,
                        point_coords 0 0],
                   Arr [point_coords 1 1, point_coords 2 1, point_coords 2 2, point_coords 1 1]]),
      geom_extent = box 0 0 4 4\<rparr>"

definition example_line :: Geometry where
  "example_line =
     \<lparr>geom_type = ''LineString'',
      geom_coordinates = Some (Arr [point_coords 0 0, point_coords 3 5]),
      geom_extent = box 0 0 3 5\<rparr>"

definition example_point :: Geometry where
  "example_point =
     \<lparr>geom_type = ''Point'', geom_coordinates = Some (point_coords 7 46),
      geom_extent = box 7 46 7 46\<rparr>"

text \<open>A geometry collection, as the KML reader builds it for a \<open>MultiGeometry\<close> of a
  point and a line: it has a type and an extent, and no coordinates.\<close>

definition example_collection :: Geometry where
  "example_collection =
     \<lparr>geom_type = ''GeometryCollection'', geom_coordinates = None,
      geom_extent = box 0 0 7 46\<rparr>"

definition plain_feature :: "Geometry option \<Rightarrow> Style option \<Rightarrow> Feature" where
  "plain_feature g st =
     \<lparr>feature_id = Some ''f1'', feature_type_property = None, feature_name = None,
      feature_description = None, feature_geometry = g, feature_style = st\<rparr>"

subsection \<open>Example documents\<close>

text \<open>The extents of the features that carry a geometry.\<close>

definition feature_extents :: "Feature list \<Rightarrow> extent list" where
  "feature_extents features = List.map_filter (\<lambda>f. map_option geom_extent (feature_geometry f)) features"

definition empty_kml_gpx :: string where
  "empty_kml_gpx = ''<kml></kml><gpx></gpx>''"

definition point_kml :: string where
  "point_kml =
     ''<kml><Placemark><Point><coordinates>7,46</coordinates></Point></Placemark></kml>''"

definition point_kml_gpx :: string where
  "point_kml_gpx = point_kml @ ''<gpx></gpx>''"

definition note_and_point_kml :: string where
  "note_and_point_kml =
     ''<kml><Placemark><name>note</name></Placemark><Placemark><Point><coordinates>7,46</coordinates></Point></Placemark></kml>''"

text \<open>A reader that knows the example documents: the placemark with a point gives a feature
  with a point geometry, the placemark with a name only a feature without geometry. Every
  extent lies within the bounds of the projection.\<close>

definition example_import_env :: import_env where
  "example_import_env =
     \<lparr>kml_readFeatures =
        (\<lambda>content.
           if content = point_kml \<or> content = point_kml_gpx
           then [plain_feature (Some example_point) None]
           else if content = note_and_point_kml
           then [plain_feature None None, plain_feature (Some example_point) None]
           else []),
      getExtentForProjection = (\<lambda>extent. Some extent),
      gpx_readMetadata = (\<lambda>content. ''track''),
      gpx_bbox = (\<lambda>content. emptyExtent)\<rparr>"

definition empty_kml :: string where
  "empty_kml = ''<kml></kml>''"

definition gpx_only :: string where
  "gpx_only = ''<gpx></gpx>''"

subsection \<open>Icon URLs as the three grammars generate them\<close>

text \<open>A word of a class: one character of the class or more, what the class under \<open>+\<close>
  matches.\<close>

definition class_word :: "char_class \<Rightarrow> string \<Rightarrow> bool" where
  "class_word k w = (w \<noteq> [] \<and> list_all (in_class k) w)"

text \<open>A colour channel of a URL: decimal digits with a value of at most 255.\<close>

definition channel_word :: "string \<Rightarrow> bool" where
  "channel_word ds = (class_word Digit ds \<and> digits_value ds \<le> 255)"

text \<open>A scale of the current grammar: digits, or digits, a dot and digits.\<close>

definition decimal_word :: "string \<Rightarrow> bool" where
  "decimal_word w =
     (let whole = takeWhile (\<lambda>c. c \<noteq> CHR ''.'') w;
          rest = dropWhile (\<lambda>c. c \<noteq> CHR ''.'') w
      in class_word Digit whole \<and> (rest = [] \<or> class_word Digit (tl rest)))"

text \<open>An icon name of the current grammar: one character or more, none of them a line
  break, a slash or an at sign.\<close>

definition current_name :: "string \<Rightarrow> bool" where
  "current_name name =
     (name \<noteq> [] \<and> list_all (\<lambda>c. in_class AnyChar c \<and> c \<noteq> CHR ''/'' \<and> c \<noteq> CHR ''@'') name)"

definition ends_with :: "string \<Rightarrow> string \<Rightarrow> bool" where
  "ends_with w s = (drop (length s - length w) s = w)"

text \<open>\<open>lit\<close> occurs in \<open>pre @ lit\<close> at the end only: no occurrence starts inside \<open>pre\<close>.\<close>

definition occurs_at :: "string \<Rightarrow> string \<Rightarrow> nat \<Rightarrow> bool" where
  "occurs_at lit s k = (take (length lit) (drop k s) = lit)"

definition first_at_end :: "string \<Rightarrow> string \<Rightarrow> bool" where
  "first_at_end pre lit = list_all (\<lambda>k. \<not> occurs_at lit (pre @ lit) k) [0..<length pre]"

definition legacyColoredUrl ::
  "string \<Rightarrow> string \<Rightarrow> string \<Rightarrow> string \<Rightarrow> string \<Rightarrow> string \<Rightarrow> string \<Rightarrow> string" where
  "legacyColoredUrl pre r g b name sz scale =
     pre @ ''color/'' @ r @ '','' @ g @ '','' @ b @ ''/'' @ name @ ''-'' @ sz @ ''@'' @ scale @ ''x.png''"

definition legacySetUrl :: "string \<Rightarrow> string \<Rightarrow> string \<Rightarrow> string" where
  "legacySetUrl pre st name = pre @ ''images/'' @ st @ ''/'' @ name @ ''.png''"

definition currentUrl ::
  "string \<Rightarrow> string \<Rightarrow> string \<Rightarrow> string \<Rightarrow> string \<Rightarrow> string \<Rightarrow> string \<Rightarrow> string" where
  "currentUrl pre st name scale r g b =
     pre @ ''api/icons/sets/'' @ st @ ''/icons/'' @ name @ ''@'' @ scale @ ''x-'' @ r @ '',''
       @ g @ '','' @ b @ ''.png''"

subsection \<open>An example environment and example features\<close>

definition small_size :: FeatureStyleSize where
  "small_size = \<lparr>size_label = ''small_size'', size_textScale = 1, size_iconScale = 0.5\<rparr>"

definition medium_size :: FeatureStyleSize where
  "medium_size = \<lparr>size_label = ''medium_size'', size_textScale = 1.5, size_iconScale = 0.75\<rparr>"

definition red_color :: FeatureStyleColor where
  "red_color = \<lparr>color_name = ''red'', color_fill = ''#ff0000''\<rparr>"

definition blue_color :: FeatureStyleColor where
  "blue_color = \<lparr>color_name = ''blue'', color_fill = ''#0000ff''\<rparr>"

text \<open>The defaults of the KML reader (text scale 0.8, the yellow pushpin), two size
  presets, a colour resolver that knows blue and takes every other colour for red, and a
  pattern engine that compiles every pattern and tests for the name between \<open>^\<close> and
  \<open>$\<close>.\<close>

definition example_kml_env :: kml_env where
  "example_kml_env =
     \<lparr>defaultTextScale = Some 0.8,
      defaultImageSrc = Some ''https://maps.google.com/mapfiles/kml/pushpin/ylw-pushpin.png'',
      allStylingSizes = [small_size, medium_size],
      SMALL = small_size,
      RED = red_color,
      getFeatureStyleColor =
        (\<lambda>c. if c = ColorString ''#0000ff'' \<or> c = ColorArray [0, 0, 255] then blue_color
             else red_color),
      getTextColor = (\<lambda>style. red_color),
      getTextSize = (\<lambda>textScale. medium_size),
      RegExp_test = (\<lambda>pattern. Some (\<lambda>str. pattern = ''^'' @ str @ ''$''))\<rparr>"

text \<open>A style with a custom icon that is not one of the icon service, a style without
  image, a placemark with a point and the custom icon, and a placemark with a description
  only (typed as an annotation), which has a style and no geometry.\<close>

definition custom_icon_style :: Style where
  "custom_icon_style =
     \<lparr>style_text = None, style_image = Some (Icon loaded_icon), style_stroke = None,
      style_fill = None\<rparr>"

definition plain_style :: Style where
  "plain_style =
     \<lparr>style_text = None, style_image = None, style_stroke = Some (ColorString ''#0000ff''),
      style_fill = None\<rparr>"

definition custom_pin_feature :: Feature where
  "custom_pin_feature = plain_feature (Some example_point) (Some custom_icon_style)"


definition line_feature :: Feature where
  "line_feature = plain_feature (Some example_line) (Some plain_style)"

text \<open>What the two example features with geometry are expected to give.\<close>

definition expected_line :: EditableFeature where
  "expected_line =
     \<lparr>ef_id = Some ''f1'', ef_featureType = Some ''LINEPOLYGON'', ef_title = [],
      ef_description = [],
      ef_coordinates = Some (Arr [point_coords 0 0, point_coords 3 5]),
      ef_geometry = (''LineString'', Some (Arr [point_coords 0 0, point_coords 3 5])),
      ef_textColor = Some red_color, ef_textSize = Some medium_size,
      ef_fillColor = Some blue_color, ef_icon = None, ef_iconSize = None\<rparr>"

definition expected_custom_pin :: EditableFeature where
  "expected_custom_pin =
     \<lparr>ef_id = Some ''f1'', ef_featureType = Some ''MARKER'', ef_title = [],
      ef_description = [],
      ef_coordinates = Some (point_coords 7 46),
      ef_geometry = (''Point'', Some (point_coords 7 46)),
      ef_textColor = Some red_color, ef_textSize = Some medium_size,
      ef_fillColor = Some red_color, ef_icon = None, ef_iconSize = Some small_size\<rparr>"






section \<open>Properties of the elevation profile\<close>

subsection \<open>Powers of two\<close>

lemma pow2_powr: "pow2 e = 2 powr (of_int e)"
proof (cases "0 \<le> e")
  case True
  then have "(of_int e :: real) = of_nat (nat e)" by simp
  then have "2 powr (of_int e :: real) = 2 ^ nat e"
    by (simp only: powr_realpow [of 2 "nat e", symmetric] zero_less_numeral)
  with True show ?thesis by (simp add: pow2_def)
next
  case False
  then have "(of_int e :: real) = - of_nat (nat (- e))" by simp
  then have "2 powr (of_int e :: real) = inverse (2 ^ nat (- e))"
    by (simp only: powr_minus powr_realpow [of 2 "nat (- e)", symmetric] zero_less_numeral)
  with False show ?thesis by (simp add: pow2_def inverse_eq_divide)
qed

lemma pow2_pos [simp]: "0 < pow2 e"
  by (simp add: pow2_powr)

lemma pow2_nonneg [simp]: "0 \<le> pow2 e"
  by (simp add: pow2_powr)

lemma pow2_neq_0 [simp]: "pow2 e \<noteq> 0"
  by (simp add: pow2_powr)

lemma pow2_add: "pow2 (a + b) = pow2 a * pow2 b"
  by (simp add: pow2_powr powr_add)

lemma pow2_diff: "pow2 (a - b) = pow2 a / pow2 b"
  by (simp add: pow2_powr powr_diff)

lemma pow2_0 [simp]: "pow2 0 = 1"
  by (simp add: pow2_def)

lemma pow2_1 [simp]: "pow2 1 = 2"
  by (simp add: pow2_def)

lemma pow2_2 [simp]: "pow2 2 = 4"
  by (simp add: pow2_def)

lemma pow2_Suc: "pow2 (e + 1) = 2 * pow2 e"
  by (simp add: pow2_add)

lemma pow2_pred: "pow2 (e - 1) = pow2 e / 2"
  by (simp add: pow2_diff)

lemma pow2_mono: "a \<le> b \<Longrightarrow> pow2 a \<le> pow2 b"
  by (simp add: pow2_powr)

lemma pow2_less_iff [simp]: "pow2 a < pow2 b \<longleftrightarrow> a < b"
  by (simp add: pow2_powr)

lemma pow2_le_iff [simp]: "pow2 a \<le> pow2 b \<longleftrightarrow> a \<le> b"
  by (simp add: pow2_powr)

lemma pow2_nat: "0 \<le> e \<Longrightarrow> pow2 e = of_int (2 ^ nat e)"
  by (simp add: pow2_def)

lemma pow2_ge_1_iff [simp]: "1 \<le> pow2 e \<longleftrightarrow> 0 \<le> e"
  using pow2_le_iff [of 0 e] by simp

lemma pow2_gt_1_iff [simp]: "1 < pow2 e \<longleftrightarrow> 0 < e"
  using pow2_less_iff [of 0 e] by simp

subsection \<open>The binary exponent\<close>

lemma exponent_up_less: "1 \<le> x \<Longrightarrow> x < pow2 k \<Longrightarrow> exponent_up n x < k"
proof (induction n arbitrary: x k)
  case 0
  have "1 < pow2 k" by (rule le_less_trans [OF 0])
  then show ?case by simp
next
  case (Suc n)
  show ?case
  proof (cases "x < 2")
    case True
    have "1 < pow2 k" by (rule le_less_trans [OF Suc.prems])
    with True show ?thesis by simp
  next
    case False
    then have "1 \<le> x / 2" by simp
    moreover have "x / 2 < pow2 (k - 1)" using Suc.prems(2) by (simp add: pow2_pred)
    ultimately have "exponent_up n (x / 2) < k - 1" by (rule Suc.IH)
    with False show ?thesis by simp
  qed
qed

lemma exponent_up_le: "1 \<le> x \<Longrightarrow> pow2 (exponent_up n x) \<le> x"
proof (induction n arbitrary: x)
  case 0
  then show ?case by simp
next
  case (Suc n)
  show ?case
  proof (cases "x < 2")
    case True
    with Suc.prems show ?thesis by simp
  next
    case False
    then have "pow2 (exponent_up n (x / 2)) \<le> x / 2" by (intro Suc.IH) simp
    with False show ?thesis by (simp add: pow2_add)
  qed
qed

lemma exponent_up_bound: "0 \<le> exponent_up n x \<and> exponent_up n x \<le> int n"
proof (induction n arbitrary: x)
  case 0
  show ?case by simp
next
  case (Suc n)
  from Suc [of "x / 2"] show ?case by simp
qed

lemma exponent_up_greater:
  "exponent_up n x < int n \<Longrightarrow> x < pow2 (exponent_up n x + 1)"
proof (induction n arbitrary: x)
  case 0
  then show ?case by simp
next
  case (Suc n)
  show ?case
  proof (cases "x < 2")
    case True
    then show ?thesis by simp
  next
    case False
    with Suc.prems have "exponent_up n (x / 2) < int n" by simp
    then have "x / 2 < pow2 (exponent_up n (x / 2) + 1)" by (rule Suc.IH)
    with False show ?thesis by (simp add: pow2_add)
  qed
qed

lemma exponent_down_nonpos: "exponent_down n x \<le> 0"
proof (induction n arbitrary: x)
  case 0
  show ?case by simp
next
  case (Suc n)
  from Suc [of "2 * x"] show ?case by simp
qed

lemma exponent_down_less:
  "x < 1 \<Longrightarrow> x < pow2 k \<Longrightarrow> - int n < k \<Longrightarrow> exponent_down n x < k"
proof (induction n arbitrary: x k)
  case 0
  then show ?case by simp
next
  case (Suc n)
  show ?case
  proof (cases "2 * x < 1")
    case True
    moreover have "2 * x < pow2 (k + 1)" using Suc.prems(2) by (simp add: pow2_add)
    moreover have "- int n < k + 1" using Suc.prems(3) by simp
    ultimately have "exponent_down n (2 * x) < k + 1" by (rule Suc.IH)
    with Suc.prems(1) show ?thesis by simp
  next
    case False
    then have "pow2 (- 1) \<le> x" by (simp add: pow2_def)
    then have "pow2 (- 1) < pow2 k" using Suc.prems(2) by (rule le_less_trans)
    then have k: "- 1 < k" by simp
    have "exponent_down n (2 * x) \<le> 0" by (rule exponent_down_nonpos)
    with Suc.prems(1) k show ?thesis by simp
  qed
qed

lemma exponent_down_greater: "x < 1 \<Longrightarrow> x < pow2 (exponent_down n x + 1)"
proof (induction n arbitrary: x)
  case 0
  then show ?case by simp
next
  case (Suc n)
  show ?case
  proof (cases "2 * x < 1")
    case True
    then have "2 * x < pow2 (exponent_down n (2 * x) + 1)" by (rule Suc.IH)
    with Suc.prems show ?thesis by (simp add: pow2_add)
  next
    case False
    then have "exponent_down n (2 * x) = 0" by (cases n) simp_all
    with Suc.prems show ?thesis by simp
  qed
qed

text \<open>What the rounding needs of the exponent.\<close>

lemma exponent_less: "\<bar>x\<bar> < pow2 k \<Longrightarrow> - 1022 < k \<Longrightarrow> exponent x < k"
  by (simp add: exponent_def exponent_up_less exponent_down_less)

lemma exponent_greater: "exponent x < 1024 \<Longrightarrow> \<bar>x\<bar> < pow2 (exponent x + 1)"
  using exponent_up_greater [of 1024 "\<bar>x\<bar>"] exponent_down_greater [of "\<bar>x\<bar>" 1022]
  by (simp add: exponent_def split: if_splits)

lemma exponent_top: "exponent x \<le> 1024"
  using exponent_up_bound [of 1024 "\<bar>x\<bar>"] exponent_down_nonpos [of 1022 "\<bar>x\<bar>"]
  by (simp add: exponent_def)

lemma exponent_overflow: "1024 \<le> exponent x \<Longrightarrow> pow2 1024 \<le> \<bar>x\<bar>"
proof -
  assume a: "1024 \<le> exponent x"
  have "exponent_down 1022 \<bar>x\<bar> \<le> 0" by (rule exponent_down_nonpos)
  with a have big: "1 \<le> \<bar>x\<bar>" and e: "1024 \<le> exponent_up 1024 \<bar>x\<bar>"
    by (auto simp: exponent_def split: if_splits)
  have "pow2 1024 \<le> pow2 (exponent_up 1024 \<bar>x\<bar>)" using e by simp
  also have "\<dots> \<le> \<bar>x\<bar>" by (rule exponent_up_le [OF big])
  finally show ?thesis .
qed

lemma quantum_lower: "- 1074 \<le> quantum x"
  by (simp add: quantum_def)

subsection \<open>Rounding to an integer\<close>

lemma round_half_even_of_int [simp]: "round_half_even (of_int n) = n"
  by (simp add: round_half_even_def)

lemma round_half_even_le: "x \<le> of_int b \<Longrightarrow> round_half_even x \<le> b"
proof -
  assume a: "x \<le> of_int b"
  then have f: "\<lfloor>x\<rfloor> \<le> b" by (simp add: floor_le_iff) 
  show ?thesis
  proof (cases "\<lfloor>x\<rfloor> = b")
    case True
    then have "of_int b \<le> x" by (metis of_int_floor_le)
    with a have "x = of_int b" by simp
    then show ?thesis by simp
  next
    case False
    with f have "\<lfloor>x\<rfloor> + 1 \<le> b" by simp
    then show ?thesis by (simp add: round_half_even_def Let_def)
  qed
qed

lemma round_half_even_ge: "of_int a \<le> x \<Longrightarrow> a \<le> round_half_even x"
proof -
  assume "of_int a \<le> x"
  then have "a \<le> \<lfloor>x\<rfloor>" by (simp add: le_floor_iff)
  then show ?thesis by (simp add: round_half_even_def Let_def)
qed

lemma round_half_even_abs: "\<bar>x\<bar> \<le> of_int b \<Longrightarrow> \<bar>round_half_even x\<bar> \<le> b"
proof -
  assume a: "\<bar>x\<bar> \<le> of_int b"
  then have "x \<le> of_int b" "of_int (- b) \<le> x" by simp_all
  then have "round_half_even x \<le> b" "- b \<le> round_half_even x"
    by (simp_all add: round_half_even_le round_half_even_ge)
  then show ?thesis by simp
qed

subsection \<open>The doubles are fixed points of the rounding\<close>

lemma pow2_53: "pow2 53 = 2 ^ 53"
  by (simp add: pow2_def)

lemma to_double_Double_iff:
  "to_double x = Double y \<longleftrightarrow>
     y = of_int (round_half_even (x / pow2 (quantum x))) * pow2 (quantum x) \<and> exponent y < 1024"
  by (auto simp: to_double_def Let_def)

lemma to_double_exact:
  assumes y: "y / pow2 (quantum y) = of_int n" and e: "exponent y < 1024"
  shows "to_double y = Double y"
proof -
  have "of_int n * pow2 (quantum y) = y"
    using y by (simp add: field_simps)
  then show ?thesis
    unfolding to_double_Double_iff y using e by simp
qed

lemma representable_strict:
  assumes m: "\<bar>m\<bar> < 2 ^ 53" and q: "- 1074 \<le> q"
      and e: "exponent (of_int m * pow2 q) < 1024"
  shows "to_double (of_int m * pow2 q) = Double (of_int m * pow2 q)"
proof -
  define y where "y = of_int m * pow2 q"
  have "\<bar>of_int m :: real\<bar> < 2 ^ 53"
    using m by (metis of_int_abs of_int_less_numeral_power_cancel_iff)
  then have "\<bar>y\<bar> < pow2 53 * pow2 q"
    unfolding y_def abs_mult pow2_53 by (simp add: mult_strict_right_mono)
  then have "\<bar>y\<bar> < pow2 (53 + q)" by (simp add: pow2_add)
  then have "exponent y < 53 + q" using q by (intro exponent_less) simp_all
  then have ql: "quantum y \<le> q" using q by (simp add: quantum_def)
  define d where "d = q - quantum y"
  have d: "0 \<le> d" using ql by (simp add: d_def)
  have "pow2 q = pow2 d * pow2 (quantum y)"
    unfolding d_def by (simp add: pow2_add [symmetric])
  then have "of_int m * pow2 q / pow2 (quantum y) = of_int m * pow2 d"
    by simp
  then have "y / pow2 (quantum y) = of_int m * pow2 d"
    by (simp only: y_def)
  also have "\<dots> = of_int (m * 2 ^ nat d)"
    by (simp add: pow2_nat [OF d])
  finally have "to_double y = Double y"
    using e unfolding y_def [symmetric] by (rule to_double_exact)
  then show ?thesis by (simp only: y_def)
qed

lemma representable:
  assumes y: "y = of_int m * pow2 q" and m: "\<bar>m\<bar> \<le> 2 ^ 53" and q: "- 1074 \<le> q"
      and e: "exponent y < 1024"
  shows "to_double y = Double y"
proof (cases "\<bar>m\<bar> < 2 ^ 53")
  case True
  then show ?thesis using q e unfolding y by (rule representable_strict)
next
  case False
  with m have "\<bar>m\<bar> = 2 ^ 53" by simp
  then have "m = 2 ^ 53 \<or> m = - (2 ^ 53)" by arith
  then have m2: "m = 2 * (m div 2)" "\<bar>m div 2\<bar> < 2 ^ 53"
    by auto
  have "of_int m * pow2 q = of_int (2 * (m div 2)) * pow2 q"
    using m2(1) by simp
  also have "\<dots> = of_int (m div 2) * pow2 (q + 1)"
    by (simp add: pow2_Suc)
  finally have y': "y = of_int (m div 2) * pow2 (q + 1)" by (simp only: y)
  have "- 1074 \<le> q + 1" using q by simp
  with m2(2) show ?thesis using e unfolding y' by (rule representable_strict)
qed

lemma exponent_small: "\<bar>y\<bar> < pow2 1024 \<Longrightarrow> exponent y < 1024"
  by (rule exponent_less) simp_all

lemma to_double_of_int:
  assumes "\<bar>k\<bar> \<le> 2 ^ 53"
  shows "to_double (of_int k) = Double (of_int k)"
proof (rule representable [where m = k and q = 0])
  show "(of_int k :: real) = of_int k * pow2 0" by simp
  show "\<bar>k\<bar> \<le> 2 ^ 53" by (rule assms)
  show "- 1074 \<le> (0 :: int)" by simp
  have "\<bar>of_int k :: real\<bar> \<le> pow2 53"
    unfolding pow2_53 using assms by (metis of_int_abs of_int_le_numeral_power_cancel_iff)
  also have "\<dots> < pow2 1024" by simp
  finally show "exponent (of_int k :: real) < 1024" by (rule exponent_small)
qed

lemma to_double_0 [simp]: "to_double 0 = Double 0"
  using to_double_of_int [of 0] by simp

lemma to_double_idem:
  assumes "to_double x = Double y"
  shows "to_double y = Double y"
proof -
  define q where "q = quantum x"
  define m where "m = round_half_even (x / pow2 q)"
  note assms [unfolded to_double_Double_iff]
  then have y: "y = of_int m * pow2 q" and e: "exponent y < 1024"
    unfolding q_def m_def by blast+
  have q: "- 1074 \<le> q" by (simp add: q_def quantum_lower)
  have small: "exponent x < 1024"
  proof (rule ccontr)
    assume "\<not> exponent x < 1024"
    then have ex: "exponent x = 1024" using exponent_top [of x] by simp
    then have big: "pow2 1024 \<le> \<bar>x\<bar>" by (intro exponent_overflow) simp
    have q972: "q = 972" by (simp add: q_def quantum_def ex)
    have "pow2 1024 = pow2 52 * pow2 q" by (simp add: q972 pow2_add [symmetric])
    with big have "pow2 52 \<le> \<bar>x\<bar> / pow2 q" by (simp add: pos_le_divide_eq)
    then have "of_int (2 ^ 52) \<le> \<bar>x / pow2 q\<bar>" by (simp add: pow2_def)
    then have "of_int (2 ^ 52) \<le> x / pow2 q \<or> x / pow2 q \<le> of_int (- (2 ^ 52))"
      by (simp add: abs_if split: if_splits)
    then have "2 ^ 52 \<le> m \<or> m \<le> - (2 ^ 52)"
      unfolding m_def using round_half_even_ge round_half_even_le by blast
    then have "(2 :: int) ^ 52 \<le> \<bar>m\<bar>" by auto
    then have "pow2 52 \<le> \<bar>of_int m :: real\<bar>"
      by (simp add: pow2_def)
    then have "pow2 52 * pow2 q \<le> \<bar>y\<bar>"
      unfolding y abs_mult by (simp add: mult_right_mono)
    then have "pow2 1024 \<le> \<bar>y\<bar>" by (simp add: q972 pow2_add [symmetric])
    moreover have "\<bar>y\<bar> < pow2 (exponent y + 1)" using e by (rule exponent_greater)
    moreover have "pow2 (exponent y + 1) \<le> pow2 1024" using e by simp
    ultimately show False by simp
  qed
  then have "\<bar>x\<bar> < pow2 (exponent x + 1)" by (rule exponent_greater)
  also have "pow2 (exponent x + 1) \<le> pow2 (53 + q)" by (simp add: q_def quantum_def)
  finally have "\<bar>x\<bar> < pow2 53 * pow2 q" by (simp add: pow2_add)
  then have "\<bar>x / pow2 q\<bar> < pow2 53" by (simp add: pos_divide_less_eq)
  then have "\<bar>x / pow2 q\<bar> \<le> of_int (2 ^ 53)" by (simp add: pow2_53)
  then have "\<bar>m\<bar> \<le> 2 ^ 53" unfolding m_def by (rule round_half_even_abs)
  with y show ?thesis using q e by (rule representable)
qed

subsection \<open>The operations give doubles\<close>

lemma to_double_numeral:
  "(numeral n :: int) \<le> 2 ^ 53 \<Longrightarrow> to_double (numeral n) = Double (numeral n)"
  using to_double_of_int [of "numeral n"] by simp

lemma is_double_to_double [simp]: "is_double (to_double x)"
  by (cases "to_double x") (auto simp: is_double_def dest: to_double_idem)

lemma is_double_consts [simp]:
  "is_double (Double 0)" "is_double PlusInfinity" "is_double MinusInfinity" "is_double NotANumber"
  by (simp_all add: is_double_def)

lemma is_double_add [simp]: "is_double (double_add a b)"
  by (cases a; cases b) simp_all

lemma is_double_div [simp]: "is_double (double_div a b)"
  by (cases a; cases b) simp_all

lemma double_add_0_right: "is_double a \<Longrightarrow> double_add a (Double 0) = a"
  by (cases a) (simp_all add: is_double_def)

lemma double_add_0_left: "is_double a \<Longrightarrow> double_add (Double 0) a = a"
  by (cases a) (simp_all add: is_double_def)

lemma double_mul_commute: "double_mul a b = double_mul b a"
  by (cases a; cases b) (simp_all add: mult.commute)

lemma is_double_foldl_add: "is_double a \<Longrightarrow> is_double (foldl double_add a xs)"
  by (induction xs arbitrary: a) simp_all

subsection \<open>Hiking time\<close>

lemma foldl_zip_nth:
  "foldl (\<lambda>acc (c, i). f acc c i) a (zip cs [0..<length cs])
     = foldl (\<lambda>acc i. f acc (cs ! i) i) a [0..<length cs]"
proof -
  have "zip cs [0..<length cs] = map (\<lambda>i. (cs ! i, i)) [0..<length cs]"
    by (rule nth_equalityI) simp_all
  then show ?thesis by (simp add: foldl_map)
qed

lemma length_arrConstants: "length arrConstants = 16"
  by (simp add: arrConstants_def arrConstants_decimal_def)

lemma minutesPerKilometer_sum:
  "minutesPerKilometer Math_pow slope =
     (if double_less (Double (- 4)) slope \<and> double_less slope (Double 4)
      then foldl (\<lambda>s i. double_add s (double_mul (arrConstants ! i) (Math_pow slope i)))
             (Double 0) [0..<16]
      else if double_less (Double 0) slope then double_mul (Double 17) slope
      else double_mul (Double (- 9)) slope)"
  using foldl_zip_nth [of "\<lambda>acc c i. double_add acc (double_mul c (Math_pow slope i))"
      "Double 0" arrConstants]
  by (simp add: minutesPerKilometer_def length_arrConstants)

lemma callback_segment:
  assumes "i + 2 < length points"
  shows "hikingTime_callback Math_pow (points ! i) i points
       = segment_minutes_spec Math_pow (points ! i) (points ! Suc i)"
proof -
  from assms have "int i < int (length points) - 2" by simp
  then show ?thesis
    unfolding hikingTime_callback_def segment_minutes_spec_def Let_def minutesPerKilometer_sum
      falsy_def double_mul_commute [of _ "Double 10"]
    by (simp only: if_True Suc_eq_plus1)
qed

lemma callback_tail:
  "length points \<le> i + 2 \<Longrightarrow> hikingTime_callback Math_pow p i points = Double 0"
  by (simp add: hikingTime_callback_def)

lemma is_double_segment [simp]: "is_double (segment_minutes_spec Math_pow current nxt)"
  by (simp add: segment_minutes_spec_def Let_def)

lemma butlast_pairs:
  "2 \<le> length points \<Longrightarrow>
   map (\<lambda>(c, n). f c n) (butlast (consecutive_pairs points))
     = map (\<lambda>i. f (points ! i) (points ! Suc i)) [0..<length points - 2]"
  by (rule nth_equalityI)
     (auto simp: consecutive_pairs_def nth_butlast nth_tl)

lemma map_indexed_hiking:
  assumes "2 \<le> length points"
  shows "map_indexed (hikingTime_callback Math_pow) points
       = map (\<lambda>(c, n). segment_minutes_spec Math_pow c n) (butlast (consecutive_pairs points))
           @ [Double 0, Double 0]"
proof -
  obtain m where m: "length points = m + 2"
    using assms by (metis add.commute le_Suc_ex)
  have upt: "[0..<length points] = [0..<m] @ [m, Suc m]"
    by (simp add: m)
  have "map (\<lambda>i. hikingTime_callback Math_pow (points ! i) i points) [0..<m]
      = map (\<lambda>i. segment_minutes_spec Math_pow (points ! i) (points ! Suc i)) [0..<m]"
    by (rule map_cong) (auto simp: m intro!: callback_segment)
  then show ?thesis
    unfolding map_indexed_def upt
    by (simp add: butlast_pairs [OF assms] m callback_tail)
qed

lemma reduce_trailing_zeros:
  assumes "\<forall>s\<in>set segments. is_double s"
  shows "reduce_noinit double_add (segments @ [Double 0, Double 0])
       = Inr (foldl double_add (Double 0) segments)"
proof (cases segments)
  case Nil
  then show ?thesis by (simp add: reduce_noinit_def)
next
  case (Cons s rest)
  with assms have s: "is_double s" by simp
  then have "is_double (foldl double_add s rest)" by (rule is_double_foldl_add)
  then show ?thesis
    using s by (simp add: Cons reduce_noinit_def double_add_0_right double_add_0_left)
qed

text \<open>
  Claim C1, amended. For every profile of at least two points, and whatever \<open>Math.pow\<close>
  returns, \<open>hikingTime\<close> is \<open>Math.round\<close> of the sum, over the consecutive pairs of points
  except the final pair, of the segment contributions, all of it computed in doubles:
  every operation gives the nearest double, the terms of the polynomial are added from
  the constant term on, and the segments from the first on. A segment contributes 0 where
  the distance delta is 0 or NaN, and otherwise the distance delta times the minutes per
  kilometre (the 16-term polynomial in the slope \<open>10 * elevationDelta / distanceDelta\<close> for
  a slope strictly between -4 and 4, 17 times a positive slope outside, and -9 times the
  slope in every other case) over 1000. For a profile of fewer than two points
  \<open>hikingTime\<close> is 0.
\<close>

theorem hikingTime_refines:
  "(2 \<le> length points \<longrightarrow> hikingTime Math_pow points = Inr (hikingTime_spec Math_pow points))
 \<and> (length points < 2 \<longrightarrow> hikingTime Math_pow points = Inr (Double 0))"
proof (intro conjI impI)
  assume two: "2 \<le> length points"
  have "reduce_noinit double_add (map_indexed (hikingTime_callback Math_pow) points)
      = Inr (foldl double_add (Double 0)
               (map (\<lambda>(c, n). segment_minutes_spec Math_pow c n)
                  (butlast (consecutive_pairs points))))"
    unfolding map_indexed_hiking [OF two]
    by (rule reduce_trailing_zeros) auto
  then show "hikingTime Math_pow points = Inr (hikingTime_spec Math_pow points)"
    using two by (simp add: hikingTime_def hasData_def hikingTime_spec_def)
next
  assume "length points < 2"
  then show "hikingTime Math_pow points = Inr (Double 0)"
    by (simp add: hikingTime_def hasData_def)
qed

subsection \<open>Ascent and descent\<close>

lemma double_add_int:
  "\<bar>a + b\<bar> \<le> 2 ^ 53 \<Longrightarrow>
   double_add (Double (of_int a)) (Double (of_int b)) = Double (of_int (a + b))"
  using to_double_of_int [of "a + b"] by simp

lemma double_sub_int:
  "\<bar>a - b\<bar> \<le> 2 ^ 53 \<Longrightarrow>
   double_sub (Double (of_int a)) (Double (of_int b)) = Double (of_int (a - b))"
  using to_double_of_int [of "a - b"] by (simp add: double_sub_def)

lemma Math_max_int: "Math_max (Double (of_int a)) (Double 0) = Double (of_int (max a 0))"
  by (simp add: Math_max_def max_def)

lemma Math_min_int: "Math_min (Double (of_int a)) (Double 0) = Double (of_int (min a 0))"
  by (simp add: Math_min_def min_def)

lemma whole_metresD:
  "whole_metres M p \<Longrightarrow> elevation p = Double (of_int (metres p)) \<and> \<bar>metres p\<bar> \<le> M"
  by (cases "elevation p") (simp_all add: whole_metres_def metres_def)

text \<open>A sum of integers accumulated in doubles is exact as long as it stays below
  \<open>2 ^ 53\<close>.\<close>

lemma foldl_whole:
  fixes g :: "nat \<Rightarrow> int"
  assumes step: "\<And>a i. i < n \<Longrightarrow> 0 \<le> a \<Longrightarrow> a \<le> int i * B
                   \<Longrightarrow> cb (Double (of_int a)) i = Double (of_int (a + g i))"
      and g: "\<And>i. i < n \<Longrightarrow> 0 \<le> g i \<and> g i \<le> B"
      and j: "j \<le> n"
  shows "foldl cb (Double 0) [0..<j] = Double (of_int (\<Sum>i<j. g i))
       \<and> 0 \<le> (\<Sum>i<j. g i) \<and> (\<Sum>i<j. g i) \<le> int j * B"
  using j
proof (induction j)
  case 0
  show ?case by simp
next
  case (Suc j)
  then have IH: "foldl cb (Double 0) [0..<j] = Double (of_int (\<Sum>i<j. g i))"
      "0 \<le> (\<Sum>i<j. g i)" "(\<Sum>i<j. g i) \<le> int j * B" and jn: "j < n"
    by simp_all
  have "foldl cb (Double 0) [0..<Suc j] = cb (Double (of_int (\<Sum>i<j. g i))) j"
    by (simp add: IH(1))
  also have "\<dots> = Double (of_int ((\<Sum>i<j. g i) + g j))"
    using jn IH(2,3) by (rule step)
  finally have "foldl cb (Double 0) [0..<Suc j] = Double (of_int (\<Sum>i<Suc j. g i))"
    by simp
  moreover have "0 \<le> (\<Sum>i<Suc j. g i)" using IH(2) g [OF jn] by simp
  moreover have "(\<Sum>i<Suc j. g i) \<le> int (Suc j) * B"
    using IH(3) g [OF jn] by (simp add: algebra_simps)
  ultimately show ?case by simp
qed

lemma sum_skip_first:
  fixes f :: "nat \<Rightarrow> int"
  shows "(\<Sum>i<n. if i = 0 then 0 else f i) = (\<Sum>i = 1..<n. f i)"
proof (cases n)
  case 0
  then show ?thesis by simp
next
  case (Suc m)
  have "(\<Sum>i<n. if i = 0 then 0 else f i) = (\<Sum>i = 0..<n. if i = 0 then 0 else f i)"
    by (simp add: lessThan_atLeast0)
  also have "\<dots> = (\<Sum>i = Suc 0..<n. if i = 0 then 0 else f i)"
    unfolding Suc by (subst sum.atLeast_Suc_lessThan) simp_all
  also have "\<dots> = (\<Sum>i = 1..<n. f i)"
    by (rule sum.cong) simp_all
  finally show ?thesis .
qed

lemma telescope:
  "1 \<le> n \<Longrightarrow> (\<Sum>i = 1..<n. f i - f (i - 1)) = f (n - 1) - f 0" for f :: "nat \<Rightarrow> int"
proof (induction n)
  case 0
  then show ?case by simp
next
  case (Suc n)
  show ?case
  proof (cases "n = 0")
    case True
    then show ?thesis by simp
  next
    case False
    then have "{1..<Suc n} = insert n {1..<n}" by auto
    with Suc False show ?thesis by simp
  qed
qed

lemma max_min_split: "max d 0 + min d 0 = d" for d :: int
  by (simp add: max_def min_def)

lemma whole_profile_sums:
  assumes whole: "\<forall>p\<in>set points. whole_metres M p"
      and room: "int (length points) * (2 * M) \<le> 2 ^ 53"
  shows "totalAscent points = Double (of_int (totalAscent_spec points))"
    and "totalDescent points = Double (of_int (totalDescent_spec points))"
proof -
  let ?n = "length points"
  let ?e = "\<lambda>i. metres (points ! i)"
  let ?d = "\<lambda>i. ?e i - ?e (i - 1)"
  have el: "elevation (points ! i) = Double (of_int (?e i))" and bd: "\<bar>?e i\<bar> \<le> M"
    if "i < ?n" for i
    using whole that whole_metresD [of M "points ! i"] by simp_all
  have d: "\<bar>?d i\<bar> \<le> 2 * M" if "i < ?n" for i
  proof -
    from that have "i - 1 < ?n" by simp
    from bd [OF that] bd [OF this] show ?thesis by simp
  qed
  have du: "?d i \<le> 2 * M" and dl: "- ?d i \<le> 2 * M" if "i < ?n" for i
    using d [OF that] unfolding abs_le_iff by blast+
  have M0: "0 \<le> 2 * M" if "i < ?n" for i
    using order_trans [OF abs_ge_zero bd [OF that]] by simp
  have fits: "a + b \<le> 2 ^ 53" if "i < ?n" "a \<le> int i * (2 * M)" "b \<le> 2 * M" for a b i
  proof -
    have "0 \<le> M" using bd [OF that(1)] by simp
    have "a + b \<le> int (Suc i) * (2 * M)" using that(2,3) by (simp add: algebra_simps)
    also have "\<dots> \<le> int ?n * (2 * M)"
      using that(1) \<open>0 \<le> M\<close> by (intro mult_right_mono) simp_all
    finally have "a + b \<le> int ?n * (2 * M)" .
    then show ?thesis using room by (rule order_trans)
  qed
  have small: "\<bar>?d i\<bar> \<le> 2 ^ 53" if "i < ?n" for i
    using fits [OF that, of 0 "\<bar>?d i\<bar>"] d [OF that] bd [OF that] by simp
  let ?up = "\<lambda>i. if i = 0 then 0 else max (?d i) 0"
  let ?down = "\<lambda>i. if i = 0 then 0 else - min (?d i) 0"
  let ?asc = "\<lambda>acc i. (\<lambda>totalAscent currentPoint currentIndex points.
        if currentIndex = 0 then totalAscent
        else double_add totalAscent
               (Math_max (double_sub (elevation currentPoint)
                            (elevation (points ! (currentIndex - 1))))
                  (Double 0))) acc (points ! i) i points"
  let ?desc = "\<lambda>acc i. (\<lambda>totalDescent currentPoint currentIndex points.
          if currentIndex = 0 then totalDescent
          else double_sub totalDescent
                 (Math_min (double_sub (elevation currentPoint)
                              (elevation (points ! (currentIndex - 1))))
                    (Double 0))) acc (points ! i) i points"
  have up: "foldl ?asc (Double 0) [0..<?n] = Double (of_int (\<Sum>i<?n. ?up i))
       \<and> 0 \<le> (\<Sum>i<?n. ?up i) \<and> (\<Sum>i<?n. ?up i) \<le> int ?n * (2 * M)"
  proof (rule foldl_whole [where n = ?n])
    fix a i assume i: "i < ?n" and a: "0 \<le> a" "a \<le> int i * (2 * M)"
    show "?asc (Double (of_int a)) i = Double (of_int (a + ?up i))"
    proof (cases "i = 0")
      case True
      then show ?thesis by simp
    next
      case False
      then have i1: "i - 1 < ?n" using i by simp
      have "max (?d i) 0 \<le> 2 * M" using du [OF i] M0 [OF i] by (simp add: max_def)
      from fits [OF i a(2) this] a(1) have "\<bar>a + max (?d i) 0\<bar> \<le> 2 ^ 53" by simp
      then have s3: "double_add (Double (of_int a)) (Double (of_int (max (?d i) 0)))
          = Double (of_int (a + max (?d i) 0))"
        by (rule double_add_int)
      have s1: "double_sub (elevation (points ! i)) (elevation (points ! (i - 1)))
          = Double (of_int (?d i))"
        by (simp only: el [OF i] el [OF i1] double_sub_int [OF small [OF i]])
      show ?thesis
        by (simp only: False if_False s1 Math_max_int s3)
    qed
  next
    fix i assume i: "i < ?n"
    show "0 \<le> ?up i \<and> ?up i \<le> 2 * M" using du [OF i] M0 [OF i] by (simp add: max_def)
  qed simp
  have down: "foldl ?desc (Double 0) [0..<?n] = Double (of_int (\<Sum>i<?n. ?down i))
       \<and> 0 \<le> (\<Sum>i<?n. ?down i) \<and> (\<Sum>i<?n. ?down i) \<le> int ?n * (2 * M)"
  proof (rule foldl_whole [where n = ?n])
    fix a i assume i: "i < ?n" and a: "0 \<le> a" "a \<le> int i * (2 * M)"
    show "?desc (Double (of_int a)) i = Double (of_int (a + ?down i))"
    proof (cases "i = 0")
      case True
      then show ?thesis by simp
    next
      case False
      then have i1: "i - 1 < ?n" using i by simp
      have "- min (?d i) 0 \<le> 2 * M" using dl [OF i] M0 [OF i] by (simp add: min_def)
      from fits [OF i a(2) this] a(1) have "\<bar>a - min (?d i) 0\<bar> \<le> 2 ^ 53" by simp
      then have s3: "double_sub (Double (of_int a)) (Double (of_int (min (?d i) 0)))
          = Double (of_int (a - min (?d i) 0))"
        by (rule double_sub_int)
      have s1: "double_sub (elevation (points ! i)) (elevation (points ! (i - 1)))
          = Double (of_int (?d i))"
        by (simp only: el [OF i] el [OF i1] double_sub_int [OF small [OF i]])
      have "a - min (?d i) 0 = a + - min (?d i) 0" by simp
      then show ?thesis
        by (simp only: False if_False s1 Math_min_int s3)
    qed
  next
    fix i assume i: "i < ?n"
    show "0 \<le> ?down i \<and> ?down i \<le> 2 * M" using dl [OF i] M0 [OF i] by (simp add: min_def)
  qed simp
  show "totalAscent points = Double (of_int (totalAscent_spec points))"
    using up unfolding totalAscent_def reduce_init_def totalAscent_spec_def
    by (simp only: sum_skip_first)
  have "(\<Sum>i<?n. ?down i) = (\<Sum>i = 1..<?n. - min (?d i) 0)"
    by (rule sum_skip_first)
  also have "\<dots> = - (\<Sum>i = 1..<?n. min (?d i) 0)"
    by (simp add: sum_negf)
  finally have eq: "(\<Sum>i<?n. ?down i) = - (\<Sum>i = 1..<?n. min (?d i) 0)" .
  have "(\<Sum>i = 1..<?n. min (?d i) 0) \<le> 0" by (rule sum_nonpos) simp
  then have "\<bar>\<Sum>i<?n. ?down i\<bar> = totalDescent_spec points"
    unfolding eq totalDescent_spec_def by simp
  moreover have "totalDescent points = Double (of_int \<bar>\<Sum>i<?n. ?down i\<bar>)"
  proof -
    from down have f: "foldl ?desc (Double 0) [0..<?n] = Double (of_int (\<Sum>i<?n. ?down i))"
      by (rule conjunct1)
    have "totalDescent points = Math_abs (Double (of_int (\<Sum>i<?n. ?down i)))"
      by (simp only: totalDescent_def reduce_init_def f)
    also have "\<dots> = Double (of_int \<bar>\<Sum>i<?n. ?down i\<bar>)"
      by (simp only: Math_abs.simps of_int_abs)
    finally show ?thesis .
  qed
  ultimately show "totalDescent points = Double (of_int (totalDescent_spec points))"
    by simp
qed

text \<open>
  Claim C6, amended. For every profile of at least two points whose elevations are whole
  numbers of metres of magnitude at most \<open>M\<close>, with the number of points times \<open>2 * M\<close> at
  most \<open>2 ^ 53\<close>: \<open>totalAscent\<close> is the sum over the consecutive pairs of
  \<open>max (elevation[i] - elevation[i-1]) 0\<close>, \<open>totalDescent\<close> is the absolute value of the sum
  of \<open>min (elevation[i] - elevation[i-1]) 0\<close>, and \<open>totalAscent - totalDescent\<close>, computed
  as the code computes it, is exactly \<open>elevationDifference\<close>, the last elevation minus the
  first. Nothing is rounded on such a profile; on other profiles every operation rounds
  to the nearest double.
\<close>

theorem ascent_minus_descent:
  assumes two: "2 \<le> length points"
      and whole: "\<forall>p\<in>set points. whole_metres M p"
      and room: "int (length points) * (2 * M) \<le> 2 ^ 53"
  shows "totalAscent points = Double (of_int (totalAscent_spec points))
       \<and> totalDescent points = Double (of_int (totalDescent_spec points))
       \<and> double_sub (totalAscent points) (totalDescent points) = elevationDifference points
       \<and> elevationDifference points
           = Double (of_int (metres (last points) - metres (hd points)))"
proof -
  let ?n = "length points"
  let ?e = "\<lambda>i. metres (points ! i)"
  let ?d = "\<lambda>i. ?e i - ?e (i - 1)"
  have ne: "points \<noteq> []" using two by auto
  have el: "elevation (points ! i) = Double (of_int (?e i))" and bd: "\<bar>?e i\<bar> \<le> M"
    if "i < ?n" for i
    using whole that whole_metresD [of M "points ! i"] by simp_all
  have M: "2 * M \<le> 2 ^ 53"
  proof -
    have "0 < ?n" using two by auto
    from bd [OF this] have "0 \<le> M" by simp
    then have "1 * (2 * M) \<le> int ?n * (2 * M)" using two by (intro mult_right_mono) simp_all
    then have "1 * (2 * M) \<le> 2 ^ 53" using room by (rule order_trans)
    then show ?thesis by simp
  qed
  have diff: "\<bar>?e (?n - 1) - ?e 0\<bar> \<le> 2 ^ 53"
  proof -
    have "0 < ?n" "?n - 1 < ?n" using two by auto
    from bd [OF this(1)] bd [OF this(2)] M show ?thesis by simp
  qed
  have neg: "(\<Sum>i = 1..<?n. min (?d i) 0) \<le> 0" by (rule sum_nonpos) simp
  have "totalAscent_spec points - totalDescent_spec points
      = (\<Sum>i = 1..<?n. max (?d i) 0) + (\<Sum>i = 1..<?n. min (?d i) 0)"
    using neg unfolding totalAscent_spec_def totalDescent_spec_def by simp
  also have "\<dots> = (\<Sum>i = 1..<?n. ?d i)"
    by (simp only: sum.distrib [symmetric] max_min_split)
  also have "\<dots> = ?e (?n - 1) - ?e 0"
    using two telescope [of ?n ?e] by simp
  finally have tele: "totalAscent_spec points - totalDescent_spec points = ?e (?n - 1) - ?e 0" .
  have ed: "elevationDifference points = Double (of_int (?e (?n - 1) - ?e 0))"
  proof -
    have i: "0 < ?n" "?n - 1 < ?n" using two by auto
    have "elevationDifference points
        = double_sub (elevation (points ! (?n - 1))) (elevation (points ! 0))"
      using two by (simp add: elevationDifference_def hasData_def)
    also have "\<dots> = Double (of_int (?e (?n - 1) - ?e 0))"
      by (simp only: el [OF i(1)] el [OF i(2)] double_sub_int [OF diff])
    finally show ?thesis .
  qed
  have "double_sub (totalAscent points) (totalDescent points)
      = Double (of_int (totalAscent_spec points - totalDescent_spec points))"
    unfolding whole_profile_sums [OF whole room]
    by (rule double_sub_int) (simp only: tele diff)
  then have "double_sub (totalAscent points) (totalDescent points) = elevationDifference points"
    by (simp add: tele ed)
  then show ?thesis
    using ne ed by (simp add: whole_profile_sums [OF whole room] last_conv_nth hd_conv_nth)
qed

subsection \<open>Rounding a given real\<close>

lemma exponent_eq:
  assumes "pow2 e \<le> \<bar>x\<bar>" "\<bar>x\<bar> < pow2 (e + 1)" "- 1022 \<le> e" "e < 1024"
  shows "exponent x = e"
proof -
  have up: "exponent x < e + 1" using assms(2,3) by (intro exponent_less) simp_all
  then have "exponent x < 1024" using assms(4) by simp
  then have "\<bar>x\<bar> < pow2 (exponent x + 1)" by (rule exponent_greater)
  with assms(1) have "pow2 e < pow2 (exponent x + 1)" by (rule le_less_trans)
  then have "e < exponent x + 1" by simp
  with up show ?thesis by simp
qed

lemma to_double_round:
  assumes e: "pow2 e \<le> \<bar>x\<bar>" "\<bar>x\<bar> < pow2 (e + 1)" "- 1022 \<le> e" "e < 1024"
      and m: "round_half_even (x / pow2 (e - 52)) = m" "\<bar>m\<bar> < 2 ^ 53"
      and y: "y = of_int m * pow2 (e - 52)"
  shows "to_double x = Double y"
proof -
  have ex: "exponent x = e" using e by (rule exponent_eq)
  then have q: "quantum x = e - 52" using e(3) by (simp add: quantum_def)
  have "\<bar>of_int m :: real\<bar> < 2 ^ 53"
    using m(2) by (metis of_int_abs of_int_less_numeral_power_cancel_iff)
  then have "\<bar>y\<bar> < pow2 53 * pow2 (e - 52)"
    unfolding y abs_mult pow2_53 by (simp add: mult_strict_right_mono)
  also have "\<dots> = pow2 (e + 1)"
  proof -
    have "53 + (e - 52) = e + 1" by simp
    then show ?thesis by (simp only: pow2_add [symmetric])
  qed
  also have "\<dots> \<le> pow2 1024" using e(4) by simp
  finally have "exponent y < 1024" by (rule exponent_small)
  then show ?thesis
    unfolding to_double_Double_iff q m(1) using y by simp
qed

lemma double_div_eq:
  "y \<noteq> 0 \<Longrightarrow> to_double (x / y) = r \<Longrightarrow> double_div (Double x) (Double y) = r"
  by simp

lemma double_mul_eq: "to_double (x * y) = r \<Longrightarrow> double_mul (Double x) (Double y) = r"
  by simp

lemma double_add_eq: "to_double (x + y) = r \<Longrightarrow> double_add (Double x) (Double y) = r"
  by simp

lemma double_sub_eq: "to_double (x - y) = r \<Longrightarrow> double_sub (Double x) (Double y) = r"
  by (simp add: double_sub_def)

subsection \<open>The definitions on example profiles\<close>

lemma upt_3: "[0..<Suc (Suc (Suc 0))] = [0, 1, 2]"
  by (simp add: upt_rec)

lemma double_sub_0: "to_double x = Double x \<Longrightarrow> double_sub (Double x) (Double 0) = Double x"
  by (simp add: double_sub_def)

text \<open>
  Claim C1, as the claim states it, fails: for the points at the distances 0, 115 and 116
  with the elevations 0, 50 and 50 the computation of the claim gives
  \<open>115 * (17 * (500 / 115)) / 1000 = 8.5\<close>, 9 minutes once rounded, while the doubles of the
  code give 8.499999999999998 and \<open>hikingTime\<close> is 8.
\<close>

theorem rounding_changes_hiking_time:
  "hikingTime product_pow (profile_of steep_points) = Inr (Double 8)
   \<and> hikingTime_exact steep_points = 9"
proof -
  define slope :: real where "slope = 2447608493136139 / 2 ^ 49"
  define pace :: real where "pace = 5201168047914295 / 2 ^ 46"
  define metre_minutes :: real where "metre_minutes = 4672924418047999 / 2 ^ 39"
  define minutes :: real where "minutes = 4785074604081151 / 2 ^ 49"
  let ?p0 = "\<lparr>dist = Double 0, coordinate = (Double 0, Double 0), elevation = Double 0\<rparr>"
  let ?p1 = "\<lparr>dist = Double 115, coordinate = (Double 0, Double 115), elevation = Double 50\<rparr>"
  let ?p2 = "\<lparr>dist = Double 116, coordinate = (Double 0, Double 116), elevation = Double 50\<rparr>"
  have points: "profile_of steep_points = [?p0, ?p1, ?p2]"
    by (simp add: steep_points_def profile_of_def to_double_numeral)
  have s1: "double_div (Double 500) (Double 115) = Double slope"
    unfolding slope_def
    by (rule double_div_eq, simp, rule to_double_round [where e = 2 and m = 4895216986272278])
       (simp_all add: pow2_def round_half_even_def Let_def)
  have s2: "double_mul (Double 17) (Double slope) = Double pace"
    unfolding slope_def pace_def
    by (rule double_mul_eq, rule to_double_round [where e = 6 and m = 5201168047914295])
       (simp_all add: pow2_def round_half_even_def Let_def)
  have s3: "double_mul (Double 115) (Double pace) = Double metre_minutes"
    unfolding pace_def metre_minutes_def
    by (rule double_mul_eq, rule to_double_round [where e = 13 and m = 4672924418047999])
       (simp_all add: pow2_def round_half_even_def Let_def)
  have s4: "double_div (Double metre_minutes) (Double 1000) = Double minutes"
    unfolding metre_minutes_def minutes_def
    by (rule double_div_eq, simp, rule to_double_round [where e = 3 and m = 4785074604081151])
       (simp_all add: pow2_def round_half_even_def Let_def)
  have dd: "double_sub (Double 115) (Double 0) = Double 115"
    and ed: "double_sub (Double 50) (Double 0) = Double 50"
    and e10: "double_mul (Double 50) (Double 10) = Double 500"
    by (simp_all add: double_sub_def to_double_numeral)
  have steep: "\<not> slope < 4" "0 < slope" by (simp_all add: slope_def)
  have mpk: "minutesPerKilometer product_pow (Double slope) = Double pace"
    by (simp add: minutesPerKilometer_def steep s2 del: double_mul.simps)
  have cb0: "hikingTime_callback product_pow ?p0 0 [?p0, ?p1, ?p2] = Double minutes"
    by (simp add: hikingTime_callback_def Let_def falsy_def dd ed e10 s1 mpk s3 s4
        del: double_mul.simps double_div.simps)
  have cb1: "hikingTime_callback product_pow ?p1 (Suc 0) [?p0, ?p1, ?p2] = Double 0"
    and cb2: "hikingTime_callback product_pow ?p2 2 [?p0, ?p1, ?p2] = Double 0"
    by (simp_all add: hikingTime_callback_def)
  have mapped: "map_indexed (hikingTime_callback product_pow) [?p0, ?p1, ?p2]
      = [Double minutes, Double 0, Double 0]"
    by (simp add: map_indexed_def upt_3 cb0 cb1 cb2 del: upt_Suc)
  have "is_double (double_div (Double metre_minutes) (Double 1000))" by (rule is_double_div)
  then have "is_double (Double minutes)" by (simp only: s4)
  then have sum: "double_add (double_add (Double minutes) (Double 0)) (Double 0) = Double minutes"
    by (simp only: double_add_0_right)
  have rounded: "Math_round (Double minutes) = Double 8"
    by (simp add: minutes_def)
  have code: "hikingTime product_pow (profile_of steep_points) = Inr (Double 8)"
    unfolding points
    by (simp add: hikingTime_def hasData_def mapped reduce_noinit_def sum rounded
        del: double_add.simps Math_round.simps)
  have exact: "hikingTime_exact steep_points = 9"
    by code_simp
  from code exact show ?thesis by (rule conjI)
qed

text \<open>
  Claim C6, as the claim states it, fails: for the elevations 0, 0.2 and 0.9 the ascent
  is \<open>0.2 + (0.9 - 0.2)\<close> in doubles, which is 0.8999999999999999, the descent is 0 and
  the elevation difference is 0.9.
\<close>

theorem rounding_breaks_ascent_identity:
  "totalAscent gentle_climb = Double (8106479329266892 / 2 ^ 53)
   \<and> totalDescent gentle_climb = Double 0
   \<and> elevationDifference gentle_climb = Double (8106479329266893 / 2 ^ 53)
   \<and> double_sub (totalAscent gentle_climb) (totalDescent gentle_climb)
       \<noteq> elevationDifference gentle_climb"
proof -
  define low :: real where "low = 3602879701896397 / 2 ^ 54"
  define high :: real where "high = 8106479329266893 / 2 ^ 53"
  define climb :: real where "climb = 6305039478318694 / 2 ^ 53"
  define ascent :: real where "ascent = 8106479329266892 / 2 ^ 53"
  let ?p0 = "\<lparr>dist = Double 0, coordinate = (Double 0, Double 0), elevation = Double 0\<rparr>"
  let ?p1 = "\<lparr>dist = Double 1, coordinate = (Double 0, Double 1), elevation = Double low\<rparr>"
  let ?p2 = "\<lparr>dist = Double 2, coordinate = (Double 0, Double 2), elevation = Double high\<rparr>"
  have low: "to_double (2 / 10) = Double low"
    unfolding low_def
    by (rule to_double_round [where e = "- 3" and m = 7205759403792794])
       (simp_all add: pow2_def round_half_even_def Let_def)
  have high: "to_double (9 / 10) = Double high"
    unfolding high_def
    by (rule to_double_round [where e = "- 1" and m = 8106479329266893])
       (simp_all add: pow2_def round_half_even_def Let_def)
  have one: "to_double 1 = Double 1" using to_double_of_int [of 1] by simp
  have two: "to_double 2 = Double 2" by (simp add: to_double_numeral)
  have points: "gentle_climb = [?p0, ?p1, ?p2]"
    by (simp only: gentle_climb_def profile_of_def list.map prod.case low high one two
        to_double_0)
  have low_fix: "to_double low = Double low" using low by (rule to_double_idem)
  have high_fix: "to_double high = Double high" using high by (rule to_double_idem)
  have d1: "double_sub (Double low) (Double 0) = Double low"
    using low_fix by (rule double_sub_0)
  have d2: "double_sub (Double high) (Double low) = Double climb"
    unfolding high_def low_def climb_def
    by (rule double_sub_eq, rule to_double_round [where e = "- 1" and m = 6305039478318694])
       (simp_all add: pow2_def round_half_even_def Let_def)
  have a1: "double_add (Double 0) (Double low) = Double low"
    using low_fix by simp
  have a2: "double_add (Double low) (Double climb) = Double ascent"
    unfolding low_def climb_def ascent_def
    by (rule double_add_eq, rule to_double_round [where e = "- 1" and m = 8106479329266892])
       (simp_all add: pow2_def round_half_even_def Let_def)
  have pos: "0 < low" "0 < climb" by (simp_all add: low_def climb_def)
  have m1: "Math_max (Double low) (Double 0) = Double low"
    and m2: "Math_max (Double climb) (Double 0) = Double climb"
    and n1: "Math_min (Double low) (Double 0) = Double 0"
    and n2: "Math_min (Double climb) (Double 0) = Double 0"
    using pos by (simp_all add: Math_max_def Math_min_def)
  have z: "double_sub (Double 0) (Double 0) = Double 0"
    by (simp add: double_sub_def)
  have asc: "totalAscent gentle_climb = Double ascent"
    unfolding points
    by (simp add: totalAscent_def reduce_init_def upt_3 d1 d2 m1 m2 a1 a2
        del: upt_Suc double_add.simps)
  have desc: "totalDescent gentle_climb = Double 0"
    unfolding points
    by (simp add: totalDescent_def reduce_init_def upt_3 d1 d2 n1 n2 z
        del: upt_Suc double_add.simps)
  have ed: "elevationDifference gentle_climb = Double high"
    unfolding points
    using high_fix by (simp add: elevationDifference_def hasData_def double_sub_0)
  have "is_double (double_add (Double low) (Double climb))" by (rule is_double_add)
  then have "is_double (Double ascent)" by (simp only: a2)
  then have "to_double ascent = Double ascent" by (simp add: is_double_def)
  then have diff: "double_sub (Double ascent) (Double 0) = Double ascent"
    by (rule double_sub_0)
  have "ascent \<noteq> high" by (simp add: ascent_def high_def)
  then show ?thesis
    unfolding asc desc ed diff by (simp add: ascent_def high_def)
qed

lemma example_points:
  "example_profile =
     [\<lparr>dist = Double 0, coordinate = (Double 0, Double 0), elevation = Double 100\<rparr>,
      \<lparr>dist = Double 1000, coordinate = (Double 0, Double 1000), elevation = Double 150\<rparr>,
      \<lparr>dist = Double 1500, coordinate = (Double 0, Double 1500), elevation = Double 120\<rparr>]"
  by (simp add: example_profile_def profile_of_def to_double_numeral)

lemma interval_1_3: "{1..<3} = {1, 2 :: nat}"
  by auto

lemma example_sums:
  "totalAscent_spec example_profile = 50" "totalDescent_spec example_profile = 30"
  "metres (last example_profile) - metres (hd example_profile) = 20"
  by (simp_all add: example_points totalAscent_spec_def totalDescent_spec_def metres_def
      interval_1_3)

text \<open>
  Witness of claim C6, amended: the profile of the elevations 100, 150 and 120 has an
  ascent of 50, a descent of 30 and an elevation difference of 20.
\<close>

theorem ascent_minus_descent_witness:
  "2 \<le> length example_profile
   \<and> list_all (whole_metres 150) example_profile
   \<and> int (length example_profile) * (2 * 150) \<le> 2 ^ 53
   \<and> totalAscent example_profile = Double 50
   \<and> totalDescent example_profile = Double 30
   \<and> elevationDifference example_profile = Double 20
   \<and> double_sub (totalAscent example_profile) (totalDescent example_profile)
       = elevationDifference example_profile"
proof -
  have len: "2 \<le> length example_profile" by (simp add: example_points)
  have whole: "\<forall>p\<in>set example_profile. whole_metres 150 p"
    by (simp add: example_points whole_metres_def)
  have room: "int (length example_profile) * (2 * 150) \<le> 2 ^ 53"
    by (simp add: example_points)
  note T = ascent_minus_descent [OF len whole room]
  from T have vals: "totalAscent example_profile = Double 50"
    "totalDescent example_profile = Double 30"
    "elevationDifference example_profile = Double 20"
    by (simp_all add: example_sums)
  have "double_sub (totalAscent example_profile) (totalDescent example_profile)
       = elevationDifference example_profile"
    by (rule T [THEN conjunct2, THEN conjunct2, THEN conjunct1])
  with vals len whole room show ?thesis by (simp add: list_all_iff)
qed

lemma steep_climb_points:
  "steep_climb =
     [\<lparr>dist = Double 0, coordinate = (Double 0, Double 0), elevation = Double 0\<rparr>,
      \<lparr>dist = Double 1000, coordinate = (Double 0, Double 1000), elevation = Double 500\<rparr>,
      \<lparr>dist = Double 2000, coordinate = (Double 0, Double 2000), elevation = Double 500\<rparr>]"
  by (simp add: steep_climb_def profile_of_def to_double_numeral)

lemma steep_climb_spec: "hikingTime_spec product_pow steep_climb = Double 85"
  by (simp add: steep_climb_points hikingTime_spec_def consecutive_pairs_def
      segment_minutes_spec_def double_sub_def to_double_numeral)

text \<open>
  Witness of claim C1, amended: on a climb of 500 m over 1000 m followed by a flat
  kilometre, the slope of the one segment that counts is 5 and the hiking time is
  \<open>1000 * (17 * 5) / 1000 = 85\<close> minutes; a single point gives 0.
\<close>

theorem hikingTime_refines_witness:
  "2 \<le> length steep_climb
   \<and> hikingTime product_pow steep_climb = Inr (hikingTime_spec product_pow steep_climb)
   \<and> hikingTime product_pow steep_climb = Inr (Double 85)
   \<and> length (take 1 steep_climb) < 2
   \<and> hikingTime product_pow (take 1 steep_climb) = Inr (Double 0)"
proof -
  have len: "2 \<le> length steep_climb" "length (take 1 steep_climb) < 2"
    by (simp_all add: steep_climb_points)
  show ?thesis
    using hikingTime_refines [of steep_climb product_pow]
      hikingTime_refines [of "take 1 steep_climb" product_pow]
      len steep_climb_spec
    by simp
qed

section \<open>Properties of the profile request\<close>

lemma profile_always_requests:
  "length (requests (profile base sr coords ext)) = 1"
  by (simp add: profile_def Let_def axios_def reject_def log_error_def split: promise_state.splits)

text \<open>
  Claim C3. With an empty coordinate list, or with a file extension other than \<open>.json\<close>
  and \<open>.csv\<close>, the promise is rejected with the validation message and the message is
  logged; but \<open>reject\<close> does not leave the executor, which goes on to \<open>axios\<close>: the request
  is issued all the same, to the URL built from the extension.
\<close>

theorem profile_rejects_and_still_requests:
  "settled (profile base sr (Some []) None) = Rejected ''Coordinates not provided''
   \<and> error_log (profile base sr (Some []) None) = [''Coordinates not provided'']
   \<and> map request_url (requests (profile base sr (Some []) None))
       = [base @ ''rest/services/profile.json'']
   \<and> settled (profile base sr (Some [(0, 0), (0, 1000)]) (Some ''.xml''))
       = Rejected ''Not supported file extension''
   \<and> map request_url (requests (profile base sr (Some [(0, 0), (0, 1000)]) (Some ''.xml'')))
       = [base @ ''rest/services/profile.xml'']"
  by (simp add: profile_def Let_def axios_def reject_def log_error_def)

section \<open>Properties of the KML functions\<close>

subsection \<open>Coordinates of a feature\<close>

text \<open>
  Claim C9, amended. For a feature whose geometry is a Polygon of N rings (N at least 1),
  \<open>getKmlFeatureCoordinates\<close> returns ring 0, whatever the other rings are, so its length
  is the number of vertices of ring 0; for a feature of another geometry kind that has
  coordinates it returns the coordinate structure of the geometry unchanged; for a
  geometry without coordinates (a geometry collection) it throws a TypeError.
\<close>

theorem polygon_outer_ring:
  "(feature_geometry feature = Some g \<and> geom_type g = ''Polygon''
      \<and> geom_coordinates g = Some (Arr (ring0 # rings))
    \<longrightarrow> getKmlFeatureCoordinates feature = Inr (Some ring0)
        \<and> map_option array_length (projr (getKmlFeatureCoordinates feature))
            = Some (array_length ring0))
 \<and> (feature_geometry feature = Some g \<and> geom_type g \<noteq> ''Polygon''
      \<and> geom_coordinates g = Some native
    \<longrightarrow> getKmlFeatureCoordinates feature = Inr (Some native))
 \<and> (feature_geometry feature = Some g \<and> geom_coordinates g = None
    \<longrightarrow> getKmlFeatureCoordinates feature = Inl TypeError)"
  by (simp add: getKmlFeatureCoordinates_def first_element_def)

text \<open>
  Witness of claim C9, amended: the example polygon with a hole gives its outer ring of
  five vertices, the example line its two points, and the example collection a TypeError.
\<close>

theorem polygon_outer_ring_witness:
  "feature_geometry (plain_feature (Some example_polygon) None) = Some example_polygon
   \<and> geom_type example_polygon = ''Polygon''
   \<and> getKmlFeatureCoordinates (plain_feature (Some example_polygon) None)
       = Inr (Some (Arr [point_coords 0 0, point_coords 4 0, point_coords 4 4, point_coords 0 4,
                         point_coords 0 0]))
   \<and> map_option array_length
         (projr (getKmlFeatureCoordinates (plain_feature (Some example_polygon) None))) = Some 5
   \<and> feature_geometry (plain_feature (Some example_line) None) = Some example_line
   \<and> geom_type example_line \<noteq> ''Polygon''
   \<and> getKmlFeatureCoordinates (plain_feature (Some example_line) None)
       = Inr (Some (Arr [point_coords 0 0, point_coords 3 5]))
   \<and> geom_coordinates example_collection = None
   \<and> getKmlFeatureCoordinates (plain_feature (Some example_collection) None) = Inl TypeError"
proof -
  let ?ring0 = "Arr [point_coords 0 0, point_coords 4 0, point_coords 4 4, point_coords 0 4,
                     point_coords 0 0]"
  let ?hole = "Arr [point_coords 1 1, point_coords 2 1, point_coords 2 2, point_coords 1 1]"
  have p: "feature_geometry (plain_feature (Some example_polygon) None) = Some example_polygon
           \<and> geom_type example_polygon = ''Polygon''
           \<and> geom_coordinates example_polygon = Some (Arr (?ring0 # [?hole]))"
    by (simp add: plain_feature_def example_polygon_def)
  have l: "feature_geometry (plain_feature (Some example_line) None) = Some example_line
           \<and> geom_type example_line \<noteq> ''Polygon''
           \<and> geom_coordinates example_line = Some (Arr [point_coords 0 0, point_coords 3 5])"
    by (simp add: plain_feature_def example_line_def)
  have c: "feature_geometry (plain_feature (Some example_collection) None)
             = Some example_collection
           \<and> geom_coordinates example_collection = None"
    by (simp add: plain_feature_def example_collection_def)
  note P = polygon_outer_ring [THEN conjunct1, rule_format, OF p]
  note L = polygon_outer_ring [THEN conjunct2, THEN conjunct1, rule_format, OF l]
  note C = polygon_outer_ring [THEN conjunct2, THEN conjunct2, rule_format, OF c]
  have len: "array_length ?ring0 = 5" by (simp add: array_length_def)
  show ?thesis
    using P L C p l c len by simp
qed

text \<open>
  Claim C9, as the claim states it, fails: a feature whose geometry is a geometry
  collection is of another kind than Polygon, and \<open>getKmlFeatureCoordinates\<close> does not
  return a coordinate structure for it: the geometry has no \<open>getCoordinates\<close>, and the
  call throws a TypeError.
\<close>

theorem geometry_collection_has_no_coordinates:
  "feature_geometry (plain_feature (Some example_collection) None) = Some example_collection
   \<and> geom_type example_collection = ''GeometryCollection''
   \<and> getKmlFeatureCoordinates (plain_feature (Some example_collection) None) = Inl TypeError"
  by (simp add: plain_feature_def example_collection_def getKmlFeatureCoordinates_def)

subsection \<open>The anchor of a synthesized icon\<close>




section \<open>Properties of the file import\<close>

lemma extendExtent_min_max:
  "extendExtent a b =
     \<lparr>minX = min (minX a) (minX b), minY = min (minY a) (minY b),
      maxX = max (maxX a) (maxX b), maxY = max (maxY a) (maxY b)\<rparr>"
  by (simp add: extendExtent_def Let_def min_def max_def not_less)

lemma extend_all_fold:
  "\<forall>f\<in>set features. feature_geometry f \<noteq> None \<Longrightarrow>
   extend_all acc features =
     Inr \<lparr>minX = fold min (map minX (feature_extents features)) (minX acc),
          minY = fold min (map minY (feature_extents features)) (minY acc),
          maxX = fold max (map maxX (feature_extents features)) (maxX acc),
          maxY = fold max (map maxY (feature_extents features)) (maxY acc)\<rparr>"
proof (induction features arbitrary: acc)
  case Nil
  show ?case by (simp add: feature_extents_def map_filter_simps)
next
  case (Cons f features)
  then obtain g where g: "feature_geometry f = Some g" by auto
  have fe: "feature_extents (f # features) = geom_extent g # feature_extents features"
    by (simp add: feature_extents_def map_filter_simps g)
  from Cons.prems have "\<forall>f\<in>set features. feature_geometry f \<noteq> None" by simp
  from Cons.IH [OF this, of "extendExtent acc (geom_extent g)"]
  show ?case
    by (simp add: g fe extendExtent_min_max min.commute max.commute)
qed

lemma extent_union_fold:
  "extent_union es =
     \<lparr>minX = fold min (map minX es) PosInf, minY = fold min (map minY es) PosInf,
      maxX = fold max (map maxX es) NegInf, maxY = fold max (map maxY es) NegInf\<rparr>"
  by (simp add: extent_union_def Min.set_eq_fold Max.set_eq_fold del: set_simps)

lemma extend_all_union:
  "\<forall>f\<in>set features. feature_geometry f \<noteq> None \<Longrightarrow>
   extend_all emptyExtent features = Inr (extent_union (feature_extents features))"
  by (simp add: extend_all_fold extent_union_fold emptyExtent_def)

lemma union_nonempty:
  assumes "e \<in> set es" "\<not> isExtentEmpty e"
  shows "\<not> isExtentEmpty (extent_union es)"
proof -
  have "minX (extent_union es) \<le> minX e" "minY (extent_union es) \<le> minY e"
       "maxX e \<le> maxX (extent_union es)" "maxY e \<le> maxY (extent_union es)"
    using assms(1) by (auto simp: extent_union_def intro!: Min_le Max_ge)
  moreover have "minX e \<le> maxX e" "minY e \<le> maxY e"
    using assms(2) by (auto simp: isExtentEmpty_def not_less)
  ultimately have "minX (extent_union es) \<le> maxX (extent_union es)"
      "minY (extent_union es) \<le> maxY (extent_union es)"
    by (meson order_trans)+
  then show ?thesis by (simp add: isExtentEmpty_def not_less)
qed

lemma union_of_empties:
  "\<forall>e\<in>set es. e = emptyExtent \<Longrightarrow> extent_union es = emptyExtent"
proof (induction es)
  case Nil
  show ?case by (simp add: extent_union_def emptyExtent_def)
next
  case (Cons e es)
  then have "extent_union es = emptyExtent" "e = emptyExtent" by simp_all
  then show ?case
    unfolding extent_union_fold by (simp add: emptyExtent_def min_def max_def)
qed

lemma emptyExtent_isEmpty: "isExtentEmpty emptyExtent"
  by (simp add: isExtentEmpty_def emptyExtent_def less_bound_def)

text \<open>
  Claim C8, amended. For every KML content all of whose features carry a geometry: when
  the union of the extents of the features is empty (as it is for no feature at all, and
  when every feature has the empty extent), \<open>getKmlExtent\<close> returns null and the KML
  branch of \<open>handleFileContent\<close> raises \<open>EmptyKMLError\<close>; when at least one feature has an
  extent that is not empty, \<open>getKmlExtent\<close> returns the union of the extents of all
  features and no \<open>EmptyKMLError\<close> is raised.
\<close>

theorem kml_extent_empty_or_union:
  assumes "\<forall>f\<in>set (kml_readFeatures env content). feature_geometry f \<noteq> None"
  shows "(isExtentEmpty (extent_union (feature_extents (kml_readFeatures env content))) \<longrightarrow>
            getKmlExtent env content = Inr None
            \<and> (isKml content \<longrightarrow> fst (handleFileContent env content source) = Inl EmptyKMLError))
       \<and> ((\<exists>e\<in>set (feature_extents (kml_readFeatures env content)). \<not> isExtentEmpty e) \<longrightarrow>
            getKmlExtent env content
              = Inr (Some (extent_union (feature_extents (kml_readFeatures env content))))
            \<and> fst (handleFileContent env content source) \<noteq> Inl EmptyKMLError)
       \<and> (kml_readFeatures env content = [] \<or>
            (\<forall>e\<in>set (feature_extents (kml_readFeatures env content)). e = emptyExtent) \<longrightarrow>
            isExtentEmpty (extent_union (feature_extents (kml_readFeatures env content))))"
proof -
  let ?U = "extent_union (feature_extents (kml_readFeatures env content))"
  have ext: "getKmlExtent env content = (if isExtentEmpty ?U then Inr None else Inr (Some ?U))"
    by (simp add: getKmlExtent_def Let_def extend_all_union [OF assms])
  have a: "isExtentEmpty ?U \<Longrightarrow> getKmlExtent env content = Inr None
            \<and> (isKml content \<longrightarrow> fst (handleFileContent env content source) = Inl EmptyKMLError)"
    by (simp add: ext handleFileContent_def)
  have b: "\<exists>e\<in>set (feature_extents (kml_readFeatures env content)). \<not> isExtentEmpty e \<Longrightarrow>
            getKmlExtent env content = Inr (Some ?U)
            \<and> fst (handleFileContent env content source) \<noteq> Inl EmptyKMLError"
  proof -
    assume "\<exists>e\<in>set (feature_extents (kml_readFeatures env content)). \<not> isExtentEmpty e"
    then have ne: "\<not> isExtentEmpty ?U" using union_nonempty by blast
    then show ?thesis
      by (simp add: ext handleFileContent_def Let_def split: option.splits)
  qed
  have c: "kml_readFeatures env content = [] \<or>
            (\<forall>e\<in>set (feature_extents (kml_readFeatures env content)). e = emptyExtent) \<Longrightarrow>
            isExtentEmpty ?U"
  proof -
    assume h: "kml_readFeatures env content = [] \<or>
            (\<forall>e\<in>set (feature_extents (kml_readFeatures env content)). e = emptyExtent)"
    then have "\<forall>e\<in>set (feature_extents (kml_readFeatures env content)). e = emptyExtent"
      by (auto simp: feature_extents_def map_filter_simps)
    then show ?thesis by (simp add: union_of_empties emptyExtent_isEmpty)
  qed
  from a b c show ?thesis by (intro conjI impI) simp_all
qed

lemma sniff_examples:
  "isKml empty_kml_gpx" "isGpx empty_kml_gpx" "isKml point_kml_gpx" "isGpx point_kml_gpx"
  "isKml note_and_point_kml" "isKml point_kml" "\<not> isGpx point_kml"
  by (simp_all add: isKml_def isGpx_def test_def match_at_def class_run_def
      empty_kml_gpx_def point_kml_gpx_def point_kml_def note_and_point_kml_def)


lemma sniff_more:
  "isKml empty_kml" "\<not> isKml gpx_only" "isGpx gpx_only"
  by (simp_all add: isKml_def isGpx_def test_def match_at_def class_run_def
      empty_kml_def gpx_only_def)

lemma example_reads:
  "kml_readFeatures example_import_env empty_kml = []"
  "kml_readFeatures example_import_env empty_kml_gpx = []"
  "kml_readFeatures example_import_env point_kml = [plain_feature (Some example_point) None]"
  "kml_readFeatures example_import_env point_kml_gpx = [plain_feature (Some example_point) None]"
  "kml_readFeatures example_import_env note_and_point_kml
     = [plain_feature None None, plain_feature (Some example_point) None]"
  by (simp_all add: example_import_env_def empty_kml_def empty_kml_gpx_def point_kml_def
      point_kml_gpx_def note_and_point_kml_def)

lemma point_extent_nonempty: "\<not> isExtentEmpty (geom_extent example_point)"
  by (simp add: example_point_def box_def isExtentEmpty_def less_bound_def)

lemma union_single_point: "extent_union [box 7 46 7 46] = box 7 46 7 46"
  by (simp add: extent_union_def box_def min_def max_def)

text \<open>
  Claim C8, as the claim states it, fails: a document with a placemark that has a name
  only and a placemark with a point has a feature geometry that is not empty, but
  \<open>getKmlExtent\<close> returns no extent: calling \<open>getExtent\<close> on the geometry the first
  feature does not have throws a TypeError, which \<open>handleFileContent\<close> passes on.
\<close>

theorem geometry_less_placemark_breaks_extent:
  "map feature_geometry (kml_readFeatures example_import_env note_and_point_kml)
     = [None, Some example_point]
   \<and> \<not> isExtentEmpty (geom_extent example_point)
   \<and> getKmlExtent example_import_env note_and_point_kml = Inl TypeError
   \<and> isKml note_and_point_kml
   \<and> fst (handleFileContent example_import_env note_and_point_kml ''doc.kml'') = Inl TypeError"
  by (simp add: example_reads point_extent_nonempty sniff_examples getKmlExtent_def
      handleFileContent_def plain_feature_def)

theorem kml_extent_empty_or_union_witness:
  "kml_readFeatures example_import_env empty_kml = []
   \<and> getKmlExtent example_import_env empty_kml = Inr None
   \<and> isKml empty_kml
   \<and> fst (handleFileContent example_import_env empty_kml ''empty.kml'') = Inl EmptyKMLError
   \<and> map feature_geometry (kml_readFeatures example_import_env point_kml) = [Some example_point]
   \<and> \<not> isExtentEmpty (geom_extent example_point)
   \<and> getKmlExtent example_import_env point_kml = Inr (Some (box 7 46 7 46))
   \<and> fst (handleFileContent example_import_env point_kml ''point.kml'') \<noteq> Inl EmptyKMLError"
proof -
  have g0: "\<forall>f\<in>set (kml_readFeatures example_import_env empty_kml). feature_geometry f \<noteq> None"
    by (simp add: example_reads)
  have g1: "\<forall>f\<in>set (kml_readFeatures example_import_env point_kml). feature_geometry f \<noteq> None"
    by (simp add: example_reads plain_feature_def)
  have e0: "kml_readFeatures example_import_env empty_kml = [] \<or>
      (\<forall>e\<in>set (feature_extents (kml_readFeatures example_import_env empty_kml)). e = emptyExtent)"
    by (simp add: example_reads)
  have fe: "feature_extents (kml_readFeatures example_import_env point_kml) = [box 7 46 7 46]"
    by (simp add: example_reads feature_extents_def map_filter_simps plain_feature_def
        example_point_def)
  have e1: "\<exists>e\<in>set (feature_extents (kml_readFeatures example_import_env point_kml)).
              \<not> isExtentEmpty e"
    using point_extent_nonempty by (simp add: fe example_point_def)
  note T0 = kml_extent_empty_or_union [OF g0, of "''empty.kml''"]
  note T1 = kml_extent_empty_or_union [OF g1, of "''point.kml''"]
  have empty: "isExtentEmpty (extent_union (feature_extents
                  (kml_readFeatures example_import_env empty_kml)))"
    using T0 [THEN conjunct2, THEN conjunct2, rule_format, OF e0] .
  note A = T0 [THEN conjunct1, rule_format, OF empty]
  note B = T1 [THEN conjunct2, THEN conjunct1, rule_format, OF e1]
  have geoms: "map feature_geometry (kml_readFeatures example_import_env point_kml)
                 = [Some example_point]"
    by (simp add: example_reads plain_feature_def)
  show ?thesis
    using A B sniff_more(1) point_extent_nonempty geoms example_reads(1)
    unfolding fe union_single_point by simp
qed

lemma extend_all_error: "extend_all acc features = Inl e \<Longrightarrow> e = TypeError"
  by (induction features arbitrary: acc) (auto split: option.splits)

lemma getKmlExtent_error: "getKmlExtent env content = Inl e \<Longrightarrow> e = TypeError"
  by (auto simp: getKmlExtent_def Let_def split: sum.splits if_splits dest: extend_all_error)

text \<open>
  Claim C10, amended. For every content for which both \<open>isKml\<close> and \<open>isGpx\<close> hold,
  \<open>handleFileContent\<close> takes the KML branch: a layer it returns is the KMLLayer built
  from the source and the content, never a GPXLayer, and when it returns none it has
  thrown an error of the KML branch (\<open>EmptyKMLError\<close>, \<open>OutOfBoundsError\<close>, or the
  TypeError of a feature without geometry). A GPXLayer is returned only when \<open>isKml\<close> is
  false and \<open>isGpx\<close> is true.
\<close>

theorem kml_branch_first:
  "(isKml content \<and> isGpx content \<longrightarrow>
      (\<forall>layer. fst (handleFileContent env content source) = Inr layer \<longrightarrow>
          layer = KMLLayer source True 1 None content)
    \<and> (\<forall>e. fst (handleFileContent env content source) = Inl e \<longrightarrow>
          e \<in> {TypeError, EmptyKMLError, OutOfBoundsError}))
 \<and> (fst (handleFileContent env content source) = Inr (GPXLayer s v opacity c m) \<longrightarrow>
      \<not> isKml content \<and> isGpx content)"
proof (intro conjI impI allI)
  fix layer
  assume "isKml content \<and> isGpx content"
    and "fst (handleFileContent env content source) = Inr layer"
  then show "layer = KMLLayer source True 1 None content"
    by (auto simp: handleFileContent_def Let_def split: sum.splits option.splits)
next
  fix e
  assume "isKml content \<and> isGpx content"
    and "fst (handleFileContent env content source) = Inl e"
  then show "e \<in> {TypeError, EmptyKMLError, OutOfBoundsError}"
    by (auto simp: handleFileContent_def Let_def split: sum.splits option.splits
        dest: getKmlExtent_error)
next
  assume "fst (handleFileContent env content source) = Inr (GPXLayer s v opacity c m)"
  then show "\<not> isKml content"
    by (auto simp: handleFileContent_def Let_def split: sum.splits option.splits if_splits)
next
  assume "fst (handleFileContent env content source) = Inr (GPXLayer s v opacity c m)"
  then show "isGpx content"
    by (auto simp: handleFileContent_def Let_def split: sum.splits option.splits if_splits)
qed

text \<open>
  Claim C10, as the claim states it, fails: the content \<open><kml></kml><gpx></gpx>\<close> passes
  both sniffs, and \<open>handleFileContent\<close> returns no KMLLayer for it: the document has no
  feature, so the KML branch throws \<open>EmptyKMLError\<close>.
\<close>

theorem both_sniffs_empty_kml_throws:
  "isKml empty_kml_gpx \<and> isGpx empty_kml_gpx
   \<and> handleFileContent example_import_env empty_kml_gpx ''both.xml'' = (Inl EmptyKMLError, [])"
  by (simp add: sniff_examples handleFileContent_def getKmlExtent_def example_reads
      emptyExtent_isEmpty)

theorem kml_branch_first_witness:
  "isKml point_kml_gpx \<and> isGpx point_kml_gpx
   \<and> fst (handleFileContent example_import_env point_kml_gpx ''both.xml'')
       = Inr (KMLLayer ''both.xml'' True 1 None point_kml_gpx)
   \<and> fst (handleFileContent example_import_env gpx_only ''track.gpx'')
       = Inr (GPXLayer ''track.gpx'' True 1 gpx_only ''track'')
   \<and> \<not> isKml gpx_only \<and> isGpx gpx_only"
proof -
  have both: "isKml point_kml_gpx \<and> isGpx point_kml_gpx"
    by (simp add: sniff_examples)
  have g: "fst (handleFileContent example_import_env gpx_only ''track.gpx'')
       = Inr (GPXLayer ''track.gpx'' True 1 gpx_only ''track'')"
    by (simp add: handleFileContent_def sniff_more Let_def example_import_env_def)
  have r: "fst (handleFileContent example_import_env point_kml_gpx ''both.xml'')
       = Inr (projr (fst (handleFileContent example_import_env point_kml_gpx ''both.xml'')))"
    by (simp add: handleFileContent_def sniff_examples getKmlExtent_def example_reads
        plain_feature_def example_point_def box_def extendExtent_def emptyExtent_def
        isExtentEmpty_def less_bound_def Let_def example_import_env_def)
  note K = kml_branch_first [of point_kml_gpx example_import_env "''both.xml''",
      THEN conjunct1, rule_format, OF both, THEN conjunct1, rule_format, OF r]
  note G = kml_branch_first [of gpx_only example_import_env "''track.gpx''"
      "''track.gpx''" True 1 gpx_only "''track''", THEN conjunct2, rule_format, OF g]
  show ?thesis
    using both r K G g by simp
qed

section \<open>Properties of the icon URL parser\<close>

subsection \<open>What the matcher lists\<close>

lemma in_run_Lit [simp]:
  "(c', s') \<in> set (run (Lit l) (c, s)) \<longleftrightarrow> c' = c \<and> s = l @ s'"
proof
  assume "(c', s') \<in> set (run (Lit l) (c, s))"
  then have "c' = c" "take (length l) s = l" "s' = drop (length l) s"
    by (auto split: if_splits)
  then show "c' = c \<and> s = l @ s'"
    by (metis append_take_drop_id)
next
  assume "c' = c \<and> s = l @ s'"
  then show "(c', s') \<in> set (run (Lit l) (c, s))" by simp
qed

lemma takeWhile_all_prefix:
  "n \<le> length (takeWhile P s) \<Longrightarrow> list_all P (take n s)"
proof -
  assume n: "n \<le> length (takeWhile P s)"
  have "take n s = take n (takeWhile P s)"
    by (metis n append_eq_conv_conj takeWhile_dropWhile_id take_all_iff take_append take_take min.absorb1 append_take_drop_id)
  then show ?thesis
    by (metis list_all_iff in_set_takeD set_takeWhileD)
qed

lemma class_run_bound:
  "n \<le> class_run k s \<longleftrightarrow> n \<le> length s \<and> list_all (in_class k) (take n s)"
proof
  assume n: "n \<le> class_run k s"
  have "class_run k s \<le> length s"
    by (simp add: class_run_def length_takeWhile_le)
  with n takeWhile_all_prefix [of n "in_class k" s]
  show "n \<le> length s \<and> list_all (in_class k) (take n s)"
    by (simp add: class_run_def)
next
  assume h: "n \<le> length s \<and> list_all (in_class k) (take n s)"
  have "takeWhile (in_class k) (take n s @ drop n s) = take n s @ takeWhile (in_class k) (drop n s)"
    using h by (intro takeWhile_append2) (simp add: list_all_iff)
  then have "length (takeWhile (in_class k) s) \<ge> length (take n s)"
    by simp
  with h show "n \<le> class_run k s" by (simp add: class_run_def)
qed

lemma set_run_Plus:
  "set (run (Plus k) (c, s)) = (\<lambda>n. (c, drop n s)) ` {n. 1 \<le> n \<and> n \<le> class_run k s}"
proof -
  have "set (rev [1..<Suc (class_run k s)]) = {n. 1 \<le> n \<and> n \<le> class_run k s}" by auto
  then show ?thesis unfolding run.simps set_map by (rule arg_cong)
qed

lemma set_run_Star:
  "set (run (Star k) (c, s)) = (\<lambda>n. (c, drop n s)) ` {n. n \<le> class_run k s}"
proof -
  have "set (rev [0..<Suc (class_run k s)]) = {n. n \<le> class_run k s}" by auto
  then show ?thesis unfolding run.simps set_map by (rule arg_cong)
qed

lemma in_run_Plus [simp]:
  "(c', s') \<in> set (run (Plus k) (c, s)) \<longleftrightarrow> c' = c \<and> (\<exists>w. class_word k w \<and> s = w @ s')"
proof
  assume "(c', s') \<in> set (run (Plus k) (c, s))"
  then obtain n where n: "1 \<le> n" "n \<le> class_run k s" and c: "c' = c" and s: "s' = drop n s"
    unfolding set_run_Plus by auto
  from n have "class_word k (take n s)"
    by (auto simp: class_run_bound class_word_def)
  with c s show "c' = c \<and> (\<exists>w. class_word k w \<and> s = w @ s')"
    by (metis append_take_drop_id)
next
  assume "c' = c \<and> (\<exists>w. class_word k w \<and> s = w @ s')"
  then obtain w where w: "class_word k w" "s = w @ s'" and c: "c' = c" by blast
  then have "length w \<le> class_run k s" "1 \<le> length w"
    by (auto simp: class_run_bound class_word_def Suc_le_eq)
  moreover have "(c', s') = (c, drop (length w) s)" using w c by simp
  ultimately show "(c', s') \<in> set (run (Plus k) (c, s))"
    unfolding set_run_Plus by blast
qed

lemma in_run_PlusLazy [simp]:
  "(c', s') \<in> set (run (PlusLazy k) (c, s)) \<longleftrightarrow> c' = c \<and> (\<exists>w. class_word k w \<and> s = w @ s')"
proof -
  have "set (run (PlusLazy k) (c, s)) = set (run (Plus k) (c, s))" by simp
  then show ?thesis using in_run_Plus by simp
qed

lemma in_run_Star [simp]:
  "(c', s') \<in> set (run (Star k) (c, s)) \<longleftrightarrow> c' = c \<and> (\<exists>w. list_all (in_class k) w \<and> s = w @ s')"
proof
  assume "(c', s') \<in> set (run (Star k) (c, s))"
  then obtain n where n: "n \<le> class_run k s" and c: "c' = c" and s: "s' = drop n s"
    unfolding set_run_Star by auto
  from n have "list_all (in_class k) (take n s)"
    by (auto simp: class_run_bound)
  with c s show "c' = c \<and> (\<exists>w. list_all (in_class k) w \<and> s = w @ s')"
    by (metis append_take_drop_id)
next
  assume "c' = c \<and> (\<exists>w. list_all (in_class k) w \<and> s = w @ s')"
  then obtain w where w: "list_all (in_class k) w" "s = w @ s'" and c: "c' = c" by blast
  then have "length w \<le> class_run k s"
    by (auto simp: class_run_bound)
  moreover have "(c', s') = (c, drop (length w) s)" using w c by simp
  ultimately show "(c', s') \<in> set (run (Star k) (c, s))"
    unfolding set_run_Star by blast
qed

lemma in_run_Eol [simp]:
  "(c', s') \<in> set (run Eol (c, s)) \<longleftrightarrow> c' = c \<and> s = [] \<and> s' = []"
  by auto

lemma in_run_Opt [simp]:
  "x \<in> set (run (Opt re) st) \<longleftrightarrow> x \<in> set (run re st) \<or> x = st"
  by auto

lemma in_run_Cat [simp]:
  "x \<in> set (run (Cat res) st) \<longleftrightarrow> x \<in> set (run_seq res st)"
  by simp

lemma in_run_seq_Nil [simp]: "x \<in> set (run_seq [] st) \<longleftrightarrow> x = st"
  by simp

lemma in_run_seq_Cons [simp]:
  "x \<in> set (run_seq (re # res) st)
     \<longleftrightarrow> (\<exists>c1 s1. (c1, s1) \<in> set (run re st) \<and> x \<in> set (run_seq res (c1, s1)))"
  by auto

lemma in_run_Group:
  "(c', s') \<in> set (run (Group name re) (c, s))
     \<longleftrightarrow> (\<exists>c1. (c1, s') \<in> set (run re (c, s)) \<and> c' = c1(name \<mapsto> take (length s - length s') s))"
  by (force simp: image_iff)

declare run.simps [simp del] run_seq.simps [simp del]

lemma in_run_Group_Plus [simp]:
  "(c', s') \<in> set (run (Group name (Plus k)) (c, s))
     \<longleftrightarrow> (\<exists>w. s = w @ s' \<and> c' = c(name \<mapsto> w) \<and> class_word k w)"
  by (auto simp: in_run_Group simp del: fun_upd_apply)

lemma in_run_Group_PlusLazy [simp]:
  "(c', s') \<in> set (run (Group name (PlusLazy k)) (c, s))
     \<longleftrightarrow> (\<exists>w. s = w @ s' \<and> c' = c(name \<mapsto> w) \<and> class_word k w)"
  by (auto simp: in_run_Group simp del: fun_upd_apply)

lemma class_word_notin: "class_word k w \<Longrightarrow> \<not> in_class k c \<Longrightarrow> c \<notin> set w"
  by (auto simp: class_word_def list_all_iff)

lemma dot_not_digit: "\<not> in_class Digit (CHR ''.'')"
  by simp

lemma decimal_word_iff:
  "decimal_word w \<longleftrightarrow> (class_word Digit w
      \<or> (\<exists>a b. w = a @ ''.'' @ b \<and> class_word Digit a \<and> class_word Digit b))"
proof
  assume d: "decimal_word w"
  define a where "a = takeWhile (\<lambda>c. c \<noteq> CHR ''.'') w"
  define r where "r = dropWhile (\<lambda>c. c \<noteq> CHR ''.'') w"
  from d have a: "class_word Digit a" and r: "r = [] \<or> class_word Digit (tl r)"
    by (simp_all add: decimal_word_def Let_def a_def r_def)
  have w: "w = a @ r" by (simp add: a_def r_def)
  show "class_word Digit w \<or> (\<exists>a b. w = a @ ''.'' @ b \<and> class_word Digit a \<and> class_word Digit b)"
  proof (cases r)
    case Nil
    with w a show ?thesis by simp
  next
    case (Cons x r')
    then have "r \<noteq> []" by simp
    then have "\<not> hd r \<noteq> CHR ''.''" unfolding r_def by (rule hd_dropWhile)
    with Cons have "x = CHR ''.''" by simp
    with Cons w have "w = a @ ''.'' @ r'" by simp
    moreover from r Cons have "class_word Digit r'" by simp
    ultimately show ?thesis using a by blast
  qed
next
  assume "class_word Digit w \<or> (\<exists>a b. w = a @ ''.'' @ b \<and> class_word Digit a \<and> class_word Digit b)"
  then show "decimal_word w"
  proof (elim disjE exE conjE)
    assume w: "class_word Digit w"
    then have "CHR ''.'' \<notin> set w" using dot_not_digit by (rule class_word_notin)
    then have tw: "takeWhile (\<lambda>c. c \<noteq> CHR ''.'') w = w"
      and dw: "dropWhile (\<lambda>c. c \<noteq> CHR ''.'') w = []"
      by auto
    show ?thesis unfolding decimal_word_def Let_def tw dw using w by simp
  next
    fix a b assume w: "w = a @ ''.'' @ b" and a: "class_word Digit a" and b: "class_word Digit b"
    from a have "CHR ''.'' \<notin> set a" using dot_not_digit by (rule class_word_notin)
    then have "\<forall>c\<in>set a. c \<noteq> CHR ''.''" by auto
    then have tw: "takeWhile (\<lambda>c. c \<noteq> CHR ''.'') w = a"
      and dw: "dropWhile (\<lambda>c. c \<noteq> CHR ''.'') w = ''.'' @ b"
      unfolding w by (simp_all add: takeWhile_tail dropWhile_append3)
    show ?thesis unfolding decimal_word_def Let_def tw dw using a b by simp
  qed
qed

lemma in_run_Group_decimal [simp]:
  "(c', s') \<in> set (run (Group name (Cat [Plus Digit, Opt (Cat [Lit ''.'', Plus Digit])])) (c, s))
     \<longleftrightarrow> (\<exists>w. s = w @ s' \<and> c' = c(name \<mapsto> w) \<and> decimal_word w)"
proof
  assume "(c', s') \<in> set (run (Group name (Cat [Plus Digit, Opt (Cat [Lit ''.'', Plus Digit])])) (c, s))"
  then consider (int) a where "s = a @ s'" "class_word Digit a"
                  "c' = c(name \<mapsto> take (length s - length s') s)"
    | (frac) a b where "s = a @ ''.'' @ b @ s'" "class_word Digit a" "class_word Digit b"
                  "c' = c(name \<mapsto> take (length s - length s') s)"
    by (auto simp: in_run_Group simp del: fun_upd_apply)
  then show "\<exists>w. s = w @ s' \<and> c' = c(name \<mapsto> w) \<and> decimal_word w"
  proof cases
    case int
    then show ?thesis by (intro exI [of _ a]) (simp add: decimal_word_iff)
  next
    case frac
    then have "take (length s - length s') s = a @ ''.'' @ b" by simp
    with frac show ?thesis
      by (intro exI [of _ "a @ ''.'' @ b"]) (auto simp: decimal_word_iff simp del: fun_upd_apply)
  qed
next
  assume "\<exists>w. s = w @ s' \<and> c' = c(name \<mapsto> w) \<and> decimal_word w"
  then obtain w where w: "s = w @ s'" "c' = c(name \<mapsto> w)" "decimal_word w" by blast
  from w(3) show "(c', s') \<in> set (run (Group name (Cat [Plus Digit, Opt (Cat [Lit ''.'', Plus Digit])])) (c, s))"
    unfolding decimal_word_iff
  proof (elim disjE exE conjE)
    assume "class_word Digit w"
    with w show ?thesis
      by (auto simp: in_run_Group simp del: fun_upd_apply)
  next
    fix a b assume "w = a @ ''.'' @ b" "class_word Digit a" "class_word Digit b"
    with w show ?thesis
      by (auto simp: in_run_Group simp del: fun_upd_apply)
  qed
qed

lemma legacyDefault_match:
  "(c', s') \<in> set (run legacyDefaultRegex (c, s)) \<longleftrightarrow>
     (\<exists>r g b name sz scale.
        s = ''color/'' @ r @ '','' @ g @ '','' @ b @ ''/'' @ name @ ''-'' @ sz @ ''@'' @ scale @ ''x.png''
        \<and> s' = []
        \<and> c' = c(''r'' \<mapsto> r, ''g'' \<mapsto> g, ''b'' \<mapsto> b, ''name'' \<mapsto> name, ''size'' \<mapsto> sz,
                 ''scale'' \<mapsto> scale)
        \<and> class_word Digit r \<and> class_word Digit g \<and> class_word Digit b \<and> class_word NotSlash name
        \<and> class_word Digit sz \<and> class_word Digit scale)"
  apply (simp add: legacyDefaultRegex_def del: fun_upd_apply)
  apply (rule iffI)
   apply (elim exE conjE)
   apply hypsubst
   apply (intro exI conjI; (rule refl | assumption))
  apply (elim exE conjE)
  apply hypsubst
  apply (intro exI conjI; (rule refl | assumption))
  done

lemma legacySet_match:
  "(c', s') \<in> set (run legacySetRegex (c, s)) \<longleftrightarrow>
     (\<exists>st name.
        s = ''images/'' @ st @ ''/'' @ name @ ''.png''
        \<and> s' = []
        \<and> c' = c(''set'' \<mapsto> st, ''name'' \<mapsto> name)
        \<and> class_word Word st \<and> class_word NotSlash name)"
  apply (simp add: legacySetRegex_def del: fun_upd_apply)
  apply (rule iffI)
   apply (elim exE conjE)
   apply hypsubst
   apply (intro exI conjI; (rule refl | assumption))
  apply (elim exE conjE)
  apply hypsubst
  apply (intro exI conjI; (rule refl | assumption))
  done

lemma set_match:
  "(c', s') \<in> set (run setRegex (c, s)) \<longleftrightarrow>
     (\<exists>st name scale r g b.
        s = ''api/icons/sets/'' @ st @ ''/icons/'' @ name @ ''@'' @ scale @ ''x-'' @ r @ '',''
              @ g @ '','' @ b @ ''.png'' @ s'
        \<and> c' = c(''set'' \<mapsto> st, ''name'' \<mapsto> name, ''scale'' \<mapsto> scale, ''r'' \<mapsto> r,
                 ''g'' \<mapsto> g, ''b'' \<mapsto> b)
        \<and> class_word Word st \<and> class_word AnyChar name \<and> decimal_word scale
        \<and> class_word Digit r \<and> class_word Digit g \<and> class_word Digit b)"
  apply (simp add: setRegex_def del: fun_upd_apply)
  apply (rule iffI)
   apply (elim exE conjE)
   apply hypsubst
   apply (intro exI conjI; (rule refl | assumption))
  apply (elim exE conjE)
  apply hypsubst
  apply (intro exI conjI; (rule refl | assumption))
  done

subsection \<open>What exec returns\<close>

lemma all_le_Suc_split:
  "(\<forall>k\<le>Suc n. Q k) \<longleftrightarrow> Q 0 \<and> (\<forall>k\<le>n. Q (Suc k))"
proof
  assume "\<forall>k\<le>Suc n. Q k"
  then show "Q 0 \<and> (\<forall>k\<le>n. Q (Suc k))" by simp
next
  assume h: "Q 0 \<and> (\<forall>k\<le>n. Q (Suc k))"
  show "\<forall>k\<le>Suc n. Q k"
  proof (intro allI impI)
    fix k assume "k \<le> Suc n"
    with h show "Q k" by (cases k) simp_all
  qed
qed

lemma exec_None_iff:
  "exec re s = None \<longleftrightarrow> (\<forall>k\<le>length s. run re (Map.empty, drop k s) = [])"
proof (induction s)
  case Nil
  show ?case by (simp add: match_at_def split: list.splits)
next
  case (Cons x xs)
  have "(\<forall>k\<le>length (x # xs). run re (Map.empty, drop k (x # xs)) = [])
      \<longleftrightarrow> run re (Map.empty, x # xs) = [] \<and> (\<forall>k\<le>length xs. run re (Map.empty, drop k xs) = [])"
    using all_le_Suc_split [of "length xs" "\<lambda>k. run re (Map.empty, drop k (x # xs)) = []"]
    by simp
  moreover have "exec re (x # xs) = None
      \<longleftrightarrow> run re (Map.empty, x # xs) = [] \<and> exec re xs = None"
    by (simp add: match_at_def split: list.splits option.splits)
  ultimately show ?case using Cons.IH by simp
qed

lemma exec_Some_from:
  "exec re s = Some c \<Longrightarrow> \<exists>k\<le>length s. \<exists>s'. (c, s') \<in> set (run re (Map.empty, drop k s))"
proof (induction s)
  case Nil
  then show ?case by (auto simp: match_at_def split: list.splits)
next
  case (Cons x xs)
  show ?case
  proof (cases "match_at re (x # xs)")
    case None
    with Cons.prems have "exec re xs = Some c" by simp
    from Cons.IH [OF this] obtain k s' where "k \<le> length xs"
        "(c, s') \<in> set (run re (Map.empty, drop k xs))" by blast
    then have "Suc k \<le> length (x # xs)"
        "(c, s') \<in> set (run re (Map.empty, drop (Suc k) (x # xs)))" by simp_all
    then show ?thesis by blast
  next
    case (Some m)
    with Cons.prems have "m = c" by simp
    with Some obtain s' where "(c, s') \<in> set (run re (Map.empty, drop 0 (x # xs)))"
      by (auto simp: match_at_def split: list.splits)
    then show ?thesis by blast
  qed
qed

lemma exec_unique:
  assumes "k0 \<le> length s" and "run re (Map.empty, drop k0 s) \<noteq> []"
    and "\<And>k c' s'. k \<le> length s \<Longrightarrow> (c', s') \<in> set (run re (Map.empty, drop k s)) \<Longrightarrow> P c'"
  shows "\<exists>c. exec re s = Some c \<and> P c"
proof -
  from assms(1,2) have "exec re s \<noteq> None" by (auto simp: exec_None_iff)
  then obtain c where c: "exec re s = Some c" by blast
  from exec_Some_from [OF c] assms(3) have "P c" by blast
  with c show ?thesis by blast
qed

lemma exec_None_intro:
  assumes "\<And>k c' s'. k \<le> length s \<Longrightarrow> (c', s') \<in> set (run re (Map.empty, drop k s)) \<Longrightarrow> False"
  shows "exec re s = None"
proof -
  have "run re (Map.empty, drop k s) = []" if "k \<le> length s" for k
  proof (cases "run re (Map.empty, drop k s)")
    case Nil
    then show ?thesis .
  next
    case (Cons a list)
    then have "(fst a, snd a) \<in> set (run re (Map.empty, drop k s))" by simp
    with assms that show ?thesis by blast
  qed
  then show ?thesis by (simp add: exec_None_iff)
qed

subsection \<open>Splitting a string at a separator\<close>

lemma first_sep_unique:
  assumes "w @ c # xs = v @ c # ys" "c \<notin> set w" "c \<notin> set v"
  shows "w = v \<and> xs = ys"
proof -
  have "takeWhile (\<lambda>x. x \<noteq> c) (w @ c # xs) = w" "takeWhile (\<lambda>x. x \<noteq> c) (v @ c # ys) = v"
    using assms(2,3) by (auto simp: takeWhile_tail)
  with assms(1) have "w = v" by simp
  with assms(1) show ?thesis by simp
qed

lemma first_sep_clash:
  assumes "w @ c # xs = v @ d # ys" "c \<noteq> d" "c \<notin> set v" "d \<notin> set w"
  shows False
proof -
  have "takeWhile (\<lambda>x. x \<noteq> c \<and> x \<noteq> d) (w @ c # xs) = takeWhile (\<lambda>x. x \<noteq> c \<and> x \<noteq> d) w"
    by (simp add: takeWhile_tail)
  moreover have "takeWhile (\<lambda>x. x \<noteq> c \<and> x \<noteq> d) (v @ d # ys) = takeWhile (\<lambda>x. x \<noteq> c \<and> x \<noteq> d) v"
    by (simp add: takeWhile_tail)
  ultimately have tw: "takeWhile (\<lambda>x. x \<noteq> c \<and> x \<noteq> d) w = takeWhile (\<lambda>x. x \<noteq> c \<and> x \<noteq> d) v"
    using assms(1) by simp
  from assms(1) consider us where "w = v @ us" "us @ c # xs = d # ys"
    | us where "w @ us = v" "c # xs = us @ d # ys"
    by (auto simp: append_eq_append_conv2)
  then show False
  proof cases
    case 1
    show False
    proof (cases us)
      case Nil
      with 1 assms(2) show False by simp
    next
      case (Cons u us')
      with 1 have "u = d" by simp
      with Cons 1 assms(4) show False by simp
    qed
  next
    case 2
    show False
    proof (cases us)
      case Nil
      with 2 assms(2) show False by simp
    next
      case (Cons u us')
      with 2 have "u = c" by simp
      with Cons 2 assms(3) show False by auto
    qed
  qed
qed

lemma first_sep_only:
  assumes "w @ c # xs = v @ c # ys" "c \<notin> set v" "c \<notin> set ys"
  shows "w = v \<and> xs = ys"
proof -
  from assms(1) consider us where "w = v @ us" "us @ c # xs = c # ys"
    | us where "w @ us = v" "c # xs = us @ c # ys"
    by (auto simp: append_eq_append_conv2)
  then show ?thesis
  proof cases
    case 1
    show ?thesis
    proof (cases us)
      case Nil
      with 1 show ?thesis by simp
    next
      case (Cons u us')
      with 1 have "ys = us' @ c # xs" by simp
      with assms(3) show ?thesis by simp
    qed
  next
    case 2
    show ?thesis
    proof (cases us)
      case Nil
      with 2 show ?thesis by simp
    next
      case (Cons u us')
      with 2 have "u = c" by simp
      with Cons 2 assms(2) show ?thesis by auto
    qed
  qed
qed

lemma last_sep_unique:
  assumes "xs @ c # w @ t = ys @ c # v @ t" "c \<notin> set w" "c \<notin> set v"
  shows "xs = ys \<and> w = v"
proof -
  from assms(1) have "(xs @ c # w) @ t = (ys @ c # v) @ t" by simp
  then have "xs @ c # w = ys @ c # v" by (simp only: append_same_eq)
  then have "rev (xs @ c # w) = rev (ys @ c # v)" by simp
  then have "rev w @ c # rev xs = rev v @ c # rev ys" by simp
  from first_sep_unique [OF this] assms(2,3) show ?thesis by simp
qed

lemma last_sep_clash:
  assumes "xs @ c # w @ t = ys @ d # v @ t" "c \<noteq> d" "c \<notin> set v" "d \<notin> set w"
  shows False
proof -
  from assms(1) have "(xs @ c # w) @ t = (ys @ d # v) @ t" by simp
  then have "xs @ c # w = ys @ d # v" by (simp only: append_same_eq)
  then have "rev (xs @ c # w) = rev (ys @ d # v)" by simp
  then have "rev w @ c # rev xs = rev v @ d # rev ys" by simp
  from first_sep_clash [OF this assms(2)] assms(3,4) show False by simp
qed

lemma suffix_past_sep:
  assumes "xs @ w = ys @ c # s" "c \<notin> set w"
  shows "ends_with w s"
proof -
  from assms(1) consider us where "xs = ys @ us" "us @ w = c # s"
    | us where "xs @ us = ys" "w = us @ c # s"
    by (auto simp: append_eq_append_conv2)
  then show ?thesis
  proof cases
    case 1
    show ?thesis
    proof (cases us)
      case Nil
      with 1 assms(2) show ?thesis by auto
    next
      case (Cons u us')
      with 1 have "s = us' @ w" by simp
      then show ?thesis by (simp add: ends_with_def)
    qed
  next
    case 2
    with assms(2) show ?thesis by simp
  qed
qed

lemma decimal_word_chars:
  "decimal_word w \<Longrightarrow> \<not> in_class Digit c \<Longrightarrow> c \<noteq> CHR ''.'' \<Longrightarrow> c \<notin> set w"
  by (auto simp: decimal_word_iff class_word_def list_all_iff)

subsection \<open>The legacy colored grammar\<close>

lemma digit_word_seps:
  assumes "class_word Digit w"
  shows "CHR ''@'' \<notin> set w" "CHR ''-'' \<notin> set w" "CHR ''/'' \<notin> set w" "CHR '','' \<notin> set w"
    "CHR ''x'' \<notin> set w" "CHR ''.'' \<notin> set w"
  by (rule class_word_notin [OF assms], simp)+

lemma word_word_seps:
  assumes "class_word Word w"
  shows "CHR ''/'' \<notin> set w" "CHR '','' \<notin> set w"
  by (rule class_word_notin [OF assms], simp)+

lemma notslash_word_sep:
  assumes "class_word NotSlash w"
  shows "CHR ''/'' \<notin> set w"
  by (rule class_word_notin [OF assms], simp)

lemma decimal_word_seps:
  assumes "decimal_word w"
  shows "CHR ''@'' \<notin> set w" "CHR ''/'' \<notin> set w" "CHR '','' \<notin> set w" "CHR ''x'' \<notin> set w"
  by (rule decimal_word_chars [OF assms], simp, simp)+

lemma legacyDefault_matchE:
  assumes "(c', s') \<in> set (run legacyDefaultRegex (c, s))"
  obtains r g b name sz scale where
    "s = ''color/'' @ r @ '','' @ g @ '','' @ b @ ''/'' @ name @ ''-'' @ sz @ ''@'' @ scale @ ''x.png''"
    "c' = c(''r'' \<mapsto> r, ''g'' \<mapsto> g, ''b'' \<mapsto> b, ''name'' \<mapsto> name, ''size'' \<mapsto> sz,
             ''scale'' \<mapsto> scale)"
    "class_word Digit r" "class_word Digit g" "class_word Digit b" "class_word NotSlash name"
    "class_word Digit sz" "class_word Digit scale"
  using assms unfolding legacyDefault_match
  by (elim exE conjE) (rule that; assumption)

lemma legacyDefault_groups:
  assumes r: "class_word Digit r" and g: "class_word Digit g" and b: "class_word Digit b"
    and name: "class_word NotSlash name" and sz: "class_word Digit sz"
    and scale: "class_word Digit scale"
  shows "\<exists>c. exec legacyDefaultRegex (legacyColoredUrl pre r g b name sz scale) = Some c
           \<and> c ''r'' = Some r \<and> c ''g'' = Some g \<and> c ''b'' = Some b
           \<and> c ''name'' = Some name \<and> c ''set'' = None"
proof (rule exec_unique [where ?k0.0 = "length pre"])
  let ?url = "legacyColoredUrl pre r g b name sz scale"
  show "length pre \<le> length ?url" by (simp add: legacyColoredUrl_def)
  have dr: "drop (length pre) ?url
      = ''color/'' @ r @ '','' @ g @ '','' @ b @ ''/'' @ name @ ''-'' @ sz @ ''@'' @ scale @ ''x.png''"
    by (simp add: legacyColoredUrl_def)
  have "(Map.empty(''r'' \<mapsto> r, ''g'' \<mapsto> g, ''b'' \<mapsto> b, ''name'' \<mapsto> name, ''size'' \<mapsto> sz,
            ''scale'' \<mapsto> scale), [])
        \<in> set (run legacyDefaultRegex (Map.empty, drop (length pre) ?url))"
    unfolding dr legacyDefault_match
    by (rule exI [of _ r], rule exI [of _ g], rule exI [of _ b], rule exI [of _ name],
        rule exI [of _ sz], rule exI [of _ scale], intro conjI refl r g b name sz scale)
  then show "run legacyDefaultRegex (Map.empty, drop (length pre) ?url) \<noteq> []" by auto
next
  let ?url = "legacyColoredUrl pre r g b name sz scale"
  fix k c' s'
  assume k: "k \<le> length ?url"
    and m: "(c', s') \<in> set (run legacyDefaultRegex (Map.empty, drop k ?url))"
  from m obtain r' g' b' name' sz' scale' where
    d: "drop k ?url = ''color/'' @ r' @ '','' @ g' @ '','' @ b' @ ''/'' @ name' @ ''-'' @ sz'
          @ ''@'' @ scale' @ ''x.png''"
    and c': "c' = Map.empty(''r'' \<mapsto> r', ''g'' \<mapsto> g', ''b'' \<mapsto> b', ''name'' \<mapsto> name',
          ''size'' \<mapsto> sz', ''scale'' \<mapsto> scale')"
    and v: "class_word Digit r'" "class_word Digit g'" "class_word Digit b'"
      "class_word NotSlash name'" "class_word Digit sz'" "class_word Digit scale'"
    by (rule legacyDefault_matchE)
  have "take k ?url @ drop k ?url = ?url" by simp
  then have E: "take k ?url @ ''color/'' @ r' @ '','' @ g' @ '','' @ b' @ ''/'' @ name' @ ''-'' @ sz'
          @ ''@'' @ scale' @ ''x.png''
      = pre @ ''color/'' @ r @ '','' @ g @ '','' @ b @ ''/'' @ name @ ''-'' @ sz
          @ ''@'' @ scale @ ''x.png''"
    unfolding d by (simp add: legacyColoredUrl_def)
  have "(take k ?url @ ''color/'' @ r' @ '','' @ g' @ '','' @ b' @ ''/'' @ name' @ ''-'' @ sz')
          @ CHR ''@'' # scale' @ ''x.png''
      = (pre @ ''color/'' @ r @ '','' @ g @ '','' @ b @ ''/'' @ name @ ''-'' @ sz)
          @ CHR ''@'' # scale @ ''x.png''"
    using E by simp
  from last_sep_unique [OF this digit_word_seps(1) [OF v(6)] digit_word_seps(1) [OF scale]]
  have E1: "take k ?url @ ''color/'' @ r' @ '','' @ g' @ '','' @ b' @ ''/'' @ name' @ ''-'' @ sz'
      = pre @ ''color/'' @ r @ '','' @ g @ '','' @ b @ ''/'' @ name @ ''-'' @ sz" by simp
  have "(take k ?url @ ''color/'' @ r' @ '','' @ g' @ '','' @ b' @ ''/'' @ name')
          @ CHR ''-'' # sz' @ []
      = (pre @ ''color/'' @ r @ '','' @ g @ '','' @ b @ ''/'' @ name) @ CHR ''-'' # sz @ []"
    using E1 by simp
  from last_sep_unique [OF this digit_word_seps(2) [OF v(5)] digit_word_seps(2) [OF sz]]
  have E2: "take k ?url @ ''color/'' @ r' @ '','' @ g' @ '','' @ b' @ ''/'' @ name'
      = pre @ ''color/'' @ r @ '','' @ g @ '','' @ b @ ''/'' @ name" by simp
  have "(take k ?url @ ''color/'' @ r' @ '','' @ g' @ '','' @ b') @ CHR ''/'' # name' @ []
      = (pre @ ''color/'' @ r @ '','' @ g @ '','' @ b) @ CHR ''/'' # name @ []"
    using E2 by simp
  from last_sep_unique [OF this notslash_word_sep [OF v(4)] notslash_word_sep [OF name]]
  have n: "name' = name"
    and E3: "take k ?url @ ''color/'' @ r' @ '','' @ g' @ '','' @ b'
      = pre @ ''color/'' @ r @ '','' @ g @ '','' @ b" by simp_all
  have "(take k ?url @ ''color/'' @ r' @ '','' @ g') @ CHR '','' # b' @ []
      = (pre @ ''color/'' @ r @ '','' @ g) @ CHR '','' # b @ []"
    using E3 by simp
  from last_sep_unique [OF this digit_word_seps(4) [OF v(3)] digit_word_seps(4) [OF b]]
  have bb: "b' = b"
    and E4: "take k ?url @ ''color/'' @ r' @ '','' @ g' = pre @ ''color/'' @ r @ '','' @ g"
    by simp_all
  have "(take k ?url @ ''color/'' @ r') @ CHR '','' # g' @ []
      = (pre @ ''color/'' @ r) @ CHR '','' # g @ []"
    using E4 by simp
  from last_sep_unique [OF this digit_word_seps(4) [OF v(2)] digit_word_seps(4) [OF g]]
  have gg: "g' = g"
    and E5: "take k ?url @ ''color/'' @ r' = pre @ ''color/'' @ r"
    by simp_all
  have "(take k ?url @ ''color'') @ CHR ''/'' # r' @ [] = (pre @ ''color'') @ CHR ''/'' # r @ []"
    using E5 by simp
  from last_sep_unique [OF this digit_word_seps(3) [OF v(1)] digit_word_seps(3) [OF r]]
  have rr: "r' = r" by simp
  show "c' ''r'' = Some r \<and> c' ''g'' = Some g \<and> c' ''b'' = Some b
           \<and> c' ''name'' = Some name \<and> c' ''set'' = None"
    unfolding c' by (simp add: rr gg bb n)
qed

lemma legacySet_matchE:
  assumes "(c', s') \<in> set (run legacySetRegex (c, s))"
  obtains st name where
    "s = ''images/'' @ st @ ''/'' @ name @ ''.png''"
    "c' = c(''set'' \<mapsto> st, ''name'' \<mapsto> name)"
    "class_word Word st" "class_word NotSlash name"
  using assms unfolding legacySet_match
  by (elim exE conjE) (rule that; assumption)

lemma set_matchE:
  assumes "(c', s') \<in> set (run setRegex (c, s))"
  obtains st name scale r g b where
    "s = ''api/icons/sets/'' @ st @ ''/icons/'' @ name @ ''@'' @ scale @ ''x-'' @ r @ '',''
           @ g @ '','' @ b @ ''.png'' @ s'"
    "c' = c(''set'' \<mapsto> st, ''name'' \<mapsto> name, ''scale'' \<mapsto> scale, ''r'' \<mapsto> r,
             ''g'' \<mapsto> g, ''b'' \<mapsto> b)"
    "class_word Word st" "class_word AnyChar name" "decimal_word scale"
    "class_word Digit r" "class_word Digit g" "class_word Digit b"
  using assms unfolding set_match
  by (elim exE conjE) (rule that; assumption)

subsection \<open>The legacy set-based grammar\<close>

lemma legacyDefault_none_on_legacySet:
  assumes st: "class_word Word st" and name: "class_word NotSlash name"
  shows "exec legacyDefaultRegex (legacySetUrl pre st name) = None"
proof (rule exec_None_intro)
  let ?url = "legacySetUrl pre st name"
  fix k c' s'
  assume k: "k \<le> length ?url"
    and m: "(c', s') \<in> set (run legacyDefaultRegex (Map.empty, drop k ?url))"
  from m obtain r' g' b' name' sz' scale' where
    d: "drop k ?url = ''color/'' @ r' @ '','' @ g' @ '','' @ b' @ ''/'' @ name' @ ''-'' @ sz'
          @ ''@'' @ scale' @ ''x.png''"
    and v: "class_word Digit r'" "class_word Digit g'" "class_word Digit b'"
      "class_word NotSlash name'" "class_word Digit sz'" "class_word Digit scale'"
    by (rule legacyDefault_matchE)
  have "take k ?url @ drop k ?url = ?url" by simp
  then have E: "take k ?url @ ''color/'' @ r' @ '','' @ g' @ '','' @ b' @ ''/'' @ name' @ ''-'' @ sz'
          @ ''@'' @ scale' @ ''x.png''
      = pre @ ''images/'' @ st @ ''/'' @ name @ ''.png''"
    unfolding d by (simp add: legacySetUrl_def)
  have w: "CHR ''/'' \<notin> set (name' @ ''-'' @ sz' @ ''@'' @ scale' @ ''x'')"
    using notslash_word_sep [OF v(4)] digit_word_seps(3) [OF v(5)] digit_word_seps(3) [OF v(6)]
    by simp
  have "(take k ?url @ ''color/'' @ r' @ '','' @ g' @ '','' @ b')
          @ CHR ''/'' # (name' @ ''-'' @ sz' @ ''@'' @ scale' @ ''x'') @ ''.png''
      = (pre @ ''images/'' @ st) @ CHR ''/'' # name @ ''.png''"
    using E by simp
  from last_sep_unique [OF this w notslash_word_sep [OF name]]
  have E1: "take k ?url @ ''color/'' @ r' @ '','' @ g' @ '','' @ b' = pre @ ''images/'' @ st"
    by simp
  have "(take k ?url @ ''color/'' @ r' @ '','' @ g') @ CHR '','' # b' @ []
      = (pre @ ''images'') @ CHR ''/'' # st @ []"
    using E1 by simp
  from last_sep_clash [OF this _ word_word_seps(2) [OF st] digit_word_seps(3) [OF v(3)]]
  show False by simp
qed

lemma legacySet_groups:
  assumes st: "class_word Word st" and name: "class_word NotSlash name"
  shows "\<exists>c. exec legacySetRegex (legacySetUrl pre st name) = Some c
           \<and> c ''set'' = Some st \<and> c ''name'' = Some name
           \<and> c ''r'' = None \<and> c ''g'' = None \<and> c ''b'' = None"
proof (rule exec_unique [where ?k0.0 = "length pre"])
  let ?url = "legacySetUrl pre st name"
  show "length pre \<le> length ?url" by (simp add: legacySetUrl_def)
  have dr: "drop (length pre) ?url = ''images/'' @ st @ ''/'' @ name @ ''.png''"
    by (simp add: legacySetUrl_def)
  have "(Map.empty(''set'' \<mapsto> st, ''name'' \<mapsto> name), [])
        \<in> set (run legacySetRegex (Map.empty, drop (length pre) ?url))"
    unfolding dr legacySet_match
    by (rule exI [of _ st], rule exI [of _ name], intro conjI refl st name)
  then show "run legacySetRegex (Map.empty, drop (length pre) ?url) \<noteq> []" by auto
next
  let ?url = "legacySetUrl pre st name"
  fix k c' s'
  assume k: "k \<le> length ?url"
    and m: "(c', s') \<in> set (run legacySetRegex (Map.empty, drop k ?url))"
  from m obtain st' name' where
    d: "drop k ?url = ''images/'' @ st' @ ''/'' @ name' @ ''.png''"
    and c': "c' = Map.empty(''set'' \<mapsto> st', ''name'' \<mapsto> name')"
    and v: "class_word Word st'" "class_word NotSlash name'"
    by (rule legacySet_matchE)
  have "take k ?url @ drop k ?url = ?url" by simp
  then have E: "take k ?url @ ''images/'' @ st' @ ''/'' @ name' @ ''.png''
      = pre @ ''images/'' @ st @ ''/'' @ name @ ''.png''"
    unfolding d by (simp add: legacySetUrl_def)
  have "(take k ?url @ ''images/'' @ st') @ CHR ''/'' # name' @ ''.png''
      = (pre @ ''images/'' @ st) @ CHR ''/'' # name @ ''.png''"
    using E by simp
  from last_sep_unique [OF this notslash_word_sep [OF v(2)] notslash_word_sep [OF name]]
  have n: "name' = name" and E1: "take k ?url @ ''images/'' @ st' = pre @ ''images/'' @ st"
    by simp_all
  have "(take k ?url @ ''images'') @ CHR ''/'' # st' @ [] = (pre @ ''images'') @ CHR ''/'' # st @ []"
    using E1 by simp
  from last_sep_unique [OF this word_word_seps(1) [OF v(1)] word_word_seps(1) [OF st]]
  have s: "st' = st" by simp
  show "c' ''set'' = Some st \<and> c' ''name'' = Some name
           \<and> c' ''r'' = None \<and> c' ''g'' = None \<and> c' ''b'' = None"
    unfolding c' by (simp add: s n)
qed

lemma exec_skip:
  "n \<le> length s \<Longrightarrow> (\<forall>k<n. run re (Map.empty, drop k s) = []) \<Longrightarrow>
   exec re s = exec re (drop n s)"
proof (induction n arbitrary: s)
  case 0
  show ?case by simp
next
  case (Suc n)
  then obtain x xs where s: "s = x # xs" by (cases s) auto
  from Suc.prems(2) have "run re (Map.empty, drop 0 s) = []" by blast
  then have here: "match_at re (x # xs) = None" by (simp add: s match_at_def)
  have "\<forall>k<n. run re (Map.empty, drop k xs) = []"
  proof (intro allI impI)
    fix k assume "k < n"
    then have "Suc k < Suc n" by simp
    with Suc.prems(2) have "run re (Map.empty, drop (Suc k) s) = []" by blast
    then show "run re (Map.empty, drop k xs) = []" by (simp add: s)
  qed
  moreover from Suc.prems(1) have "n \<le> length xs" by (simp add: s)
  ultimately have "exec re xs = exec re (drop n xs)" by (rule Suc.IH [rotated])
  with here show ?case by (simp add: s)
qed

lemma exec_here:
  "run re (Map.empty, s) \<noteq> [] \<Longrightarrow> exec re s = Some (fst (hd (run re (Map.empty, s))))"
  by (cases s; cases "run re (Map.empty, s)") (auto simp: match_at_def)

lemma exec_leftmost:
  assumes "k0 \<le> length s"
    and "\<And>k. k < k0 \<Longrightarrow> run re (Map.empty, drop k s) = []"
    and "run re (Map.empty, drop k0 s) \<noteq> []"
    and "\<And>c' s'. (c', s') \<in> set (run re (Map.empty, drop k0 s)) \<Longrightarrow> P c'"
  shows "\<exists>c. exec re s = Some c \<and> P c"
proof -
  let ?L = "run re (Map.empty, drop k0 s)"
  have "exec re s = exec re (drop k0 s)"
    using assms(1,2) by (intro exec_skip) auto
  also have "\<dots> = Some (fst (hd ?L))" using assms(3) by (rule exec_here)
  finally have e: "exec re s = Some (fst (hd ?L))" .
  have "(fst (hd ?L), snd (hd ?L)) \<in> set ?L" using assms(3) by simp
  then have "P (fst (hd ?L))" by (rule assms(4))
  with e show ?thesis by blast
qed

lemma occurs_at_prefix:
  "k \<le> length pre \<Longrightarrow> occurs_at lit (pre @ lit @ rest) k = occurs_at lit (pre @ lit) k"
  by (simp add: occurs_at_def)

lemma first_at_endD:
  "first_at_end pre lit \<Longrightarrow> k < length pre \<Longrightarrow> \<not> occurs_at lit (pre @ lit) k"
  by (simp add: first_at_end_def list_all_iff)

lemma current_name_facts:
  assumes "current_name name"
  shows "class_word AnyChar name" "class_word NotSlash name" "CHR ''@'' \<notin> set name"
    "CHR ''/'' \<notin> set name"
  using assms by (auto simp: current_name_def class_word_def list_all_iff)

subsection \<open>The current grammar\<close>

lemma legacyDefault_none_on_current:
  assumes b: "class_word Digit b"
  shows "exec legacyDefaultRegex (currentUrl pre st name scale r g b) = None"
proof (rule exec_None_intro)
  let ?url = "currentUrl pre st name scale r g b"
  fix k c' s'
  assume k: "k \<le> length ?url"
    and m: "(c', s') \<in> set (run legacyDefaultRegex (Map.empty, drop k ?url))"
  from m obtain r' g' b' name' sz' scale' where
    d: "drop k ?url = ''color/'' @ r' @ '','' @ g' @ '','' @ b' @ ''/'' @ name' @ ''-'' @ sz'
          @ ''@'' @ scale' @ ''x.png''"
    by (rule legacyDefault_matchE)
  have "take k ?url @ drop k ?url = ?url" by simp
  then have E: "take k ?url @ ''color/'' @ r' @ '','' @ g' @ '','' @ b' @ ''/'' @ name' @ ''-'' @ sz'
          @ ''@'' @ scale' @ ''x.png''
      = pre @ ''api/icons/sets/'' @ st @ ''/icons/'' @ name @ ''@'' @ scale @ ''x-'' @ r @ '',''
          @ g @ '','' @ b @ ''.png''"
    unfolding d by (simp add: currentUrl_def)
  have "(take k ?url @ ''color/'' @ r' @ '','' @ g' @ '','' @ b' @ ''/'' @ name' @ ''-'' @ sz'
          @ ''@'' @ scale') @ CHR ''x'' # [] @ ''.png''
      = (pre @ ''api/icons/sets/'' @ st @ ''/icons/'' @ name @ ''@'' @ scale @ ''x-'' @ r @ '',''
          @ g) @ CHR '','' # b @ ''.png''"
    using E by simp
  from last_sep_clash [OF this _ digit_word_seps(5) [OF b]]
  show False by simp
qed

lemma legacySet_none_on_current:
  assumes st: "class_word Word st" and no: "\<not> ends_with ''images'' st"
    and name: "current_name name" and scale: "decimal_word scale"
    and r: "class_word Digit r" and g: "class_word Digit g" and b: "class_word Digit b"
  shows "exec legacySetRegex (currentUrl pre st name scale r g b) = None"
proof (rule exec_None_intro)
  let ?url = "currentUrl pre st name scale r g b"
  fix k c' s'
  assume k: "k \<le> length ?url"
    and m: "(c', s') \<in> set (run legacySetRegex (Map.empty, drop k ?url))"
  from m obtain st' name' where
    d: "drop k ?url = ''images/'' @ st' @ ''/'' @ name' @ ''.png''"
    and v: "class_word Word st'" "class_word NotSlash name'"
    by (rule legacySet_matchE)
  have "take k ?url @ drop k ?url = ?url" by simp
  then have E: "take k ?url @ ''images/'' @ st' @ ''/'' @ name' @ ''.png''
      = pre @ ''api/icons/sets/'' @ st @ ''/icons/'' @ name @ ''@'' @ scale @ ''x-'' @ r @ '',''
          @ g @ '','' @ b @ ''.png''"
    unfolding d by (simp add: currentUrl_def)
  have w: "CHR ''/'' \<notin> set (name @ ''@'' @ scale @ ''x-'' @ r @ '','' @ g @ '','' @ b)"
    using current_name_facts(4) [OF name] decimal_word_seps(2) [OF scale]
      digit_word_seps(3) [OF r] digit_word_seps(3) [OF g] digit_word_seps(3) [OF b]
    by simp
  have "(take k ?url @ ''images/'' @ st') @ CHR ''/'' # name' @ ''.png''
      = (pre @ ''api/icons/sets/'' @ st @ ''/icons'') @ CHR ''/''
          # (name @ ''@'' @ scale @ ''x-'' @ r @ '','' @ g @ '','' @ b) @ ''.png''"
    using E by simp
  from last_sep_unique [OF this notslash_word_sep [OF v(2)] w]
  have E1: "take k ?url @ ''images/'' @ st' = pre @ ''api/icons/sets/'' @ st @ ''/icons''"
    by simp
  have "(take k ?url @ ''images'') @ CHR ''/'' # st' @ []
      = (pre @ ''api/icons/sets/'' @ st) @ CHR ''/'' # ''icons'' @ []"
    using E1 by simp
  from last_sep_unique [OF this word_word_seps(1) [OF v(1)]]
  have E2: "take k ?url @ ''images'' = pre @ ''api/icons/sets/'' @ st"
    by simp
  have "take k ?url @ ''images'' = (pre @ ''api/icons/sets'') @ CHR ''/'' # st"
    using E2 by simp
  from suffix_past_sep [OF this] have "ends_with ''images'' st" by simp
  with no show False by simp
qed

lemma set_groups:
  assumes st: "class_word Word st" and name: "current_name name" and scale: "decimal_word scale"
    and r: "class_word Digit r" and g: "class_word Digit g" and b: "class_word Digit b"
    and pre: "first_at_end pre ''api/icons/sets/''"
  shows "\<exists>c. exec setRegex (currentUrl pre st name scale r g b) = Some c
           \<and> c ''set'' = Some st \<and> c ''name'' = Some name
           \<and> c ''r'' = Some r \<and> c ''g'' = Some g \<and> c ''b'' = Some b"
proof (rule exec_leftmost [where ?k0.0 = "length pre"])
  let ?url = "currentUrl pre st name scale r g b"
  show "length pre \<le> length ?url" by (simp add: currentUrl_def)
  have dr: "drop (length pre) ?url
      = ''api/icons/sets/'' @ st @ ''/icons/'' @ name @ ''@'' @ scale @ ''x-'' @ r @ '',''
          @ g @ '','' @ b @ ''.png'' @ []"
    by (simp add: currentUrl_def)
  have "(Map.empty(''set'' \<mapsto> st, ''name'' \<mapsto> name, ''scale'' \<mapsto> scale, ''r'' \<mapsto> r,
            ''g'' \<mapsto> g, ''b'' \<mapsto> b), [])
        \<in> set (run setRegex (Map.empty, drop (length pre) ?url))"
    unfolding dr set_match
    by (rule exI [of _ st], rule exI [of _ name], rule exI [of _ scale], rule exI [of _ r],
        rule exI [of _ g], rule exI [of _ b],
        intro conjI refl st current_name_facts(1) [OF name] scale r g b)
  then show "run setRegex (Map.empty, drop (length pre) ?url) \<noteq> []" by auto
next
  let ?url = "currentUrl pre st name scale r g b"
  fix k assume k: "k < length pre"
  show "run setRegex (Map.empty, drop k ?url) = []"
  proof (cases "run setRegex (Map.empty, drop k ?url)")
    case Nil
    then show ?thesis .
  next
    case (Cons a list)
    then have "(fst a, snd a) \<in> set (run setRegex (Map.empty, drop k ?url))" by simp
    then obtain rest where "drop k ?url = ''api/icons/sets/'' @ rest"
      by (rule set_matchE) simp
    then have occ: "occurs_at ''api/icons/sets/'' ?url k" by (simp add: occurs_at_def)
    define R where "R = st @ ''/icons/'' @ name @ ''@'' @ scale
          @ ''x-'' @ r @ '','' @ g @ '','' @ b @ ''.png''"
    have u: "?url = pre @ ''api/icons/sets/'' @ R"
      by (simp add: currentUrl_def R_def)
    from occ have "occurs_at ''api/icons/sets/'' (pre @ ''api/icons/sets/'' @ R) k"
      by (simp only: u)
    then have "occurs_at ''api/icons/sets/'' (pre @ ''api/icons/sets/'') k"
      by (simp only: occurs_at_prefix [OF less_imp_le [OF k]])
    with first_at_endD [OF pre k] show ?thesis by simp
  qed
next
  let ?url = "currentUrl pre st name scale r g b"
  fix c' s'
  assume m: "(c', s') \<in> set (run setRegex (Map.empty, drop (length pre) ?url))"
  from m obtain st' name' scale' r' g' b' where
    d: "drop (length pre) ?url = ''api/icons/sets/'' @ st' @ ''/icons/'' @ name' @ ''@'' @ scale'
           @ ''x-'' @ r' @ '','' @ g' @ '','' @ b' @ ''.png'' @ s'"
    and c': "c' = Map.empty(''set'' \<mapsto> st', ''name'' \<mapsto> name', ''scale'' \<mapsto> scale', ''r'' \<mapsto> r',
             ''g'' \<mapsto> g', ''b'' \<mapsto> b')"
    and v: "class_word Word st'" "class_word AnyChar name'" "decimal_word scale'"
      "class_word Digit r'" "class_word Digit g'" "class_word Digit b'"
    by (rule set_matchE)
  have "drop (length pre) ?url
      = ''api/icons/sets/'' @ st @ ''/icons/'' @ name @ ''@'' @ scale @ ''x-'' @ r @ '',''
          @ g @ '','' @ b @ ''.png''"
    by (simp add: currentUrl_def)
  with d have E: "st' @ CHR ''/'' # (''icons/'' @ name' @ ''@'' @ scale'
           @ ''x-'' @ r' @ '','' @ g' @ '','' @ b' @ ''.png'' @ s')
      = st @ CHR ''/'' # (''icons/'' @ name @ ''@'' @ scale @ ''x-'' @ r @ '',''
          @ g @ '','' @ b @ ''.png'')"
    by simp
  from first_sep_unique [OF E word_word_seps(1) [OF v(1)] word_word_seps(1) [OF st]]
  have s: "st' = st"
    and E1: "name' @ CHR ''@'' # (scale' @ ''x-'' @ r' @ '','' @ g' @ '','' @ b' @ ''.png'' @ s')
      = name @ CHR ''@'' # (scale @ ''x-'' @ r @ '','' @ g @ '','' @ b @ ''.png'')"
    by simp_all
  have w: "CHR ''@'' \<notin> set (scale @ ''x-'' @ r @ '','' @ g @ '','' @ b @ ''.png'')"
    using decimal_word_seps(1) [OF scale] digit_word_seps(1) [OF r] digit_word_seps(1) [OF g]
      digit_word_seps(1) [OF b] by simp
  from first_sep_only [OF E1 current_name_facts(3) [OF name] w]
  have n: "name' = name"
    and E2: "scale' @ CHR ''x'' # (''-'' @ r' @ '','' @ g' @ '','' @ b' @ ''.png'' @ s')
      = scale @ CHR ''x'' # (''-'' @ r @ '','' @ g @ '','' @ b @ ''.png'')"
    by simp_all
  from first_sep_unique [OF E2 decimal_word_seps(4) [OF v(3)] decimal_word_seps(4) [OF scale]]
  have E3: "r' @ CHR '','' # (g' @ '','' @ b' @ ''.png'' @ s')
      = r @ CHR '','' # (g @ '','' @ b @ ''.png'')"
    by simp
  from first_sep_unique [OF E3 digit_word_seps(4) [OF v(4)] digit_word_seps(4) [OF r]]
  have rr: "r' = r"
    and E4: "g' @ CHR '','' # (b' @ ''.png'' @ s') = g @ CHR '','' # (b @ ''.png'')"
    by simp_all
  from first_sep_unique [OF E4 digit_word_seps(4) [OF v(5)] digit_word_seps(4) [OF g]]
  have gg: "g' = g"
    and E5: "b' @ CHR ''.'' # (''png'' @ s') = b @ CHR ''.'' # ''png''"
    by simp_all
  from first_sep_unique [OF E5 digit_word_seps(6) [OF v(6)] digit_word_seps(6) [OF b]]
  have bb: "b' = b" by simp
  show "c' ''set'' = Some st \<and> c' ''name'' = Some name
           \<and> c' ''r'' = Some r \<and> c' ''g'' = Some g \<and> c' ''b'' = Some b"
    unfolding c' by (simp add: s n rr gg bb)
qed

subsection \<open>parseIconUrl on the three grammars\<close>

lemma parseRGBColor_channel:
  "channel_word ds \<Longrightarrow> parseRGBColor (channel_of (Some ds) dflt) lbl = Inr (digits_value ds)"
  by (simp add: parseRGBColor_def channel_of_def channel_word_def class_word_def)

lemma parseRGBColor_default:
  "dflt \<le> 255 \<Longrightarrow> parseRGBColor (channel_of None dflt) lbl = Inr dflt"
  by (simp add: parseRGBColor_def channel_of_def)

lemma parseIconUrl_legacyColored:
  assumes "channel_word r" "channel_word g" "channel_word b" "class_word NotSlash name"
    "class_word Digit sz" "class_word Digit scale"
  shows "parseIconUrl (Some (legacyColoredUrl pre r g b name sz scale))
       = (Inr (Some \<lparr>args_set = ''default'', args_name = name,
                      args_color = \<lparr>channel_r = digits_value r, channel_g = digits_value g,
                                     channel_b = digits_value b\<rparr>,
                      isLegacy = True\<rparr>), [])"
proof -
  from assms have "class_word Digit r" "class_word Digit g" "class_word Digit b"
    by (simp_all add: channel_word_def)
  from legacyDefault_groups [OF this assms(4,5,6), of pre]
  obtain c where c: "exec legacyDefaultRegex (legacyColoredUrl pre r g b name sz scale) = Some c"
    "c ''r'' = Some r" "c ''g'' = Some g" "c ''b'' = Some b" "c ''name'' = Some name"
    "c ''set'' = None"
    by (elim exE conjE)
  show ?thesis
    by (simp add: parseIconUrl_def Let_def nullish_def c parseRGBColor_channel assms)
qed

lemma parseIconUrl_legacySet:
  assumes "class_word Word st" "class_word NotSlash name"
  shows "parseIconUrl (Some (legacySetUrl pre st name))
       = (Inr (Some \<lparr>args_set = st, args_name = name,
                      args_color = \<lparr>channel_r = 255, channel_g = 0, channel_b = 0\<rparr>,
                      isLegacy = True\<rparr>), [])"
proof -
  from legacySet_groups [OF assms, of pre]
  obtain c where c: "exec legacySetRegex (legacySetUrl pre st name) = Some c"
    "c ''set'' = Some st" "c ''name'' = Some name" "c ''r'' = None" "c ''g'' = None"
    "c ''b'' = None"
    by (elim exE conjE)
  note n = legacyDefault_none_on_legacySet [OF assms, of pre]
  show ?thesis
    by (simp add: parseIconUrl_def Let_def nullish_def c n parseRGBColor_default)
qed

lemma parseIconUrl_current:
  assumes "class_word Word st" "\<not> ends_with ''images'' st" "current_name name"
    "decimal_word scale" "channel_word r" "channel_word g" "channel_word b"
    "first_at_end pre ''api/icons/sets/''"
  shows "parseIconUrl (Some (currentUrl pre st name scale r g b))
       = (Inr (Some \<lparr>args_set = st, args_name = name,
                      args_color = \<lparr>channel_r = digits_value r, channel_g = digits_value g,
                                     channel_b = digits_value b\<rparr>,
                      isLegacy = False\<rparr>), [])"
proof -
  from assms have d: "class_word Digit r" "class_word Digit g" "class_word Digit b"
    by (simp_all add: channel_word_def)
  from set_groups [OF assms(1,3,4) d assms(8)]
  obtain c where c: "exec setRegex (currentUrl pre st name scale r g b) = Some c"
    "c ''set'' = Some st" "c ''name'' = Some name" "c ''r'' = Some r" "c ''g'' = Some g"
    "c ''b'' = Some b"
    by (elim exE conjE)
  note n1 = legacyDefault_none_on_current [OF d(3), of pre st name scale r g]
  note n2 = legacySet_none_on_current [OF assms(1,2,3,4) d, of pre]
  show ?thesis
    by (simp add: parseIconUrl_def Let_def nullish_def c n1 n2 parseRGBColor_channel assms)
qed

lemma parseIconUrl_no_match:
  assumes "exec legacyDefaultRegex url = None" "exec legacySetRegex url = None"
    "exec setRegex url = None"
  shows "parseIconUrl (Some url) = (Inr None, [LogWarn ''Could not retrieve icon infos from URL''])"
  by (simp add: parseIconUrl_def Let_def nullish_def assms)

text \<open>
  Claim C7, amended. \<open>parseIconUrl\<close> returns the arguments a URL encodes, with nothing
  logged, for every URL of the legacy colored grammar (any prefix, channels of decimal
  digits worth at most 255, a name without slash, size and scale of digits: set
  \<open>default\<close>, \<open>isLegacy\<close> true), for every URL of the legacy set-based grammar (a set of
  word characters, a name without slash: the colour is the default red, \<open>isLegacy\<close> true),
  and for every URL of the current grammar (\<open>isLegacy\<close> false) whose set does not end in
  \<open>images\<close>, whose name has no slash, no at sign and no line break, and before whose path
  the text \<open>api/icons/sets/\<close> does not occur. For every URL that none of the three
  patterns matches it returns null, with a warning logged, and does not throw.
\<close>

theorem parseIconUrl_recovers:
  "(channel_word r \<and> channel_word g \<and> channel_word b \<and> class_word NotSlash name
      \<and> class_word Digit sz \<and> class_word Digit scale \<longrightarrow>
    parseIconUrl (Some (legacyColoredUrl pre r g b name sz scale))
      = (Inr (Some \<lparr>args_set = ''default'', args_name = name,
                     args_color = \<lparr>channel_r = digits_value r, channel_g = digits_value g,
                                    channel_b = digits_value b\<rparr>,
                     isLegacy = True\<rparr>), []))
 \<and> (class_word Word st \<and> class_word NotSlash name \<longrightarrow>
    parseIconUrl (Some (legacySetUrl pre st name))
      = (Inr (Some \<lparr>args_set = st, args_name = name,
                     args_color = \<lparr>channel_r = 255, channel_g = 0, channel_b = 0\<rparr>,
                     isLegacy = True\<rparr>), []))
 \<and> (class_word Word st \<and> \<not> ends_with ''images'' st \<and> current_name name
      \<and> decimal_word dscale \<and> channel_word r \<and> channel_word g \<and> channel_word b
      \<and> first_at_end pre ''api/icons/sets/'' \<longrightarrow>
    parseIconUrl (Some (currentUrl pre st name dscale r g b))
      = (Inr (Some \<lparr>args_set = st, args_name = name,
                     args_color = \<lparr>channel_r = digits_value r, channel_g = digits_value g,
                                    channel_b = digits_value b\<rparr>,
                     isLegacy = False\<rparr>), []))
 \<and> (exec legacyDefaultRegex url = None \<and> exec legacySetRegex url = None
      \<and> exec setRegex url = None \<longrightarrow>
    parseIconUrl (Some url) = (Inr None, [LogWarn ''Could not retrieve icon infos from URL'']))"
  by (intro conjI impI; (elim conjE)?)
     (rule parseIconUrl_legacyColored parseIconUrl_legacySet parseIconUrl_current
        parseIconUrl_no_match; assumption)+

text \<open>
  Claim C7, as the claim states it, fails: the URL the current grammar generates for the
  set \<open>images\<close>, the name \<open>marker\<close>, the scale 1 and the colour (255, 0, 0) also matches
  the legacy set-based pattern, which is tried first: \<open>parseIconUrl\<close> returns the set
  \<open>icons\<close>, the name \<open>marker@1x-255,0,0\<close> and \<open>isLegacy\<close> true.
\<close>

theorem set_named_images_is_misread:
  "class_word Word ''images'' \<and> current_name ''marker'' \<and> decimal_word ''1''
   \<and> channel_word ''255'' \<and> channel_word ''0''
   \<and> first_at_end ''https://map.geo.admin.ch/'' ''api/icons/sets/''
   \<and> currentUrl ''https://map.geo.admin.ch/'' ''images'' ''marker'' ''1'' ''255'' ''0'' ''0''
       = ''https://map.geo.admin.ch/api/icons/sets/images/icons/marker@1x-255,0,0.png''
   \<and> fst (parseIconUrl (Some ''https://map.geo.admin.ch/api/icons/sets/images/icons/marker@1x-255,0,0.png''))
       = Inr (Some \<lparr>args_set = ''icons'', args_name = ''marker@1x-255,0,0'',
                     args_color = \<lparr>channel_r = 255, channel_g = 0, channel_b = 0\<rparr>,
                     isLegacy = True\<rparr>)"
  by code_simp


theorem parseIconUrl_recovers_witness:
  "channel_word ''255'' \<and> channel_word ''0'' \<and> class_word NotSlash ''marker''
   \<and> class_word Digit ''24'' \<and> class_word Digit ''2''
   \<and> legacyColoredUrl ''https://api3.geo.admin.ch/'' ''255'' ''0'' ''0'' ''marker'' ''24'' ''2''
       = ''https://api3.geo.admin.ch/color/255,0,0/marker-24@2x.png''
   \<and> parseIconUrl (Some ''https://api3.geo.admin.ch/color/255,0,0/marker-24@2x.png'')
       = (Inr (Some \<lparr>args_set = ''default'', args_name = ''marker'',
                      args_color = \<lparr>channel_r = 255, channel_g = 0, channel_b = 0\<rparr>,
                      isLegacy = True\<rparr>), [])
   \<and> class_word Word ''babs'' \<and> class_word NotSlash ''babs-3''
   \<and> legacySetUrl ''https://api3.geo.admin.ch/'' ''babs'' ''babs-3''
       = ''https://api3.geo.admin.ch/images/babs/babs-3.png''
   \<and> parseIconUrl (Some ''https://api3.geo.admin.ch/images/babs/babs-3.png'')
       = (Inr (Some \<lparr>args_set = ''babs'', args_name = ''babs-3'',
                      args_color = \<lparr>channel_r = 255, channel_g = 0, channel_b = 0\<rparr>,
                      isLegacy = True\<rparr>), [])
   \<and> class_word Word ''default'' \<and> \<not> ends_with ''images'' ''default''
   \<and> current_name ''001-marker'' \<and> decimal_word ''1.5''
   \<and> first_at_end ''https://map.geo.admin.ch/'' ''api/icons/sets/''
   \<and> currentUrl ''https://map.geo.admin.ch/'' ''default'' ''001-marker'' ''1.5'' ''255'' ''0'' ''0''
       = ''https://map.geo.admin.ch/api/icons/sets/default/icons/001-marker@1.5x-255,0,0.png''
   \<and> parseIconUrl
         (Some ''https://map.geo.admin.ch/api/icons/sets/default/icons/001-marker@1.5x-255,0,0.png'')
       = (Inr (Some \<lparr>args_set = ''default'', args_name = ''001-marker'',
                      args_color = \<lparr>channel_r = 255, channel_g = 0, channel_b = 0\<rparr>,
                      isLegacy = False\<rparr>), [])
   \<and> exec legacyDefaultRegex ''https://example.com/pin.png'' = None
   \<and> exec legacySetRegex ''https://example.com/pin.png'' = None
   \<and> exec setRegex ''https://example.com/pin.png'' = None
   \<and> parseIconUrl (Some ''https://example.com/pin.png'')
       = (Inr None, [LogWarn ''Could not retrieve icon infos from URL''])"
proof -
  have c255: "channel_word ''255''" and c0: "channel_word ''0''"
    and n1: "class_word NotSlash ''marker''" and sz: "class_word Digit ''24''"
    and sc: "class_word Digit ''2''"
    and st2: "class_word Word ''babs''" and n2: "class_word NotSlash ''babs-3''"
    and st3: "class_word Word ''default''" and ni: "\<not> ends_with ''images'' ''default''"
    and n3: "current_name ''001-marker''" and ds: "decimal_word ''1.5''"
    and fe: "first_at_end ''https://map.geo.admin.ch/'' ''api/icons/sets/''"
    by code_simp+
  have x1: "exec legacyDefaultRegex ''https://example.com/pin.png'' = None"
    and x2: "exec legacySetRegex ''https://example.com/pin.png'' = None"
    and x3: "exec setRegex ''https://example.com/pin.png'' = None"
    by code_simp+
  have u1: "legacyColoredUrl ''https://api3.geo.admin.ch/'' ''255'' ''0'' ''0'' ''marker'' ''24'' ''2''
       = ''https://api3.geo.admin.ch/color/255,0,0/marker-24@2x.png''"
    by (simp add: legacyColoredUrl_def)
  have u2: "legacySetUrl ''https://api3.geo.admin.ch/'' ''babs'' ''babs-3''
       = ''https://api3.geo.admin.ch/images/babs/babs-3.png''"
    by (simp add: legacySetUrl_def)
  have u3: "currentUrl ''https://map.geo.admin.ch/'' ''default'' ''001-marker'' ''1.5'' ''255'' ''0'' ''0''
       = ''https://map.geo.admin.ch/api/icons/sets/default/icons/001-marker@1.5x-255,0,0.png''"
    by (simp add: currentUrl_def)
  have d: "digits_value ''255'' = 255" "digits_value ''0'' = 0"
    by (simp_all add: digits_value_def)
  have h1: "channel_word ''255'' \<and> channel_word ''0'' \<and> channel_word ''0''
      \<and> class_word NotSlash ''marker'' \<and> class_word Digit ''24'' \<and> class_word Digit ''2''"
    by (intro conjI c255 c0 n1 sz sc)
  have h2: "class_word Word ''babs'' \<and> class_word NotSlash ''babs-3''"
    by (intro conjI st2 n2)
  have h3: "class_word Word ''default'' \<and> \<not> ends_with ''images'' ''default''
      \<and> current_name ''001-marker'' \<and> decimal_word ''1.5'' \<and> channel_word ''255''
      \<and> channel_word ''0'' \<and> channel_word ''0''
      \<and> first_at_end ''https://map.geo.admin.ch/'' ''api/icons/sets/''"
    by (intro conjI st3 ni n3 ds c255 c0 fe)
  have h4: "exec legacyDefaultRegex ''https://example.com/pin.png'' = None
      \<and> exec legacySetRegex ''https://example.com/pin.png'' = None
      \<and> exec setRegex ''https://example.com/pin.png'' = None"
    by (intro conjI x1 x2 x3)
  have p1: "parseIconUrl (Some ''https://api3.geo.admin.ch/color/255,0,0/marker-24@2x.png'')
       = (Inr (Some \<lparr>args_set = ''default'', args_name = ''marker'',
                      args_color = \<lparr>channel_r = 255, channel_g = 0, channel_b = 0\<rparr>,
                      isLegacy = True\<rparr>), [])"
    using parseIconUrl_recovers [where r = "''255''" and g = "''0''" and b = "''0''"
        and name = "''marker''" and sz = "''24''" and scale = "''2''"
        and pre = "''https://api3.geo.admin.ch/''", THEN conjunct1, rule_format, OF h1]
    unfolding u1 d .
  have p2: "parseIconUrl (Some ''https://api3.geo.admin.ch/images/babs/babs-3.png'')
       = (Inr (Some \<lparr>args_set = ''babs'', args_name = ''babs-3'',
                      args_color = \<lparr>channel_r = 255, channel_g = 0, channel_b = 0\<rparr>,
                      isLegacy = True\<rparr>), [])"
    using parseIconUrl_recovers [where st = "''babs''" and name = "''babs-3''"
        and pre = "''https://api3.geo.admin.ch/''", THEN conjunct2, THEN conjunct1,
        rule_format, OF h2]
    unfolding u2 .
  have p3: "parseIconUrl
         (Some ''https://map.geo.admin.ch/api/icons/sets/default/icons/001-marker@1.5x-255,0,0.png'')
       = (Inr (Some \<lparr>args_set = ''default'', args_name = ''001-marker'',
                      args_color = \<lparr>channel_r = 255, channel_g = 0, channel_b = 0\<rparr>,
                      isLegacy = False\<rparr>), [])"
    using parseIconUrl_recovers [where st = "''default''" and name = "''001-marker''"
        and dscale = "''1.5''" and r = "''255''" and g = "''0''" and b = "''0''"
        and pre = "''https://map.geo.admin.ch/''", THEN conjunct2, THEN conjunct2,
        THEN conjunct1, rule_format, OF h3]
    unfolding u3 d .
  have p4: "parseIconUrl (Some ''https://example.com/pin.png'')
       = (Inr None, [LogWarn ''Could not retrieve icon infos from URL''])"
    using parseIconUrl_recovers [where url = "''https://example.com/pin.png''",
        THEN conjunct2, THEN conjunct2, THEN conjunct2, rule_format, OF h4] .
  show ?thesis
    by (intro conjI c255 c0 n1 sz sc u1 p1 st2 n2 u2 p2 st3 ni n3 ds fe u3 p3 x1 x2 x3 p4)
qed


section \<open>Editable features read from KML\<close>

subsection \<open>The fields of a returned feature\<close>

lemma getFeatureType_defined:
  "fst (getFeatureType kmlFeature) = Inr ft \<Longrightarrow> ft \<noteq> None"
  by (auto simp: getFeatureType_def Let_def array_includes_def
      split: sum.splits option.splits if_splits)

text \<open>The shape of every non-null result.\<close>

lemma editable_feature_shape:
  assumes "fst (getEditableFeatureFromKmlFeature env kmlFeature availableIconSets) = Inr (Some ef)"
  obtains f style ft iconArgs where
    "kmlFeature = OlFeature f" "getStyle f = Some style"
    "fst (getFeatureType kmlFeature) = Inr ft"
    "ef_featureType ef = ft"
    "ef_textColor ef = Some (getTextColor env style)"
    "ef_textSize ef = Some (getTextSize env (getTextScale env style))"
    "\<exists>geom. feature_geometry f = Some geom
        \<and> ef_fillColor ef = Some (getFillColor env style (geom_type geom) iconArgs)"
    "getIconStyle env style = None \<longrightarrow> ef_icon ef = None \<and> ef_iconSize ef = None"
    "getIconStyle env style \<noteq> None \<longrightarrow> ef_iconSize ef \<noteq> None"
proof -
  from assms obtain f where f: "kmlFeature = OlFeature f"
    by (cases kmlFeature)
       (auto simp: getEditableFeatureFromKmlFeature_def split: prod.splits sum.splits)
  from assms obtain style where style: "getStyle f = Some style"
    unfolding f
    by (cases "getStyle f")
       (auto simp: getEditableFeatureFromKmlFeature_def split: prod.splits sum.splits)
  obtain r1 log1 where g: "getFeatureType (OlFeature f) = (r1, log1)" by (cases "getFeatureType (OlFeature f)")
  with assms obtain ft where ft: "r1 = Inr ft"
    unfolding f
    by (cases r1) (auto simp: getEditableFeatureFromKmlFeature_def)
  obtain r2 log2 where p: "(case getIconStyle env style of
                               Some ist \<Rightarrow> parseIconUrl (icon_src ist)
                             | None \<Rightarrow> (Inr None, [])) = (r2, log2)"
    by (cases "(case getIconStyle env style of
                               Some ist \<Rightarrow> parseIconUrl (icon_src ist)
                             | None \<Rightarrow> (Inr None, []))")
  with assms obtain iconArgs where ia: "r2 = Inr iconArgs"
    unfolding f
    by (cases r2) (auto simp: getEditableFeatureFromKmlFeature_def g ft style Let_def)
  have none: "getIconStyle env style = None \<Longrightarrow> iconArgs = None"
    using p ia by simp
  show ?thesis
  proof (rule that [of f style ft iconArgs])
    show "kmlFeature = OlFeature f" by (rule f)
    show "getStyle f = Some style" by (rule style)
    show "fst (getFeatureType kmlFeature) = Inr ft" by (simp add: f g ft)
    show "ef_featureType ef = ft"
      using assms unfolding f
      by (auto simp: getEditableFeatureFromKmlFeature_def g ft style Let_def p ia
          split: prod.splits sum.splits option.splits if_splits)
    show "ef_textColor ef = Some (getTextColor env style)"
      using assms unfolding f
      by (auto simp: getEditableFeatureFromKmlFeature_def g ft style Let_def p ia
          split: prod.splits sum.splits option.splits if_splits)
    show "ef_textSize ef = Some (getTextSize env (getTextScale env style))"
      using assms unfolding f
      by (auto simp: getEditableFeatureFromKmlFeature_def g ft style Let_def p ia
          split: prod.splits sum.splits option.splits if_splits)
    show "\<exists>geom. feature_geometry f = Some geom
        \<and> ef_fillColor ef = Some (getFillColor env style (geom_type geom) iconArgs)"
      using assms unfolding f
      by (auto simp: getEditableFeatureFromKmlFeature_def g ft style Let_def p ia
          split: prod.splits sum.splits option.splits if_splits)
    show "getIconStyle env style = None \<longrightarrow> ef_icon ef = None \<and> ef_iconSize ef = None"
      using assms none unfolding f
      by (auto simp: getEditableFeatureFromKmlFeature_def g ft style Let_def p ia
          split: prod.splits sum.splits option.splits if_splits)
    show "getIconStyle env style \<noteq> None \<longrightarrow> ef_iconSize ef \<noteq> None"
      using assms unfolding f
      by (auto simp: getEditableFeatureFromKmlFeature_def g ft style Let_def p ia
          split: prod.splits sum.splits option.splits if_splits)
  qed
qed

lemma example_line_result:
  "fst (getEditableFeatureFromKmlFeature example_kml_env (OlFeature line_feature) None)
     = Inr (Some expected_line)"
  by code_simp

text \<open>
  Claim C2, amended. Every non-null EditableFeature that
  \<open>getEditableFeatureFromKmlFeature\<close> returns has a feature type, a fill colour, a text
  colour and a text size that are not null; when its icon is not null its icon size is
  not null either; and its icon size is null exactly when the style of the feature has no
  icon style (\<open>getIconStyle\<close> gives null). Nothing is said of the icon of a feature that
  has an icon size.
\<close>

theorem editable_feature_fields:
  assumes "fst (getEditableFeatureFromKmlFeature env kmlFeature availableIconSets) = Inr (Some ef)"
  shows "ef_featureType ef \<noteq> None \<and> ef_fillColor ef \<noteq> None \<and> ef_textColor ef \<noteq> None
       \<and> ef_textSize ef \<noteq> None
       \<and> (ef_icon ef \<noteq> None \<longrightarrow> ef_iconSize ef \<noteq> None)
       \<and> (\<exists>f style. kmlFeature = OlFeature f \<and> getStyle f = Some style
             \<and> (ef_iconSize ef \<noteq> None \<longleftrightarrow> getIconStyle env style \<noteq> None))"
proof -
  from assms obtain f style ft iconArgs where s:
    "kmlFeature = OlFeature f" "getStyle f = Some style"
    "fst (getFeatureType kmlFeature) = Inr ft"
    "ef_featureType ef = ft"
    "ef_textColor ef = Some (getTextColor env style)"
    "ef_textSize ef = Some (getTextSize env (getTextScale env style))"
    "\<exists>geom. feature_geometry f = Some geom
        \<and> ef_fillColor ef = Some (getFillColor env style (geom_type geom) iconArgs)"
    "getIconStyle env style = None \<longrightarrow> ef_icon ef = None \<and> ef_iconSize ef = None"
    "getIconStyle env style \<noteq> None \<longrightarrow> ef_iconSize ef \<noteq> None"
    by (rule editable_feature_shape)
  have "ef_featureType ef \<noteq> None" using getFeatureType_defined [OF s(3)] s(4) by simp
  moreover have "ef_fillColor ef \<noteq> None" using s(7) by auto
  moreover have "ef_textColor ef \<noteq> None" "ef_textSize ef \<noteq> None" using s(5,6) by simp_all
  moreover have "ef_icon ef \<noteq> None \<longrightarrow> ef_iconSize ef \<noteq> None" using s(8,9) by auto
  moreover have "ef_iconSize ef \<noteq> None \<longleftrightarrow> getIconStyle env style \<noteq> None"
    using s(8,9) by auto
  ultimately show ?thesis using s(1,2) by simp
qed

text \<open>
  Witness of claim C2, amended: the example line, read without icon sets, gives a feature
  with all four fields set, and neither icon nor icon size, its style having no image.
\<close>

theorem editable_feature_fields_witness:
  "fst (getEditableFeatureFromKmlFeature example_kml_env (OlFeature line_feature) None)
     = Inr (Some expected_line)
   \<and> ef_featureType expected_line \<noteq> None \<and> ef_fillColor expected_line \<noteq> None
   \<and> ef_textColor expected_line \<noteq> None \<and> ef_textSize expected_line \<noteq> None
   \<and> ef_icon expected_line = None \<and> ef_iconSize expected_line = None
   \<and> getIconStyle example_kml_env plain_style = None"
proof -
  note T = editable_feature_fields [OF example_line_result]
  have i: "ef_icon expected_line = None" "ef_iconSize expected_line = None"
    by (simp_all add: expected_line_def)
  have g: "getIconStyle example_kml_env plain_style = None"
    by (simp add: getIconStyle_def plain_style_def)
  from T have "ef_featureType expected_line \<noteq> None" "ef_fillColor expected_line \<noteq> None"
    "ef_textColor expected_line \<noteq> None" "ef_textSize expected_line \<noteq> None"
    by simp_all
  with example_line_result i g show ?thesis by simp
qed

text \<open>
  Claim C2, as the claim states it, fails: a point whose icon is the image
  \<open>https://example.com/pin.png\<close>, a URL none of the three patterns of \<open>parseIconUrl\<close>
  matches, is read into a feature whose icon is null and whose icon size is the small
  preset.
\<close>

theorem custom_icon_without_catalog_icon:
  "fst (getEditableFeatureFromKmlFeature example_kml_env (OlFeature custom_pin_feature) None)
     = Inr (Some expected_custom_pin)
   \<and> ef_icon expected_custom_pin = None
   \<and> ef_iconSize expected_custom_pin = Some small_size"
  by code_simp

subsection \<open>When getEditableFeatureFromKmlFeature returns and when it throws\<close>





















end
